(* ===== verification/Prelude.thy ===== *)
theory Prelude
  imports Main "HOL-Library.Word"
begin

text \<open>
  Shared vocabulary of the development: Rust's fixed-width unsigned integers as words, the
  standard library's checked and saturating arithmetic, \<open>Result\<close> with panics as values,
  and the state-and-failure computations that model code running over thread-local state.

  Arithmetic written with the plain operators wraps, as it does in the workspace's release
  profile (\<open>src/Cargo.toml\<close> sets no overflow checks for it); indexing out of range and
  dividing by zero panic in every profile and are the value \<open>Panic\<close> here.
\<close>

unbundle bit_operations_syntax

section \<open>Machine integers\<close>

type_synonym u8 = "8 word"
type_synonym u16 = "16 word"
type_synonym u32 = "32 word"
type_synonym u64 = "64 word"
type_synonym u128 = "128 word"

text \<open>A Rust array \<open>[u8; 32]\<close> is the 256-bit word with those bytes, most significant first.\<close>

type_synonym bytes32 = "256 word"
type_synonym bytes = "u8 list"

named_theorems arith_iffs \<open>results of checked arithmetic in terms of natural numbers\<close>
named_theorems monad_iffs \<open>when a computation over results returns\<close>

definition checked_add :: "'a::len word \<Rightarrow> 'a word \<Rightarrow> 'a word option" where
  "checked_add a b = (if unat a + unat b < 2 ^ LENGTH('a) then Some (a + b) else None)"

definition checked_sub :: "'a::len word \<Rightarrow> 'a word \<Rightarrow> 'a word option" where
  "checked_sub a b = (if b \<le> a then Some (a - b) else None)"

definition checked_mul :: "'a::len word \<Rightarrow> 'a word \<Rightarrow> 'a word option" where
  "checked_mul a b = (if unat a * unat b < 2 ^ LENGTH('a) then Some (a * b) else None)"

definition checked_div :: "'a::len word \<Rightarrow> 'a word \<Rightarrow> 'a word option" where
  "checked_div a b = (if b = 0 then None else Some (a div b))"

definition saturating_add :: "'a::len word \<Rightarrow> 'a word \<Rightarrow> 'a word" where
  "saturating_add a b = (case checked_add a b of Some c \<Rightarrow> c | None \<Rightarrow> - 1)"

definition saturating_sub :: "'a::len word \<Rightarrow> 'a word \<Rightarrow> 'a word" where
  "saturating_sub a b = (case checked_sub a b of Some c \<Rightarrow> c | None \<Rightarrow> 0)"

definition saturating_mul :: "'a::len word \<Rightarrow> 'a word \<Rightarrow> 'a word" where
  "saturating_mul a b = (case checked_mul a b of Some c \<Rightarrow> c | None \<Rightarrow> - 1)"

definition div_ceil :: "'a::len word \<Rightarrow> 'a word \<Rightarrow> 'a word" where
  "div_ceil a b = (if a mod b = 0 then a div b else a div b + 1)"

lemma unat_eqI: "unat a = unat b \<Longrightarrow> a = b"
  by (simp add: word_eq_iff_unsigned [where ?'a = nat])

lemma unat_bound: "unat (a :: 'a::len word) < 2 ^ LENGTH('a)"
  by (fact unsigned_less)

lemma checked_add_Some_iff [arith_iffs]:
  "checked_add a b = Some c \<longleftrightarrow> unat c = unat a + unat b"
proof
  assume "unat c = unat a + unat b"
  then show "checked_add a b = Some c"
    by (metis checked_add_def unat_eqI unat_bound unat_add_lem)
qed (auto simp: checked_add_def unat_add_lem [THEN iffD1] split: if_splits)

lemma checked_add_None_iff [arith_iffs]:
  "checked_add (a :: 'a::len word) b = None \<longleftrightarrow> 2 ^ LENGTH('a) \<le> unat a + unat b"
  by (simp add: checked_add_def not_less)

lemma checked_sub_Some_iff [arith_iffs]:
  "checked_sub a b = Some c \<longleftrightarrow> unat a = unat b + unat c"
proof
  assume h: "unat a = unat b + unat c"
  then have le: "b \<le> a"
    by (simp add: word_le_nat_alt)
  then have "unat (a - b) = unat c"
    using h by (simp add: unat_sub)
  then show "checked_sub a b = Some c"
    using le by (auto simp: checked_sub_def intro: unat_eqI)
qed (auto simp: checked_sub_def unat_sub word_le_nat_alt split: if_splits)

lemma checked_sub_None_iff [arith_iffs]: "checked_sub a b = None \<longleftrightarrow> unat a < unat b"
  by (auto simp: checked_sub_def word_le_nat_alt)

lemma checked_mul_Some_iff [arith_iffs]:
  "checked_mul a b = Some c \<longleftrightarrow> unat c = unat a * unat b"
proof
  assume "unat c = unat a * unat b"
  then show "checked_mul a b = Some c"
    by (metis checked_mul_def unat_eqI unat_bound unat_mult_lem)
qed (auto simp: checked_mul_def unat_mult_lem [THEN iffD1] split: if_splits)

lemma checked_mul_None_iff [arith_iffs]:
  "checked_mul (a :: 'a::len word) b = None \<longleftrightarrow> 2 ^ LENGTH('a) \<le> unat a * unat b"
  by (simp add: checked_mul_def not_less)

lemma checked_div_Some_iff [arith_iffs]:
  "checked_div a b = Some c \<longleftrightarrow> b \<noteq> 0 \<and> unat c = unat a div unat b"
  by (auto simp: checked_div_def unat_div intro: unat_eqI split: if_splits)

lemma checked_div_None_iff [arith_iffs]: "checked_div a b = None \<longleftrightarrow> b = 0"
  by (simp add: checked_div_def)

lemma unat_saturating_sub [simp]: "unat (saturating_sub a b) = unat a - unat b"
  by (auto simp: saturating_sub_def arith_iffs split: option.splits)

lemma unat_saturating_add:
  "unat (saturating_add (a :: 'a::len word) b) = min (unat a + unat b) (2 ^ LENGTH('a) - 1)"
proof (cases "checked_add a b")
  case None
  then have "2 ^ LENGTH('a) \<le> unat a + unat b"
    by (simp add: checked_add_None_iff)
  with None show ?thesis
    by (simp add: saturating_add_def unsigned_minus_1_eq_mask mask_eq_exp_minus_1)
next
  case (Some c)
  then have "unat c = unat a + unat b"
    by (simp add: checked_add_Some_iff)
  with Some show ?thesis
    using unat_bound [of c] by (simp add: saturating_add_def)
qed

lemma unat_div_ceil:
  fixes a b :: "'a::len word"
  assumes "b \<noteq> 0"
  shows "unat (div_ceil a b) = (unat a + unat b - 1) div unat b"
proof -
  obtain q r where a: "unat a = q * unat b + r" and r: "r < unat b"
    using assms by (metis div_mult_mod_eq mod_less_divisor unat_gt_0)
  have dm: "unat (a div b) = q" "unat (a mod b) = r"
    using a r by (simp_all add: unat_div unat_mod)
  show ?thesis
  proof (cases "r = 0")
    case True
    then have "a mod b = 0"
      using dm by (simp add: unat_eq_zero)
    then have "unat (div_ceil a b) = q"
      using dm by (simp add: div_ceil_def)
    moreover have "(unat a + unat b - 1) div unat b = q"
      using a r True by (intro div_nat_eqI) (auto simp: algebra_simps)
    ultimately show ?thesis by simp
  next
    case False
    then have nz: "a mod b \<noteq> 0"
      using dm by (metis unsigned_0)
    have "1 \<le> unat b"
      using r by simp
    then have "q \<le> q * unat b"
      by simp
    then have "q < unat a"
      using a False by linarith
    then have "q + 1 < 2 ^ LENGTH('a)"
      using unat_bound [of a] by linarith
    then have "unat (a div b) + unat (1 :: 'a word) < 2 ^ LENGTH('a)"
      using dm by simp
    then have "unat (a div b + 1) = q + 1"
      using dm by (simp add: unat_add_lem [THEN iffD1])
    moreover have "(unat a + unat b - 1) div unat b = q + 1"
      using a r False by (intro div_nat_eqI) (auto simp: algebra_simps)
    ultimately show ?thesis
      using nz by (simp add: div_ceil_def)
  qed
qed

lemma unat_min [simp]: "unat (min a b) = min (unat a) (unat b)"
  by (simp add: min_def word_le_nat_alt)

lemma unat_max [simp]: "unat (max a b) = max (unat a) (unat b)"
  by (simp add: max_def word_le_nat_alt)

text \<open>The casts \<open>as u128\<close> and \<open>as u64\<close>.\<close>

abbreviation as_u128 :: "u64 \<Rightarrow> u128" where
  "as_u128 \<equiv> ucast"

abbreviation as_u64 :: "u128 \<Rightarrow> u64" where
  "as_u64 \<equiv> ucast"

text \<open>Widening \<open>as u128\<close> keeps the value; narrowing \<open>as u64\<close> keeps it when it fits.\<close>

lemma unat_ucast_64_128 [simp]: "unat (ucast (a :: u64) :: u128) = unat a"
  using unat_bound [of a] by (simp add: unsigned_ucast_eq take_bit_nat_eq_self)

lemma unat_ucast_128_64:
  "unat (a :: u128) < 2 ^ 64 \<Longrightarrow> unat (ucast a :: u64) = unat a"
  by (simp add: unsigned_ucast_eq take_bit_nat_eq_self)

section \<open>Results\<close>

text \<open>
  A Rust function that returns \<open>Result\<close> returns \<open>Ok\<close>, returns \<open>Err\<close>, or panics. The
  \<open>?\<close> operator is \<open>rbind\<close>.
\<close>

datatype ('e, 'a) result = Ok 'a | Err 'e | Panic

fun rbind :: "('e, 'a) result \<Rightarrow> ('a \<Rightarrow> ('e, 'b) result) \<Rightarrow> ('e, 'b) result" where
  "rbind (Ok a) f = f a"
| "rbind (Err e) f = Err e"
| "rbind Panic f = Panic"

fun ok_or :: "'a option \<Rightarrow> 'e \<Rightarrow> ('e, 'a) result" where
  "ok_or (Some a) e = Ok a"
| "ok_or None e = Err e"

fun map_err :: "('e \<Rightarrow> 'f) \<Rightarrow> ('e, 'a) result \<Rightarrow> ('f, 'a) result" where
  "map_err g (Ok a) = Ok a"
| "map_err g (Err e) = Err (g e)"
| "map_err g Panic = Panic"

fun unwrap_or :: "'a \<Rightarrow> ('e, 'a) result \<Rightarrow> ('e, 'a) result" where
  "unwrap_or d (Ok a) = Ok a"
| "unwrap_or d (Err e) = Ok d"
| "unwrap_or d Panic = Panic"

text \<open>\<open>xs[i]\<close> on a slice: it panics out of range.\<close>

definition index_at :: "'a list \<Rightarrow> nat \<Rightarrow> ('e, 'a) result" where
  "index_at xs i = (if i < length xs then Ok (xs ! i) else Panic)"

lemma rbind_Ok_iff [monad_iffs]: "rbind m f = Ok y \<longleftrightarrow> (\<exists>x. m = Ok x \<and> f x = Ok y)"
  by (cases m) auto

lemma ok_or_Err_iff: "ok_or x e = Err y \<longleftrightarrow> x = None \<and> y = e"
  by (cases x) auto

lemma map_err_Err_iff: "map_err f r = Err x \<longleftrightarrow> (\<exists>y. r = Err y \<and> x = f y)"
  by (cases r) auto

lemma rbind_Err_iff:
  "rbind m f = Err e \<longleftrightarrow> m = Err e \<or> (\<exists>x. m = Ok x \<and> f x = Err e)"
  by (cases m) auto

lemma rbind_assoc [simp]: "rbind (rbind m f) g = rbind m (\<lambda>x. rbind (f x) g)"
  by (cases m) auto

lemma if_Err_Ok_iff [monad_iffs]:
  "(if b then Err e else m) = Ok x \<longleftrightarrow> \<not> b \<and> m = Ok x"
  "(if b then m else Err e) = Ok x \<longleftrightarrow> b \<and> m = Ok x"
  by auto

lemma ok_or_Ok_iff [monad_iffs]: "ok_or m e = Ok a \<longleftrightarrow> m = Some a"
  by (cases m) auto

lemma map_err_Ok_iff [monad_iffs]: "map_err g m = Ok a \<longleftrightarrow> m = Ok a"
  by (cases m) auto

lemma index_at_Ok_iff [monad_iffs]: "index_at xs i = Ok a \<longleftrightarrow> i < length xs \<and> a = xs ! i"
  by (auto simp: index_at_def)

lemma index_at_in [simp]: "i < length xs \<Longrightarrow> index_at xs i = Ok (xs ! i)"
  by (simp add: index_at_def)

section \<open>Computations over a state\<close>

text \<open>
  Code that reads and writes thread-local state: it takes the state and gives back a result
  and the state it leaves behind, on every path.
\<close>

type_synonym ('s, 'e, 'a) exec = "'s \<Rightarrow> ('e, 'a) result \<times> 's"

definition xret :: "'a \<Rightarrow> ('s, 'e, 'a) exec" where
  "xret a = (\<lambda>s. (Ok a, s))"

definition xlift :: "('e, 'a) result \<Rightarrow> ('s, 'e, 'a) exec" where
  "xlift r = (\<lambda>s. (r, s))"

definition xbind :: "('s, 'e, 'a) exec \<Rightarrow> ('a \<Rightarrow> ('s, 'e, 'b) exec) \<Rightarrow> ('s, 'e, 'b) exec" where
  "xbind m f = (\<lambda>s. case m s of
       (Ok a, t) \<Rightarrow> f a t
     | (Err e, t) \<Rightarrow> (Err e, t)
     | (Panic, t) \<Rightarrow> (Panic, t))"

definition xmap_err :: "('e \<Rightarrow> 'f) \<Rightarrow> ('s, 'e, 'a) exec \<Rightarrow> ('s, 'f, 'a) exec" where
  "xmap_err g m = (\<lambda>s. case m s of (r, t) \<Rightarrow> (map_err g r, t))"

lemma xmap_err_Ok_iff [monad_iffs]: "xmap_err g m s = (Ok a, t) \<longleftrightarrow> m s = (Ok a, t)"
  by (auto simp: xmap_err_def map_err_Ok_iff split: prod.splits)

lemma xret_sel [simp]: "fst (xret a s) = Ok a" "snd (xret a s) = s"
  by (simp_all add: xret_def)

lemma xlift_sel [simp]: "fst (xlift r s) = r" "snd (xlift r s) = s"
  by (simp_all add: xlift_def)

lemma xret_eq_iff [simp]: "xret a s = (r, t) \<longleftrightarrow> Ok a = r \<and> t = s"
  by (auto simp: xret_def)

lemma xlift_eq_iff [simp]: "xlift q s = (r, t) \<longleftrightarrow> q = r \<and> t = s"
  by (auto simp: xlift_def)

lemma xbind_Ok [simp]: "m s = (Ok a, t) \<Longrightarrow> xbind m f s = f a t"
  by (simp add: xbind_def)

lemma xbind_Err [simp]: "m s = (Err e, t) \<Longrightarrow> xbind m f s = (Err e, t)"
  by (simp add: xbind_def)

lemma xbind_Panic [simp]: "m s = (Panic, t) \<Longrightarrow> xbind m f s = (Panic, t)"
  by (simp add: xbind_def)

lemma xbind_Ok_iff [monad_iffs]:
  "xbind m f s = (Ok b, u) \<longleftrightarrow> (\<exists>a t. m s = (Ok a, t) \<and> f a t = (Ok b, u))"
  by (auto simp: xbind_def split: prod.splits result.splits)

lemma xbind_xret [simp]: "xbind (xret a) f = f a"
  by (simp add: xbind_def xret_def)

lemma xbind_xlift_Ok [simp]: "xbind (xlift (Ok a)) f = f a"
  by (simp add: xbind_def xlift_def)

section \<open>Lists\<close>

lemma nth_update_cases:
  "j < length xs \<Longrightarrow> xs[i := v] ! j = (if i = j then v else xs ! j)"
  by (simp add: nth_list_update)

lemma length_gt_2E:
  assumes "2 < length xs"
  obtains a b c ys where "xs = a # b # c # ys"
  using assms by (cases xs; cases "tl xs"; cases "tl (tl xs)") auto

lemma map_update_same: "f v = f (xs ! i) \<Longrightarrow> map f (xs[i := v]) = map f xs"
  by (metis list_update_id map_update)

end
