(* ===== verification/Pubkeys.thy ===== *)
theory Pubkeys
  imports Prelude
begin

text \<open>
  Identifiers and byte strings: \<open>src/himsha-runtime/src/pubkey.rs\<close> and the well-known program
  ids of \<open>src/himsha-runtime/src/lib.rs\<close>. SHA-256 comes from a third-party crate: it is the
  parameter \<open>sha\<close> of the definitions that hash, and what a property needs of it is
  injectivity on the inputs that are hashed.

  The second part holds the interface of the third-party Borsh codecs: a pair of an encoder
  that may fail (a length above \<open>u32::MAX\<close>) and a decoder that may reject its input, with
  the documented round trip as the predicate \<open>codec_ok\<close>.
\<close>

section \<open>Byte strings of words\<close>

type_synonym Pubkey = bytes32
type_synonym sha256 = "bytes \<Rightarrow> bytes32"

definition be_bytes :: "bytes32 \<Rightarrow> bytes" where
  "be_bytes w = map (\<lambda>i. ucast (drop_bit (8 * (31 - i)) w)) [0..<32]"

definition to_le_bytes :: "u64 \<Rightarrow> bytes" where
  "to_le_bytes w = map (\<lambda>i. ucast (drop_bit (8 * i) w)) [0..<8]"

definition ascii :: "string \<Rightarrow> bytes" where
  "ascii s = map (\<lambda>c. word_of_nat (of_char c)) s"

lemma length_be_bytes [simp]: "length (be_bytes w) = 32"
  by (simp add: be_bytes_def)

lemma length_to_le_bytes [simp]: "length (to_le_bytes w) = 8"
  by (simp add: to_le_bytes_def)

lemma be_bytes_bit:
  assumes "k < 256"
  shows "bit w k = bit (be_bytes w ! (31 - k div 8)) (k mod 8)"
proof -
  have "k div 8 < 32"
    using assms by (simp add: less_mult_imp_div_less)
  then have "8 * (31 - (31 - k div 8)) + k mod 8 = k"
    by simp
  moreover have "be_bytes w ! (31 - k div 8) = ucast (drop_bit (8 * (31 - (31 - k div 8))) w)"
  proof -
    have "[0..<32] ! (31 - k div 8) = 31 - k div 8"
      using nth_upt [of 0 "31 - k div 8" 32] by simp
    then show ?thesis
      by (simp add: be_bytes_def del: diff_diff_cancel upt_rec_numeral)
  qed
  ultimately show ?thesis
    by (simp add: bit_ucast_iff bit_drop_bit_eq del: diff_diff_cancel)
qed

lemma be_bytes_inj [simp]: "be_bytes v = be_bytes w \<longleftrightarrow> v = w"
proof
  assume "be_bytes v = be_bytes w"
  then have "bit v k = bit w k" if "k < 256" for k
    using be_bytes_bit [OF that, of v] be_bytes_bit [OF that, of w] by simp
  then show "v = w"
    by (intro bit_word_eqI) simp
qed simp

lemma to_le_bytes_bit:
  "k < 64 \<Longrightarrow> bit w k = bit (to_le_bytes w ! (k div 8)) (k mod 8)"
  by (simp add: to_le_bytes_def bit_ucast_iff bit_drop_bit_eq less_mult_imp_div_less)

lemma to_le_bytes_inj [simp]: "to_le_bytes v = to_le_bytes w \<longleftrightarrow> v = w"
proof
  assume "to_le_bytes v = to_le_bytes w"
  then have "bit v k = bit w k" if "k < 64" for k
    using to_le_bytes_bit [OF that, of v] to_le_bytes_bit [OF that, of w] by simp
  then show "v = w"
    by (intro bit_word_eqI) simp
qed simp

text \<open>A digest at the end of an input, or a block of digests, can be read back from it.\<close>

lemma be_bytes_append_eq [simp]:
  "be_bytes v @ xs = be_bytes w @ ys \<longleftrightarrow> v = w \<and> xs = ys"
  by (simp add: append_eq_append_conv)

lemma append_be_bytes_eq [simp]:
  "xs @ be_bytes v = ys @ be_bytes w \<longleftrightarrow> xs = ys \<and> v = w"
  by (simp add: append_eq_append_conv)

lemma concat_be_bytes_inj:
  "concat (map be_bytes vs) = concat (map be_bytes ws) \<longleftrightarrow> vs = ws"
proof (induction vs arbitrary: ws)
  case Nil
  then show ?case
    by (cases ws) (auto dest: arg_cong [where f = length])
next
  case (Cons v vs)
  then show ?case
    by (cases ws) (auto dest: arg_cong [where f = length])
qed

section \<open>Keys\<close>

definition PDA_BUMP :: u8 where
  "PDA_BUMP = 255"

definition default_pubkey :: Pubkey where
  "default_pubkey = 0"

definition from_seed :: "sha256 \<Rightarrow> bytes \<Rightarrow> Pubkey" where
  "from_seed sha seed = sha seed"

definition find_program_address :: "sha256 \<Rightarrow> bytes list \<Rightarrow> Pubkey \<Rightarrow> Pubkey \<times> u8" where
  "find_program_address sha seeds program_id =
     (sha (concat seeds @ [PDA_BUMP] @ be_bytes program_id @ ascii ''himsha::pda''), PDA_BUMP)"

definition system_program :: "sha256 \<Rightarrow> Pubkey" where
  "system_program sha = from_seed sha (ascii ''himsha::system_program'')"

definition token_program :: "sha256 \<Rightarrow> Pubkey" where
  "token_program sha = from_seed sha (ascii ''himsha::token_program'')"

definition ata_program :: "sha256 \<Rightarrow> Pubkey" where
  "ata_program sha = from_seed sha (ascii ''himsha::ata_program'')"

definition swap_program :: "sha256 \<Rightarrow> Pubkey" where
  "swap_program sha = from_seed sha (ascii ''himsha::swap_program'')"

definition lending_program :: "sha256 \<Rightarrow> Pubkey" where
  "lending_program sha = from_seed sha (ascii ''himsha::lending_program'')"

definition nft_metadata_program :: "sha256 \<Rightarrow> Pubkey" where
  "nft_metadata_program sha = from_seed sha (ascii ''himsha::nft_metadata_program'')"

definition runes_program :: "sha256 \<Rightarrow> Pubkey" where
  "runes_program sha = from_seed sha (ascii ''himsha::runes_program'')"

definition money_market_program :: "sha256 \<Rightarrow> Pubkey" where
  "money_market_program sha = from_seed sha (ascii ''himsha::money_market_program'')"

definition vault_program :: "sha256 \<Rightarrow> Pubkey" where
  "vault_program sha = from_seed sha (ascii ''himsha::vault_program'')"

definition oracle_program :: "sha256 \<Rightarrow> Pubkey" where
  "oracle_program sha = from_seed sha (ascii ''himsha::oracle_program'')"

definition builtins :: "sha256 \<Rightarrow> Pubkey list" where
  "builtins sha =
     [system_program sha, token_program sha, ata_program sha, swap_program sha,
      lending_program sha, nft_metadata_program sha, runes_program sha,
      money_market_program sha, vault_program sha, oracle_program sha]"

lemmas program_id_defs =
  system_program_def token_program_def ata_program_def swap_program_def lending_program_def
  nft_metadata_program_def runes_program_def money_market_program_def vault_program_def
  oracle_program_def

definition builtin_seeds :: "bytes list" where
  "builtin_seeds = map ascii
     [''himsha::system_program'', ''himsha::token_program'', ''himsha::ata_program'',
      ''himsha::swap_program'', ''himsha::lending_program'', ''himsha::nft_metadata_program'',
      ''himsha::runes_program'', ''himsha::money_market_program'', ''himsha::vault_program'',
      ''himsha::oracle_program'']"

lemma builtins_seeds: "builtins sha = map sha builtin_seeds"
  by (simp add: builtins_def builtin_seeds_def program_id_defs from_seed_def)

lemma ascii_inj [simp]: "ascii s = ascii t \<longleftrightarrow> s = t"
proof -
  have "inj (\<lambda>c :: char. word_of_nat (of_char c) :: u8)"
  proof (rule injI)
    fix c d :: char
    assume "(word_of_nat (of_char c) :: u8) = word_of_nat (of_char d)"
    then have "take_bit 8 (of_char c :: nat) = take_bit 8 (of_char d)"
      by (simp add: word_of_nat_eq_iff)
    then show "c = d"
      by (simp add: take_bit_nat_eq_self)
  qed
  then show ?thesis
    by (simp add: ascii_def inj_map_eq_map)
qed

lemma distinct_builtin_seeds: "distinct builtin_seeds"
  by (simp add: builtin_seeds_def)

lemma distinct_builtins: "inj_on sha (set builtin_seeds) \<Longrightarrow> distinct (builtins sha)"
  by (simp add: builtins_seeds distinct_map distinct_builtin_seeds)

lemma find_program_address_inj:
  assumes "find_program_address sha ss p = find_program_address sha ts q"
    and "inj_on sha {concat ss @ [PDA_BUMP] @ be_bytes p @ ascii ''himsha::pda'',
                     concat ts @ [PDA_BUMP] @ be_bytes q @ ascii ''himsha::pda''}"
  shows "concat ss = concat ts \<and> p = q"
proof -
  have "concat ss @ ([PDA_BUMP] @ be_bytes p @ ascii ''himsha::pda'') =
        concat ts @ ([PDA_BUMP] @ be_bytes q @ ascii ''himsha::pda'')"
    using assms by (intro inj_onD [OF assms(2)]) (simp_all only: find_program_address_def
        prod.inject insertI1 insertI2 singletonI)
  moreover have "length ([PDA_BUMP] @ be_bytes p @ ascii ''himsha::pda'') =
                 length ([PDA_BUMP] @ be_bytes q @ ascii ''himsha::pda'')"
    by (simp only: length_append length_be_bytes)
  ultimately show ?thesis
    by (metis append_eq_append_conv be_bytes_inj length_be_bytes)
qed

section \<open>Codecs\<close>

record 'a codec =
  encode :: "'a \<Rightarrow> bytes option"
  decode :: "bytes \<Rightarrow> 'a option"

definition codec_ok :: "'a codec \<Rightarrow> bool" where
  "codec_ok c \<longleftrightarrow> (\<forall>x b. encode c x = Some b \<longrightarrow> decode c b = Some x)"

definition codec_total :: "'a codec \<Rightarrow> bool" where
  "codec_total c \<longleftrightarrow> (\<forall>x. encode c x \<noteq> None)"

lemma codec_okD: "codec_ok c \<Longrightarrow> encode c x = Some b \<Longrightarrow> decode c b = Some x"
  by (simp add: codec_ok_def)

lemma codec_ok_inj: "codec_ok c \<Longrightarrow> encode c x = Some b \<Longrightarrow> encode c y = Some b \<Longrightarrow> x = y"
  by (metis codec_okD option.inject)

text \<open>
  A concrete codec with the round trip, for a finite table of values: a value is its position
  in the table. It shows the laws can hold and runs the programs on concrete inputs.
\<close>

fun table_index :: "'a list \<Rightarrow> 'a \<Rightarrow> nat option" where
  "table_index [] x = None"
| "table_index (y # ys) x = (if x = y then Some 0 else map_option Suc (table_index ys x))"

definition table_codec :: "'a list \<Rightarrow> 'a codec" where
  "table_codec xs =
     \<lparr> encode = (\<lambda>x. case table_index xs x of
           Some i \<Rightarrow> if i < 256 then Some [word_of_nat i] else None
         | None \<Rightarrow> None),
       decode = (\<lambda>b. case b of
           [w] \<Rightarrow> if unat w < length xs then Some (xs ! unat w) else None
         | _ \<Rightarrow> None) \<rparr>"

lemma table_index_Some: "table_index xs x = Some i \<Longrightarrow> i < length xs \<and> xs ! i = x"
  by (induction xs arbitrary: i) (auto split: if_splits)

lemma unat_of_nat_8: "i < 256 \<Longrightarrow> unat (word_of_nat i :: u8) = i"
  by (simp add: unsigned_of_nat take_bit_nat_eq_self)

lemma codec_ok_table_codec [simp]: "codec_ok (table_codec xs)"
  by (auto simp: codec_ok_def table_codec_def unat_of_nat_8 dest: table_index_Some
      split: option.splits if_splits)

end
