(* ===== verification/Merkle.thy ===== *)
theory Merkle
  imports Pubkeys
begin

text \<open>
  The Merkle tree over account state, \<open>src/himsha-runtime/src/merkle.rs\<close>: leaf and node
  hashes, the root, inclusion proofs and their verification. The loops of the source that
  climb one level at a time are recursions on the level.
\<close>

section \<open>The tree\<close>

definition EMPTY_ROOT :: bytes32 where
  "EMPTY_ROOT = 0"

definition leaf_hash :: "sha256 \<Rightarrow> bytes32 \<Rightarrow> bytes \<Rightarrow> bytes32" where
  "leaf_hash sha key account_bytes = sha ([0x00] @ be_bytes key @ account_bytes)"

definition node_hash :: "sha256 \<Rightarrow> bytes32 \<Rightarrow> bytes32 \<Rightarrow> bytes32" where
  "node_hash sha left right = sha ([0x01] @ be_bytes left @ be_bytes right)"

fun parent_level :: "sha256 \<Rightarrow> bytes32 list \<Rightarrow> bytes32 list" where
  "parent_level sha [] = []"
| "parent_level sha [l] = [node_hash sha l l]"
| "parent_level sha (l # r # level) = node_hash sha l r # parent_level sha level"

lemma length_parent_level [simp]: "length (parent_level sha level) = (length level + 1) div 2"
  by (induction sha level rule: parent_level.induct) simp_all

text \<open>\<open>while level.len() > 1\<close> of \<open>merkle_root\<close>.\<close>

function climb :: "sha256 \<Rightarrow> bytes32 list \<Rightarrow> bytes32 list" where
  "climb sha level = (if 1 < length level then climb sha (parent_level sha level) else level)"
  by auto
termination
  by (relation "measure (\<lambda>(sha, level). length level)") auto

declare climb.simps [simp del]

definition merkle_root :: "sha256 \<Rightarrow> bytes32 list \<Rightarrow> bytes32" where
  "merkle_root sha leaves = (if leaves = [] then EMPTY_ROOT else hd (climb sha leaves))"

record MerkleProof =
  p_leaf :: bytes32
  p_index :: u64
  p_siblings :: "bytes32 list"

fun verify_path :: "sha256 \<Rightarrow> bytes32 \<Rightarrow> u64 \<Rightarrow> bytes32 list \<Rightarrow> bytes32" where
  "verify_path sha h idx [] = h"
| "verify_path sha h idx (sib # siblings) =
     verify_path sha (if idx AND 1 = 0 then node_hash sha h sib else node_hash sha sib h)
       (drop_bit 1 idx) siblings"

definition verify :: "sha256 \<Rightarrow> MerkleProof \<Rightarrow> bytes32 \<Rightarrow> bool" where
  "verify sha p root \<longleftrightarrow> verify_path sha (p_leaf p) (p_index p) (p_siblings p) = root"

text \<open>The sibling of position \<open>idx\<close>, and the loop of \<open>build_proof\<close> that collects them.\<close>

definition sibling :: "bytes32 list \<Rightarrow> nat \<Rightarrow> bytes32" where
  "sibling level idx = (if idx XOR 1 < length level then level ! (idx XOR 1) else level ! idx)"

function collect :: "sha256 \<Rightarrow> bytes32 list \<Rightarrow> nat \<Rightarrow> bytes32 list" where
  "collect sha level idx =
     (if 1 < length level
      then sibling level idx # collect sha (parent_level sha level) (drop_bit 1 idx)
      else [])"
  by auto
termination
  by (relation "measure (\<lambda>(sha, level, idx). length level)") auto

declare collect.simps [simp del]

definition build_proof :: "sha256 \<Rightarrow> bytes32 list \<Rightarrow> nat \<Rightarrow> MerkleProof option" where
  "build_proof sha leaves index =
     (if length leaves \<le> index then None
      else Some \<lparr> p_leaf = leaves ! index, p_index = word_of_nat index,
                  p_siblings = collect sha leaves index \<rparr>)"

section \<open>Completeness\<close>

lemma xor_one_nat: "(n :: nat) XOR Suc 0 = (if even n then n + 1 else n - 1)"
  by (simp add: xor_Suc_0_eq)

lemma parent_level_nth:
  assumes "i < length level"
  shows "parent_level sha level ! (i div 2) =
    (if even i then node_hash sha (level ! i) (sibling level i)
     else node_hash sha (sibling level i) (level ! i))"
  using assms
proof (induction sha level arbitrary: i rule: parent_level.induct)
  case (2 sha l)
  then show ?case
    by (simp add: sibling_def xor_one_nat)
next
  case (3 sha l r level)
  show ?case
  proof (cases "i < 2")
    case True
    then have "i = 0 \<or> i = 1" by auto
    then show ?thesis
      by (auto simp: sibling_def xor_one_nat)
  next
    case False
    then obtain j where "i = Suc (Suc j)"
      by (metis Suc_1 Suc_pred add_2_eq_Suc le_add_diff_inverse not_less)
    then show ?thesis
      using "3.IH" [of j] "3.prems" by (cases j) (auto simp: sibling_def xor_one_nat)
  qed
qed simp

lemma drop_bit_one_nat: "drop_bit (Suc 0) n = n div (2 :: nat)"
  by (simp add: drop_bit_eq_div)

lemma word_of_nat_parity:
  assumes "i < 2 ^ 64"
  shows "(word_of_nat i :: u64) AND 1 = 0 \<longleftrightarrow> even i"
    and "drop_bit (Suc 0) (word_of_nat i :: u64) = word_of_nat (i div 2)"
proof -
  have u: "unat (word_of_nat i :: u64) = i"
    using assms by (simp add: unsigned_of_nat take_bit_nat_eq_self)
  show "(word_of_nat i :: u64) AND 1 = 0 \<longleftrightarrow> even i"
    by (simp add: and_one_eq even_of_nat_iff mod_2_eq_odd)
  show "drop_bit (Suc 0) (word_of_nat i :: u64) = word_of_nat (i div 2)"
    using assms u by (intro unat_eqI)
      (simp add: unat_drop_bit_eq unsigned_of_nat take_bit_nat_eq_self drop_bit_one_nat
        del: drop_bit_Suc)
qed

lemma collect_verifies:
  assumes "i < length level" "i < 2 ^ 64"
  shows "verify_path sha (level ! i) (word_of_nat i) (collect sha level i) = hd (climb sha level)"
  using assms
proof (induction sha level arbitrary: i rule: climb.induct)
  case (1 sha level)
  show ?case
  proof (cases "1 < length level")
    case True
    have lt: "i div 2 < length (parent_level sha level)"
      using "1.prems" by simp
    have "verify_path sha (parent_level sha level ! (i div 2)) (word_of_nat (i div 2))
            (collect sha (parent_level sha level) (i div 2)) = hd (climb sha (parent_level sha level))"
      using "1.IH" [OF True lt] "1.prems" by simp
    moreover have "climb sha level = climb sha (parent_level sha level)"
      "collect sha level i = sibling level i # collect sha (parent_level sha level) (i div 2)"
      using True climb.simps [of sha level] collect.simps [of sha level i]
      by (simp_all add: drop_bit_one_nat)
    ultimately show ?thesis
      using "1.prems" by (simp add: word_of_nat_parity parent_level_nth split: if_splits)
  next
    case False
    then show ?thesis
      using "1.prems" climb.simps [of sha level] collect.simps [of sha level i]
      by (cases level) auto
  qed
qed

section \<open>Soundness\<close>

text \<open>
  The byte strings hashed to build the levels above \<open>level\<close>, and those hashed to verify a
  path. Soundness is stated for a hash function with no collision among these inputs.
\<close>

fun level_inputs :: "bytes32 list \<Rightarrow> bytes set" where
  "level_inputs [] = {}"
| "level_inputs [l] = {[0x01] @ be_bytes l @ be_bytes l}"
| "level_inputs (l # r # level) = insert ([0x01] @ be_bytes l @ be_bytes r) (level_inputs level)"

function tree_inputs :: "sha256 \<Rightarrow> bytes32 list \<Rightarrow> bytes set" where
  "tree_inputs sha level = (if 1 < length level
     then level_inputs level \<union> tree_inputs sha (parent_level sha level) else {})"
  by auto
termination
  by (relation "measure (\<lambda>(sha, level). length level)") auto

declare tree_inputs.simps [simp del]

fun path_inputs :: "sha256 \<Rightarrow> bytes32 \<Rightarrow> u64 \<Rightarrow> bytes32 list \<Rightarrow> bytes set" where
  "path_inputs sha h idx [] = {}"
| "path_inputs sha h idx (sib # siblings) =
     insert ([0x01] @ (if idx AND 1 = 0 then be_bytes h @ be_bytes sib else be_bytes sib @ be_bytes h))
       (path_inputs sha (if idx AND 1 = 0 then node_hash sha h sib else node_hash sha sib h)
          (drop_bit 1 idx) siblings)"

definition leaf_inputs :: "(bytes32 \<times> bytes) list \<Rightarrow> bytes set" where
  "leaf_inputs entries = (\<lambda>(k, b). [0x00] @ be_bytes k @ b) ` set entries"

definition leaves_of :: "sha256 \<Rightarrow> (bytes32 \<times> bytes) list \<Rightarrow> bytes32 list" where
  "leaves_of sha entries = map (\<lambda>(k, b). leaf_hash sha k b) entries"

lemma parent_level_mem:
  "x \<in> set (parent_level sha level) \<Longrightarrow>
   \<exists>l \<in> set level. \<exists>r \<in> set level. x = node_hash sha l r
      \<and> [0x01] @ be_bytes l @ be_bytes r \<in> level_inputs level"
  by (induction sha level rule: parent_level.induct) auto

text \<open>The last hash of a path that is a tree level's root: some hash of it is in the level.\<close>

fun path_hashes :: "sha256 \<Rightarrow> bytes32 \<Rightarrow> u64 \<Rightarrow> bytes32 list \<Rightarrow> bytes32 list" where
  "path_hashes sha h idx [] = [h]"
| "path_hashes sha h idx (sib # siblings) =
     h # path_hashes sha (if idx AND 1 = 0 then node_hash sha h sib else node_hash sha sib h)
       (drop_bit 1 idx) siblings"

lemma path_hashes_ne [simp]: "path_hashes sha h idx sibs \<noteq> []"
  by (cases sibs) auto

lemma path_hashes_hd [simp]: "path_hashes sha h idx sibs ! 0 = h"
  by (cases sibs) auto

lemma path_hashes_last: "last (path_hashes sha h idx sibs) = verify_path sha h idx sibs"
  by (induction sha h idx sibs rule: path_hashes.induct) simp_all

lemma path_hashes_step:
  assumes "Suc k < length (path_hashes sha h idx sibs)"
  shows "\<exists>s. (path_hashes sha h idx sibs ! Suc k = node_hash sha (path_hashes sha h idx sibs ! k) s
      \<and> [0x01] @ be_bytes (path_hashes sha h idx sibs ! k) @ be_bytes s \<in> path_inputs sha h idx sibs)
    \<or> (path_hashes sha h idx sibs ! Suc k = node_hash sha s (path_hashes sha h idx sibs ! k)
      \<and> [0x01] @ be_bytes s @ be_bytes (path_hashes sha h idx sibs ! k) \<in> path_inputs sha h idx sibs)"
  using assms
proof (induction sha h idx sibs arbitrary: k rule: path_hashes.induct)
  case (2 sha h idx sib sibs)
  show ?case
  proof (cases k)
    case 0
    then show ?thesis
      by (cases "idx AND 1 = 0") auto
  next
    case (Suc k')
    then show ?thesis
      using "2.IH" [of k'] "2.prems" by auto
  qed
qed simp

lemma node_hash_inj_on:
  assumes "inj_on sha S" "[0x01] @ be_bytes a @ be_bytes b \<in> S" "[0x01] @ be_bytes c @ be_bytes d \<in> S"
    and "node_hash sha a b = node_hash sha c d"
  shows "a = c \<and> b = d"
proof -
  have "[0x01] @ be_bytes a @ be_bytes b = [0x01] @ be_bytes c @ be_bytes d"
    by (rule inj_onD [OF assms(1)]) (use assms in \<open>simp_all add: node_hash_def\<close>)
  then show ?thesis
    by simp
qed

lemma leaf_node_distinct:
  assumes "inj_on sha S" "[0x00] @ be_bytes k @ b \<in> S" "[0x01] @ be_bytes l @ be_bytes r \<in> S"
  shows "leaf_hash sha k b \<noteq> node_hash sha l r"
proof
  assume "leaf_hash sha k b = node_hash sha l r"
  then have "[0x00] @ be_bytes k @ b = [0x01] @ be_bytes l @ be_bytes r"
    by (intro inj_onD [OF assms(1)]) (use assms in \<open>simp_all add: leaf_hash_def node_hash_def\<close>)
  then show "False"
    by simp
qed

text \<open>A hash of the path that is an inner node of the tree: the hash before it is one of its children.\<close>

lemma path_step_down:
  fixes sha h idx sibs
  defines "ph \<equiv> path_hashes sha h idx sibs"
  assumes "inj_on sha S" "path_inputs sha h idx sibs \<subseteq> S"
    and "Suc j < length ph" "ph ! Suc j = node_hash sha l r" "[0x01] @ be_bytes l @ be_bytes r \<in> S"
  shows "ph ! j = l \<or> ph ! j = r"
proof -
  obtain s where
    "(ph ! Suc j = node_hash sha (ph ! j) s \<and> [0x01] @ be_bytes (ph ! j) @ be_bytes s \<in> S)
     \<or> (ph ! Suc j = node_hash sha s (ph ! j) \<and> [0x01] @ be_bytes s @ be_bytes (ph ! j) \<in> S)"
    using path_hashes_step [of j sha h idx sibs] assms(3,4) unfolding ph_def by blast
  then show ?thesis
    using assms(5,6) node_hash_inj_on [OF assms(2)] by (elim disjE conjE) fastforce+
qed

lemma path_meets_level:
  fixes sha h idx sibs
  defines "ph \<equiv> path_hashes sha h idx sibs"
  assumes "inj_on sha S" "tree_inputs sha level \<subseteq> S" "path_inputs sha h idx sibs \<subseteq> S"
    and "level \<noteq> []" "verify_path sha h idx sibs = hd (climb sha level)"
  shows "(\<exists>k < length ph. ph ! k \<in> set level)
    \<or> (\<exists>l r. h = node_hash sha l r \<and> [0x01] @ be_bytes l @ be_bytes r \<in> S)"
  using assms(3,5,6)
proof (induction "length level" arbitrary: level rule: less_induct)
  case less
  show ?case
  proof (cases "1 < length level")
    case False
    then have "climb sha level = level" "length level = 1"
      using less.prems(2) climb.simps [of sha level] by (cases level, auto)+
    then have "last ph \<in> set level"
      using less.prems by (simp add: ph_def path_hashes_last)
    then show ?thesis
      unfolding ph_def by (metis diff_less last_conv_nth length_greater_0_conv path_hashes_ne zero_less_one)
  next
    case True
    let ?up = "parent_level sha level"
    have ti: "level_inputs level \<subseteq> S" "tree_inputs sha ?up \<subseteq> S"
      using less.prems(1) True tree_inputs.simps [of sha level] by auto
    have "?up \<noteq> []" "length ?up < length level"
      using True by (auto simp flip: length_greater_0_conv)
    moreover have "verify_path sha h idx sibs = hd (climb sha ?up)"
      using less.prems(3) True climb.simps [of sha level] by simp
    ultimately consider k where "k < length ph" "ph ! k \<in> set ?up"
      | "\<exists>l r. h = node_hash sha l r \<and> [0x01] @ be_bytes l @ be_bytes r \<in> S"
      using less.hyps ti(2) by blast
    then show ?thesis
    proof cases
      case 1
      obtain l r where lr: "l \<in> set level" "r \<in> set level" "ph ! k = node_hash sha l r"
        "[0x01] @ be_bytes l @ be_bytes r \<in> S"
        using parent_level_mem [OF 1(2)] ti(1) by blast
      show ?thesis
      proof (cases k)
        case 0
        then show ?thesis
          using lr by (auto simp: ph_def)
      next
        case (Suc j)
        then have "ph ! j = l \<or> ph ! j = r"
          using path_step_down [OF assms(2,4)] 1(1) lr(3,4) unfolding ph_def by blast
        then show ?thesis
          using Suc 1(1) lr by (metis Suc_lessD)
      qed
    qed simp
  qed
qed

lemma proof_member:
  assumes "inj_on sha S" "tree_inputs sha (leaves_of sha entries) \<subseteq> S"
    and "path_inputs sha (leaf_hash sha k b) idx sibs \<subseteq> S"
    and "insert ([0x00] @ be_bytes k @ b) (leaf_inputs entries) \<subseteq> S"
    and "entries \<noteq> []"
    and "verify_path sha (leaf_hash sha k b) idx sibs = merkle_root sha (leaves_of sha entries)"
  shows "(k, b) \<in> set entries"
proof -
  let ?ph = "path_hashes sha (leaf_hash sha k b) idx sibs"
  have "leaves_of sha entries \<noteq> []"
    using assms(5) by (simp add: leaves_of_def)
  then consider j where "j < length ?ph" "?ph ! j \<in> set (leaves_of sha entries)"
    | l r where "leaf_hash sha k b = node_hash sha l r" "[0x01] @ be_bytes l @ be_bytes r \<in> S"
    using path_meets_level [OF assms(1-3)] assms(6) by (auto simp: merkle_root_def)
  then show ?thesis
  proof cases
    case 1
    obtain k' b' where kb: "(k', b') \<in> set entries" "?ph ! j = leaf_hash sha k' b'"
      using 1(2) by (auto simp: leaves_of_def)
    then have inS: "[0x00] @ be_bytes k' @ b' \<in> S"
      using assms(4) by (auto simp: leaf_inputs_def)
    show ?thesis
    proof (cases j)
      case 0
      then have "[0x00] @ be_bytes k @ b = [0x00] @ be_bytes k' @ b'"
        using kb(2) assms(4) inS
        by (intro inj_onD [OF assms(1)]) (simp_all add: leaf_hash_def)
      then show ?thesis
        using kb(1) by simp
    next
      case (Suc i)
      then obtain l r where "?ph ! j = node_hash sha l r" "[0x01] @ be_bytes l @ be_bytes r \<in> S"
        using path_hashes_step [of i sha _ idx sibs] 1(1) assms(3) by blast
      then show ?thesis
        using leaf_node_distinct [OF assms(1) inS] kb(2) by metis
    qed
  next
    case 2
    then show ?thesis
      using leaf_node_distinct [OF assms(1)] assms(4) by blast
  qed
qed

text \<open>A proof built from a tree hashes nothing the tree did not hash.\<close>

lemma level_inputs_nth:
  assumes "i < length level"
  shows "[0x01] @ (if even i then be_bytes (level ! i) @ be_bytes (sibling level i)
     else be_bytes (sibling level i) @ be_bytes (level ! i)) \<in> level_inputs level"
  using assms
proof (induction level arbitrary: i rule: level_inputs.induct)
  case (2 l)
  then show ?case
    by (simp add: sibling_def xor_one_nat)
next
  case (3 l r level)
  show ?case
  proof (cases "i < 2")
    case True
    then have "i = 0 \<or> i = 1" by auto
    then show ?thesis
      by (auto simp: sibling_def xor_one_nat)
  next
    case False
    then obtain j where "i = Suc (Suc j)"
      by (metis Suc_1 Suc_pred add_2_eq_Suc le_add_diff_inverse not_less)
    then show ?thesis
      using "3.IH" [of j] "3.prems" by (cases j) (auto simp: sibling_def xor_one_nat)
  qed
qed simp

lemma collect_inputs:
  assumes "i < length level" "i < 2 ^ 64"
  shows "path_inputs sha (level ! i) (word_of_nat i) (collect sha level i) \<subseteq> tree_inputs sha level"
  using assms
proof (induction sha level arbitrary: i rule: climb.induct)
  case (1 sha level)
  show ?case
  proof (cases "1 < length level")
    case True
    have lt: "i div 2 < length (parent_level sha level)"
      using "1.prems" by simp
    have "path_inputs sha (parent_level sha level ! (i div 2)) (word_of_nat (i div 2))
            (collect sha (parent_level sha level) (i div 2)) \<subseteq> tree_inputs sha (parent_level sha level)"
      using "1.IH" [OF True lt] "1.prems" by simp
    moreover have "tree_inputs sha level = level_inputs level \<union> tree_inputs sha (parent_level sha level)"
      "collect sha level i = sibling level i # collect sha (parent_level sha level) (i div 2)"
      using True tree_inputs.simps [of sha level] collect.simps [of sha level i]
      by (simp_all add: drop_bit_one_nat)
    ultimately show ?thesis
      using "1.prems" level_inputs_nth [of i level]
      by (auto simp: word_of_nat_parity parent_level_nth split: if_splits)
  next
    case False
    then show ?thesis
      using collect.simps [of sha level i] by simp
  qed
qed

section \<open>Properties\<close>

text \<open>
  Every index of a leaf list has an inclusion proof, for that leaf and at that index, and
  the proof verifies against the root of the list. A list of the program has at most
  \<open>2 ^ 64\<close> elements, its length being a \<open>usize\<close>.
\<close>

theorem merkle_proof_complete:
  assumes "index < length leaves" "length leaves \<le> 2 ^ 64"
  shows "\<exists>p. build_proof sha leaves index = Some p \<and> p_leaf p = leaves ! index
    \<and> unat (p_index p) = index \<and> verify sha p (merkle_root sha leaves)"
proof -
  have "index < 2 ^ 64" "leaves \<noteq> []"
    using assms by auto
  then show ?thesis
    using assms collect_verifies [of index leaves sha]
    by (auto simp: build_proof_def verify_def merkle_root_def unsigned_of_nat take_bit_nat_eq_self)
qed

definition length_hash :: sha256 where
  "length_hash b = word_of_nat (length b)"

theorem merkle_proof_complete_witness:
  "\<exists>p. build_proof length_hash [5, 6, 7] 2 = Some p \<and> p_leaf p = [5, 6, 7] ! 2
    \<and> unat (p_index p) = 2 \<and> verify length_hash p (merkle_root length_hash [5, 6, 7])"
  by (rule merkle_proof_complete) simp_all

text \<open>
  C1. A proof that verifies against the root of a non-empty account table, for the leaf hash
  of some key and account bytes, is for an entry of the table: no choice of index and
  siblings, of any length, proves membership of anything else. The hash function is assumed
  collision-free only on the inputs that the table and the proof hash.
\<close>

theorem merkle_proof_sound:
  assumes "inj_on sha (tree_inputs sha (leaves_of sha entries) \<union> leaf_inputs ((k, b) # entries)
      \<union> path_inputs sha (p_leaf p) (p_index p) (p_siblings p))"
    and "entries \<noteq> []" "p_leaf p = leaf_hash sha k b"
    and "verify sha p (merkle_root sha (leaves_of sha entries))"
  shows "(k, b) \<in> set entries"
  by (rule proof_member [OF assms(1), where idx = "p_index p" and sibs = "p_siblings p"])
    (use assms(2-4) in \<open>auto simp: leaf_inputs_def verify_def\<close>)

theorem merkle_proof_sound_witness:
  "(2, [7 :: u8]) \<in> set [(1 :: bytes32, [] :: bytes), (2, [7])]"
proof (rule merkle_proof_sound [where sha = length_hash and
      p = "\<lparr>p_leaf = 34, p_index = 1, p_siblings = [33]\<rparr>"])
  show "inj_on length_hash (tree_inputs length_hash (leaves_of length_hash [(1, []), (2, [7])])
      \<union> leaf_inputs ((2, [7]) # [(1, []), (2, [7])])
      \<union> path_inputs length_hash (p_leaf \<lparr>p_leaf = 34, p_index = 1, p_siblings = [33]\<rparr>)
          (p_index \<lparr>p_leaf = 34, p_index = 1, p_siblings = [33]\<rparr>)
          (p_siblings \<lparr>p_leaf = 34, p_index = 1, p_siblings = [33]\<rparr>))"
    by (simp add: tree_inputs.simps [of length_hash] leaves_of_def leaf_inputs_def leaf_hash_def
        length_hash_def inj_on_def)
qed (simp_all add: length_hash_def leaf_hash_def node_hash_def verify_def merkle_root_def
    climb.simps [of length_hash] leaves_of_def)

lemma root_binding:
  assumes "inj_on sha (tree_inputs sha (leaves_of sha es) \<union> tree_inputs sha (leaves_of sha fs)
      \<union> leaf_inputs es \<union> leaf_inputs fs)"
    and "es \<noteq> []" "fs \<noteq> []" "length es \<le> 2 ^ 64" "length fs \<le> 2 ^ 64"
    and "sorted (map fst es)" "distinct (map fst es)" "sorted (map fst fs)" "distinct (map fst fs)"
    and "merkle_root sha (leaves_of sha es) = merkle_root sha (leaves_of sha fs)"
  shows "es = fs"
proof -
  let ?S = "tree_inputs sha (leaves_of sha es) \<union> tree_inputs sha (leaves_of sha fs)
      \<union> leaf_inputs es \<union> leaf_inputs fs"
  have sub: "set gs \<subseteq> set hs"
    if *: "tree_inputs sha (leaves_of sha gs) \<subseteq> ?S" "tree_inputs sha (leaves_of sha hs) \<subseteq> ?S"
      "leaf_inputs gs \<subseteq> ?S" "leaf_inputs hs \<subseteq> ?S" "hs \<noteq> []" "length gs \<le> 2 ^ 64"
      "merkle_root sha (leaves_of sha gs) = merkle_root sha (leaves_of sha hs)" for gs hs
  proof
    fix e assume "e \<in> set gs"
    then obtain i k b where i: "i < length gs" "gs ! i = (k, b)" "e = (k, b)"
      by (metis in_set_conv_nth surj_pair)
    then have l: "i < length (leaves_of sha gs)" "leaves_of sha gs ! i = leaf_hash sha k b" "i < 2 ^ 64"
      using *(6) by (simp_all add: leaves_of_def)
    have "[0x00] @ be_bytes k @ b \<in> leaf_inputs gs"
      using \<open>e \<in> set gs\<close> i(3) by (force simp: leaf_inputs_def)
    moreover have "verify_path sha (leaf_hash sha k b) (word_of_nat i) (collect sha (leaves_of sha gs) i)
        = merkle_root sha (leaves_of sha hs)"
      using collect_verifies [OF l(1,3), of sha] l *(7) i(1)
      by (auto simp: merkle_root_def leaves_of_def split: if_splits)
    ultimately show "e \<in> set hs"
      using proof_member [OF assms(1) *(2), where k = k and b = b and idx = "word_of_nat i"
          and sibs = "collect sha (leaves_of sha gs) i"] collect_inputs [OF l(1,3), of sha] l(2) * i(3)
      by auto
  qed
  have "set es = set fs"
    by (intro equalityI sub) (use assms in auto)
  then show ?thesis
    using assms(6-9) map_sorted_distinct_set_unique [of fst es fs]
    by (simp add: distinct_map)
qed

text \<open>
  The root commits to the whole table: two non-empty account tables in ascending key
  order with the same root are the same table, entry for entry. Duplicating the last node of
  an odd level does not break this.
\<close>

theorem merkle_root_binding:
  assumes "inj_on sha (tree_inputs sha (leaves_of sha es) \<union> tree_inputs sha (leaves_of sha fs)
      \<union> leaf_inputs es \<union> leaf_inputs fs)"
    and "es \<noteq> []" "fs \<noteq> []" "length es \<le> 2 ^ 64" "length fs \<le> 2 ^ 64"
    and "sorted (map fst es)" "distinct (map fst es)" "sorted (map fst fs)" "distinct (map fst fs)"
    and "merkle_root sha (leaves_of sha es) = merkle_root sha (leaves_of sha fs)"
  shows "es = fs"
  using assms by (rule root_binding)

theorem merkle_root_binding_witness:
  "[(1 :: bytes32, [] :: bytes), (2, [7])] = [(1, []), (2, [7])]"
  by (rule merkle_root_binding [where sha = length_hash])
    (simp_all add: tree_inputs.simps [of length_hash] leaves_of_def leaf_inputs_def leaf_hash_def
        length_hash_def inj_on_def)

end
