(* ===== verification/Account.thy ===== *)
theory Account
  imports Pubkeys
begin

text \<open>
  Accounts as programs see them and as the node stores them:
  \<open>src/himsha-runtime/src/account.rs\<close>, with the UTXO anchor of \<open>utxo.rs\<close> and the program
  errors of \<open>error.rs\<close>. Every Rust struct is a record with its fields under a short prefix.
\<close>

section \<open>Errors\<close>

datatype ProgramError =
    Custom u32
  | InvalidInstruction
  | InvalidAccountData
  | AccountDataTooSmall
  | InsufficientFunds
  | WrongProgram
  | AlreadyInitialized
  | NotInitialized
  | NotEnoughAccounts
  | NotWritable
  | MissingSigner
  | Overflow
  | InvalidUtxo
  | Unauthorized
  | CpiDepthExceeded
  | BorshError
  | LoanNotExpired
  | LoanExpired
  | SlippageExceeded
  | PoolEmpty
  | Undercollateralized
  | InsufficientLiquidity
  | StalePrice
  | IllegalOwnerWrite
  | PriceOutOfBounds
  | ComputeExhausted
  | DuplicateWritableAccount

type_synonym 'a presult = "(ProgramError, 'a) result"

section \<open>Data\<close>

datatype AccountState = Uninitialized | Initialized | Frozen

record UtxoMeta =
  u_txid :: bytes32
  u_vout :: u32

record AccountMeta =
  am_pubkey :: Pubkey
  am_is_signer :: bool
  am_is_writable :: bool

record AccountInfo =
  a_key :: Pubkey
  a_lamports :: u64
  a_data :: bytes
  a_owner :: Pubkey
  a_executable :: bool
  a_is_signer :: bool
  a_is_writable :: bool
  a_utxo :: "UtxoMeta option"

type_synonym accounts = "AccountInfo list"

definition new_account :: "Pubkey \<Rightarrow> Pubkey \<Rightarrow> u64 \<Rightarrow> nat \<Rightarrow> AccountInfo" where
  "new_account key owner lamports space =
     \<lparr> a_key = key, a_lamports = lamports, a_data = replicate space 0, a_owner = owner,
       a_executable = False, a_is_signer = False, a_is_writable = True, a_utxo = None \<rparr>"

definition new_program :: "Pubkey \<Rightarrow> bytes \<Rightarrow> AccountInfo" where
  "new_program key bytecode =
     \<lparr> a_key = key, a_lamports = 0, a_data = bytecode, a_owner = default_pubkey,
       a_executable = True, a_is_signer = False, a_is_writable = True, a_utxo = None \<rparr>"

text \<open>The builders: an anchored account, one that signed, one that may not be written.\<close>

definition with_utxo :: "UtxoMeta \<Rightarrow> AccountInfo \<Rightarrow> AccountInfo" where
  "with_utxo utxo a = a\<lparr>a_utxo := Some utxo\<rparr>"

definition as_signer :: "AccountInfo \<Rightarrow> AccountInfo" where
  "as_signer a = a\<lparr>a_is_signer := True\<rparr>"

definition as_readonly :: "AccountInfo \<Rightarrow> AccountInfo" where
  "as_readonly a = a\<lparr>a_is_writable := False\<rparr>"

definition require_signer :: "AccountInfo \<Rightarrow> unit presult" where
  "require_signer a = (if a_is_signer a then Ok () else Err MissingSigner)"

definition read_data :: "'a codec \<Rightarrow> AccountInfo \<Rightarrow> 'a presult" where
  "read_data c a = ok_or (decode c (a_data a)) BorshError"

definition write_data :: "'a codec \<Rightarrow> 'a \<Rightarrow> AccountInfo \<Rightarrow> AccountInfo presult" where
  "write_data c v a =
     (if \<not> a_is_writable a then Err NotWritable
      else rbind (ok_or (encode c v) BorshError) (\<lambda>b. Ok (a\<lparr>a_data := b\<rparr>)))"

lemma builder_guards:
  "require_signer (as_signer a) = Ok ()" "write_data c v (as_readonly a) = Err NotWritable"
  "require_signer (as_readonly (with_utxo u a)) = require_signer a"
  "read_data c (as_readonly (as_signer (with_utxo u a))) = read_data c a"
  by (simp_all add: require_signer_def write_data_def read_data_def as_signer_def as_readonly_def with_utxo_def)

text \<open>The two nested loops of \<open>reject_duplicate_writable\<close>, outer and inner.\<close>

fun duplicate_of :: "AccountInfo \<Rightarrow> accounts \<Rightarrow> bool" where
  "duplicate_of a [] = False"
| "duplicate_of a (b # bs) = (a_is_writable b \<and> a_key b = a_key a \<or> duplicate_of a bs)"

fun reject_duplicate_writable :: "accounts \<Rightarrow> unit presult" where
  "reject_duplicate_writable [] = Ok ()"
| "reject_duplicate_writable (a # as) =
     (if \<not> a_is_writable a then reject_duplicate_writable as
      else if duplicate_of a as then Err DuplicateWritableAccount
      else reject_duplicate_writable as)"

record StoredAccount =
  s_lamports :: u64
  s_data :: bytes
  s_owner :: bytes32
  s_executable :: bool
  s_utxo_txid :: "bytes32 option"
  s_utxo_vout :: "u32 option"

definition stored_from :: "AccountInfo \<Rightarrow> StoredAccount" where
  "stored_from a =
     \<lparr> s_lamports = a_lamports a, s_data = a_data a, s_owner = a_owner a,
       s_executable = a_executable a, s_utxo_txid = map_option u_txid (a_utxo a),
       s_utxo_vout = map_option u_vout (a_utxo a) \<rparr>"

fun zip_option :: "'a option \<Rightarrow> 'b option \<Rightarrow> ('a \<times> 'b) option" where
  "zip_option (Some a) (Some b) = Some (a, b)"
| "zip_option _ _ = None"

definition into_account :: "StoredAccount \<Rightarrow> Pubkey \<Rightarrow> AccountInfo" where
  "into_account s key =
     \<lparr> a_key = key, a_lamports = s_lamports s, a_data = s_data s, a_owner = s_owner s,
       a_executable = s_executable s, a_is_signer = False, a_is_writable = True,
       a_utxo = map_option (\<lambda>(txid, vout). \<lparr> u_txid = txid, u_vout = vout \<rparr>)
                  (zip_option (s_utxo_txid s) (s_utxo_vout s)) \<rparr>"

section \<open>Reading and writing\<close>

lemma require_signer_Ok_iff [monad_iffs]: "require_signer a = Ok u \<longleftrightarrow> a_is_signer a"
  by (simp add: require_signer_def)

lemma read_data_Ok_iff [monad_iffs]: "read_data c a = Ok v \<longleftrightarrow> decode c (a_data a) = Some v"
  by (simp add: read_data_def monad_iffs)

lemma write_data_Ok_iff [monad_iffs]:
  "write_data c v a = Ok a' \<longleftrightarrow>
     a_is_writable a \<and> (\<exists>b. encode c v = Some b \<and> a' = a\<lparr>a_data := b\<rparr>)"
  by (auto simp: write_data_def monad_iffs)

lemma read_write_data:
  assumes "codec_ok c" "write_data c v a = Ok a'"
  shows "read_data c a' = Ok v"
  using assms by (auto simp: monad_iffs dest: codec_okD)

lemma write_data_frame:
  "write_data c v a = Ok a' \<Longrightarrow> a' = a\<lparr>a_data := a_data a'\<rparr>"
  by (auto simp: monad_iffs)

section \<open>Duplicates\<close>

definition writable_keys :: "accounts \<Rightarrow> Pubkey list" where
  "writable_keys as = map a_key (filter a_is_writable as)"

lemma duplicate_of_iff: "duplicate_of a as \<longleftrightarrow> a_key a \<in> set (writable_keys as)"
  by (induction as) (auto simp: writable_keys_def)

lemma reject_duplicate_writable_Ok_iff:
  "reject_duplicate_writable as = Ok u \<longleftrightarrow> distinct (writable_keys as)"
  by (induction as) (simp_all add: duplicate_of_iff, simp_all add: writable_keys_def)

lemma reject_duplicate_writable_total:
  "reject_duplicate_writable as = Ok () \<or>
   reject_duplicate_writable as = Err DuplicateWritableAccount"
  by (induction as) auto

lemma writable_once:
  assumes "reject_duplicate_writable as = Ok u"
    and "i < j" "j < length as" "a_is_writable (as ! i)" "a_is_writable (as ! j)"
  shows "a_key (as ! i) \<noteq> a_key (as ! j)"
  using assms
proof (induction as arbitrary: i j)
  case (Cons a as)
  obtain j' where j: "j = Suc j'"
    using Cons.prems(2) by (cases j) auto
  show ?case
  proof (cases i)
    case 0
    then have "a_key a \<notin> set (writable_keys as)"
      using Cons.prems by (simp add: duplicate_of_iff split: if_splits)
    moreover have "a_key (as ! j') \<in> set (writable_keys as)"
      using Cons.prems j by (auto simp: writable_keys_def)
    ultimately show ?thesis
      using 0 j by auto
  next
    case (Suc i')
    then show ?thesis
      using Cons j by (auto split: if_splits)
  qed
qed simp

section \<open>The stored form\<close>

text \<open>What a program may change of an account it was handed: never its key or its flags.\<close>

definition same_header :: "AccountInfo \<Rightarrow> AccountInfo \<Rightarrow> bool" where
  "same_header a b \<longleftrightarrow> a_key a = a_key b \<and> a_is_signer a = a_is_signer b
     \<and> a_is_writable a = a_is_writable b"

definition same_headers :: "accounts \<Rightarrow> accounts \<Rightarrow> bool" where
  "same_headers as bs \<longleftrightarrow> list_all2 same_header as bs"

lemma same_header_refl [simp]: "same_header a a"
  by (simp add: same_header_def)

lemma same_headers_refl [simp]: "same_headers as as"
  by (simp add: same_headers_def list_all2_refl)

lemma same_headers_trans [trans]:
  "same_headers as bs \<Longrightarrow> same_headers bs cs \<Longrightarrow> same_headers as cs"
  by (auto simp: same_headers_def same_header_def list_all2_conv_all_nth)

lemma same_headers_length: "same_headers as bs \<Longrightarrow> length as = length bs"
  by (simp add: same_headers_def list_all2_lengthD)

lemma same_headers_update [intro]:
  assumes "same_headers as bs" "i < length bs \<Longrightarrow> same_header (bs ! i) b"
  shows "same_headers as (bs[i := b])"
proof (cases "i < length bs")
  case True
  then have "same_header (as ! i) b"
    using assms unfolding same_headers_def list_all2_conv_all_nth same_header_def by metis
  then show ?thesis
    using assms(1) unfolding same_headers_def list_all2_conv_all_nth
    by (metis length_list_update nth_list_update_eq nth_list_update_neq)
qed (use assms in \<open>simp add: not_less list_update_beyond\<close>)

lemma same_headers_keys: "same_headers as bs \<Longrightarrow> map a_key as = map a_key bs"
  by (auto simp: same_headers_def same_header_def list_all2_conv_all_nth intro: nth_equalityI)

lemma write_data_header: "write_data c v a = Ok a' \<Longrightarrow> same_header a a'"
  by (auto simp: monad_iffs same_header_def)

lemma into_account_stored_from:
  "into_account (stored_from a) (a_key a) = a\<lparr>a_is_signer := False, a_is_writable := True\<rparr>"
  by (cases "a_utxo a") (auto simp: into_account_def stored_from_def)

section \<open>Instructions\<close>

text \<open>
  \<open>src/himsha-runtime/src/instruction.rs\<close>. The convenience constructor encodes its
  arguments and panics when the encoder fails.
\<close>

record Instruction =
  i_program_id :: Pubkey
  i_accounts :: "AccountMeta list"
  i_data :: bytes

definition meta_writable :: "Pubkey \<Rightarrow> bool \<Rightarrow> AccountMeta" where
  "meta_writable key signer =
     \<lparr> am_pubkey = key, am_is_signer = signer, am_is_writable = True \<rparr>"

definition meta_readonly :: "Pubkey \<Rightarrow> bool \<Rightarrow> AccountMeta" where
  "meta_readonly key signer =
     \<lparr> am_pubkey = key, am_is_signer = signer, am_is_writable = False \<rparr>"

definition with_args ::
  "'a codec \<Rightarrow> Pubkey \<Rightarrow> AccountMeta list \<Rightarrow> 'a \<Rightarrow> Instruction presult" where
  "with_args c program_id metas args = (case encode c args of
       Some b \<Rightarrow> Ok \<lparr> i_program_id = program_id, i_accounts = metas, i_data = b \<rparr>
     | None \<Rightarrow> Panic)"

lemma with_args_Ok_iff [monad_iffs]:
  "with_args c p ms x = Ok ix \<longleftrightarrow> encode c x = Some (i_data ix)
     \<and> i_program_id ix = p \<and> i_accounts ix = ms"
  by (auto simp: with_args_def split: option.splits)

section \<open>Slots of a window\<close>

text \<open>\<open>accounts[i].read_data()\<close> and \<open>accounts[i].write_data(v)\<close>.\<close>

definition read_at :: "'a codec \<Rightarrow> accounts \<Rightarrow> nat \<Rightarrow> 'a presult" where
  "read_at c accounts i = rbind (index_at accounts i) (read_data c)"

definition write_at :: "'a codec \<Rightarrow> 'a \<Rightarrow> accounts \<Rightarrow> nat \<Rightarrow> accounts presult" where
  "write_at c v accounts i =
     rbind (index_at accounts i) (\<lambda>a. rbind (write_data c v a) (\<lambda>a'. Ok (accounts[i := a'])))"

lemma read_at_Ok_iff [monad_iffs]:
  "read_at c accounts i = Ok v \<longleftrightarrow> i < length accounts \<and> decode c (a_data (accounts ! i)) = Some v"
  by (auto simp: read_at_def monad_iffs)

lemma write_at_Ok_iff [monad_iffs]:
  "write_at c v accounts i = Ok accounts' \<longleftrightarrow> i < length accounts \<and> a_is_writable (accounts ! i)
     \<and> (\<exists>b. encode c v = Some b \<and> accounts' = accounts[i := (accounts ! i)\<lparr>a_data := b\<rparr>])"
  by (auto simp: write_at_def monad_iffs)

lemma header_update [simp]:
  "same_header a (a\<lparr>a_data := b\<rparr>)" "same_header a (a\<lparr>a_lamports := l\<rparr>)"
  "same_header a (a\<lparr>a_owner := p\<rparr>)" "same_header a (a\<lparr>a_utxo := u\<rparr>)"
  by (simp_all add: same_header_def)

lemma write_at_headers [intro]:
  "write_at c v accounts i = Ok accounts' \<Longrightarrow> same_headers accounts accounts'"
  by (auto simp: monad_iffs)

text \<open>A zeroed buffer: a capacity above \<open>isize::MAX\<close> panics.\<close>

definition alloc_zeroed :: "u64 \<Rightarrow> bytes presult" where
  "alloc_zeroed n = (if 2 ^ 63 \<le> unat n then Panic else Ok (replicate (unat n) 0))"

lemma alloc_zeroed_Ok_iff [monad_iffs]:
  "alloc_zeroed n = Ok b \<longleftrightarrow> unat n < 2 ^ 63 \<and> b = replicate (unat n) 0"
  by (auto simp: alloc_zeroed_def)

section \<open>Handlers that keep headers\<close>

text \<open>Rules to walk through a handler: every way out fails or leaves keys and flags alone.\<close>

definition header_safe :: "accounts \<Rightarrow> accounts presult \<Rightarrow> bool" where
  "header_safe accounts r \<longleftrightarrow> (\<forall>accounts'. r = Ok accounts' \<longrightarrow> same_headers accounts accounts')"

named_theorems header_intros \<open>handlers that keep keys and flags\<close>

lemma header_safeD: "header_safe accounts (Ok accounts') \<Longrightarrow> same_headers accounts accounts'"
  by (simp add: header_safe_def)

lemma header_safe_Ok [header_intros]: "same_headers accounts as \<Longrightarrow> header_safe accounts (Ok as)"
  by (simp add: header_safe_def)

lemma header_safe_fail [header_intros]: "header_safe accounts (Err e)" "header_safe accounts Panic"
  by (simp_all add: header_safe_def)

lemma header_safe_write_at [header_intros]:
  "same_headers accounts as \<Longrightarrow> header_safe accounts (write_at c v as i)"
  by (auto simp: header_safe_def intro: same_headers_trans)

lemma header_safe_rbind [header_intros]:
  "(\<And>x. m = Ok x \<Longrightarrow> header_safe accounts (f x)) \<Longrightarrow> header_safe accounts (rbind m f)"
  by (cases m) (auto simp: header_safe_def)

lemma header_safe_if [header_intros]:
  "(b \<Longrightarrow> header_safe accounts m) \<Longrightarrow> (\<not> b \<Longrightarrow> header_safe accounts n) \<Longrightarrow>
   header_safe accounts (if b then m else n)"
  by simp

lemma header_safe_option [header_intros]:
  "(\<And>x. m = Some x \<Longrightarrow> header_safe accounts (f x)) \<Longrightarrow> (m = None \<Longrightarrow> header_safe accounts n) \<Longrightarrow>
   header_safe accounts (case m of Some x \<Rightarrow> f x | None \<Rightarrow> n)"
  by (cases m) auto

lemma header_safe_Let [header_intros]:
  "(\<And>x. header_safe accounts (f x)) \<Longrightarrow> header_safe accounts (Let v f)"
  by simp

lemma write_at_rbind_headers [header_intros]:
  assumes "same_headers accounts as" "\<And>as'. same_headers accounts as' \<Longrightarrow> header_safe accounts (f as')"
  shows "header_safe accounts (rbind (write_at c v as i) f)"
  using assms by (intro header_safe_rbind) (blast intro: same_headers_trans)

section \<open>Balances of a window\<close>

definition total_lamports :: "accounts \<Rightarrow> nat" where
  "total_lamports accounts = (\<Sum>a \<leftarrow> accounts. unat (a_lamports a))"

lemma total_lamports_update:
  assumes "i < length accounts"
  shows "total_lamports (accounts[i := a]) + unat (a_lamports (accounts ! i)) =
    total_lamports accounts + unat (a_lamports a)"
  using assms
proof (induction accounts arbitrary: i)
  case (Cons b accounts)
  then show ?case
    by (cases i) (auto simp: total_lamports_def)
qed simp

lemma total_lamports_same [simp]:
  assumes "i < length accounts" "a_lamports a = a_lamports (accounts ! i)"
  shows "total_lamports (accounts[i := a]) = total_lamports accounts"
  using total_lamports_update [OF assms(1), of a] assms(2) by simp

end
