(* ===== verification/Owner.thy ===== *)
theory Owner
  imports Account
begin

text \<open>
  The per-thread execution context and the gate on writes: \<open>src/himsha-runtime/src/compute.rs\<close>
  (the compute meter) and \<open>owner.rs\<close> (which program may change which account). The three
  thread-local cells of the runtime (the approval trail, the units spent and the nesting
  depth of cross-program calls) are the record \<open>ctx\<close>, threaded by \<open>exec\<close>.
\<close>

section \<open>Execution context\<close>

record ctx =
  approved :: "Pubkey \<Rightarrow> AccountInfo option"
  spent :: u64
  depth :: u32

type_synonym 'a pexec = "(ctx, ProgramError, 'a) exec"

definition COMPUTE_BUDGET :: u64 where
  "COMPUTE_BUDGET = 1000000"

definition CPI_BASE_COST :: u64 where
  "CPI_BASE_COST = 1000"

definition PER_ACCOUNT_COST :: u64 where
  "PER_ACCOUNT_COST = 100"

definition reset :: "ctx \<Rightarrow> ctx" where
  "reset c = c\<lparr>spent := 0\<rparr>"

definition charge :: "u64 \<Rightarrow> unit pexec" where
  "charge units = (\<lambda>c.
     let next = saturating_add (spent c) units in
     if COMPUTE_BUDGET < next then (Err ComputeExhausted, c)
     else (Ok (), c\<lparr>spent := next\<rparr>))"

section \<open>Owner-gated writes\<close>

definition begin_execution :: "ctx \<Rightarrow> ctx" where
  "begin_execution c = reset (c\<lparr>approved := Map.empty\<rparr>)"

definition same_state :: "AccountInfo \<Rightarrow> AccountInfo \<Rightarrow> bool" where
  "same_state a b \<longleftrightarrow> a_lamports a = a_lamports b \<and> a_data a = a_data b
     \<and> a_owner a = a_owner b \<and> a_executable a = a_executable b \<and> a_utxo a = a_utxo b"

definition is_blank :: "AccountInfo \<Rightarrow> bool" where
  "is_blank a \<longleftrightarrow> a_lamports a = 0 \<and> a_data a = [] \<and> \<not> a_executable a \<and> a_utxo a = None"

definition credit_only :: "AccountInfo \<Rightarrow> AccountInfo \<Rightarrow> bool" where
  "credit_only pre post \<longleftrightarrow> a_lamports pre \<le> a_lamports post \<and> a_data post = a_data pre
     \<and> a_owner post = a_owner pre \<and> a_executable post = a_executable pre
     \<and> a_utxo post = a_utxo pre"

definition record_approved :: "AccountInfo \<Rightarrow> ctx \<Rightarrow> ctx" where
  "record_approved post c = c\<lparr>approved := (approved c)(a_key post \<mapsto> post)\<rparr>"

definition validate_write :: "Pubkey \<Rightarrow> AccountInfo \<Rightarrow> AccountInfo \<Rightarrow> AccountInfo pexec" where
  "validate_write program_id pre post = (\<lambda>c.
     if same_state pre post then (Ok post, c)
     else if a_owner pre = program_id then (Ok post, record_approved post c)
     else if credit_only pre post then (Ok post, record_approved post c)
     else if is_blank pre then
       (let post' = (if a_owner post = a_owner pre then post\<lparr>a_owner := program_id\<rparr> else post)
        in (Ok post', record_approved post' c))
     else if (case approved c (a_key post) of Some a \<Rightarrow> same_state a post | None \<Rightarrow> False)
       then (Ok post, c)
     else (Err IllegalOwnerWrite, c))"

text \<open>
  The loop that both \<open>validate_writes\<close> and the boundary of a cross-program call run over
  paired snapshots; the second list cannot be shorter, it is a slice of fixed length.
\<close>

fun validate_each :: "Pubkey \<Rightarrow> accounts \<Rightarrow> accounts \<Rightarrow> accounts pexec" where
  "validate_each program_id (pre # pres) (post # posts) =
     xbind (validate_write program_id pre post) (\<lambda>post'.
     xbind (validate_each program_id pres posts) (\<lambda>posts'. xret (post' # posts')))"
| "validate_each program_id [] posts = xret posts"
| "validate_each program_id (pre # pres) [] = xlift Panic"

definition validate_writes :: "Pubkey \<Rightarrow> accounts \<Rightarrow> accounts \<Rightarrow> accounts pexec" where
  "validate_writes program_id before after =
     (if length before \<noteq> length after then xlift (Err IllegalOwnerWrite)
      else validate_each program_id before after)"

section \<open>Metering\<close>

text \<open>
  What every computation of the runtime keeps of the context: the nesting depth is back where
  it was (unless the counter was about to wrap), and the meter only moves forward and never
  past the budget.
\<close>

definition meter :: "ctx \<Rightarrow> ctx \<Rightarrow> bool" where
  "meter c c' \<longleftrightarrow> (depth c \<noteq> - 1 \<longrightarrow> depth c' = depth c) \<and> spent c \<le> spent c'
     \<and> (spent c \<le> COMPUTE_BUDGET \<longrightarrow> spent c' \<le> COMPUTE_BUDGET)"

definition keeps :: "'a pexec \<Rightarrow> ('a \<Rightarrow> bool) \<Rightarrow> bool" where
  "keeps m P \<longleftrightarrow> (\<forall>c. meter c (snd (m c)) \<and> (\<forall>a. fst (m c) = Ok a \<longrightarrow> P a))"

lemma meter_refl [simp]: "meter c c"
  by (simp add: meter_def)

lemma meter_trans: "meter c d \<Longrightarrow> meter d e \<Longrightarrow> meter c e"
  by (auto simp: meter_def)

lemma keepsD:
  assumes "keeps m P" "m c = (r, c')"
  shows "meter c c'" "r = Ok a \<Longrightarrow> P a"
  using assms by (auto simp: keeps_def dest: spec [of _ c])

lemma keeps_xbind:
  assumes "keeps m Q" "\<And>a. Q a \<Longrightarrow> keeps (f a) P"
  shows "keeps (xbind m f) P"
proof -
  have "meter c (snd (xbind m f c)) \<and> (\<forall>b. fst (xbind m f c) = Ok b \<longrightarrow> P b)" for c
  proof (cases "m c")
    case (Pair r d)
    have "meter c d" and Q: "\<And>a. r = Ok a \<Longrightarrow> Q a"
      using keepsD [OF assms(1) Pair] by auto
    then show ?thesis
    proof (cases r)
      case (Ok a)
      then have "keeps (f a) P"
        using Q assms(2) by simp
      then show ?thesis
        using Pair Ok \<open>meter c d\<close> meter_trans by (fastforce simp: keeps_def)
    qed (use Pair \<open>meter c d\<close> in simp_all)
  qed
  then show ?thesis
    by (simp add: keeps_def)
qed

lemma keeps_weaken: "keeps m Q \<Longrightarrow> (\<And>a. Q a \<Longrightarrow> P a) \<Longrightarrow> keeps m P"
  by (auto simp: keeps_def)

lemma keeps_xmap_err: "keeps m P \<Longrightarrow> keeps (xmap_err g m) P"
  unfolding keeps_def xmap_err_def by (auto simp: map_err_Ok_iff split: prod.splits)
    (metis fst_conv snd_conv)+

lemma keeps_if [intro]:
  "(b \<Longrightarrow> keeps m P) \<Longrightarrow> (\<not> b \<Longrightarrow> keeps n P) \<Longrightarrow> keeps (if b then m else n) P"
  by simp

lemma keeps_xbind_xlift [simp]:
  "keeps (xbind (xlift r) f) P \<longleftrightarrow> (\<forall>a. r = Ok a \<longrightarrow> keeps (f a) P)"
  by (cases r) (simp_all add: xbind_def xlift_def keeps_def)

lemma keeps_xlift_iff: "keeps (xlift r) P \<longleftrightarrow> (\<forall>a. r = Ok a \<longrightarrow> P a)"
  by (simp add: keeps_def)

lemma keeps_xlift_fail [simp]: "keeps (xlift (Err e)) P" "keeps (xlift Panic) P"
  by (simp_all add: keeps_def)

lemma keeps_xret_iff [simp]: "keeps (xret a) P \<longleftrightarrow> P a"
  by (simp add: keeps_def)

lemma le_saturating_add: "a \<le> saturating_add a b"
proof (cases "checked_add a b")
  case (Some c)
  then show ?thesis
    by (simp add: saturating_add_def word_le_nat_alt checked_add_Some_iff [THEN iffD1])
qed (simp add: saturating_add_def word_order.extremum)

lemma keeps_charge: "keeps (charge u) (\<lambda>_. True)"
  by (simp add: keeps_def charge_def meter_def Let_def le_saturating_add not_less)

lemma keeps_validate_write: "keeps (validate_write p pre post) (same_header post)"
  by (auto simp: keeps_def validate_write_def record_approved_def meter_def Let_def same_header_def)

lemma keeps_validate_each:
  "keeps (validate_each p pres posts) (same_headers posts)"
proof (induction p pres posts rule: validate_each.induct)
  case (1 p pre pres post posts)
  show ?case
    unfolding validate_each.simps
    by (rule keeps_xbind [OF keeps_validate_write], rule keeps_xbind [OF "1.IH"])
      (simp add: same_headers_def)
qed simp_all

lemma keeps_validate_writes: "keeps (validate_writes p before after) (same_headers after)"
  by (simp add: validate_writes_def keeps_validate_each)

section \<open>What the gate lets through\<close>

text \<open>
  The rule of \<open>owner.rs\<close> on the final state of an account: nothing changed, the program owns
  the account, lamports were credited, or a blank account was claimed for a new owner.
\<close>

definition legal_write :: "Pubkey \<Rightarrow> AccountInfo \<Rightarrow> AccountInfo \<Rightarrow> bool" where
  "legal_write p pre post \<longleftrightarrow> same_state pre post \<or> a_owner pre = p \<or> credit_only pre post
     \<or> (is_blank pre \<and> a_owner post \<noteq> a_owner pre)"

lemma same_state_refl [simp]: "same_state a a"
  by (simp add: same_state_def)

lemma same_state_sym: "same_state a b \<Longrightarrow> same_state b a"
  by (simp add: same_state_def)

lemma same_state_trans: "same_state a b \<Longrightarrow> same_state b c \<Longrightarrow> same_state a c"
  by (simp add: same_state_def)

lemma validate_write_cases:
  assumes "validate_write p pre post c = (Ok post', c')"
  obtains (same) "c' = c" "post' = post" "same_state pre post"
    | (recorded) "c' = record_approved post' c" "legal_write p pre post'" "a_key post' = a_key post"
    | (inner) a where "c' = c" "post' = post" "approved c (a_key post) = Some a" "same_state a post"
  using assms
  by (auto simp: validate_write_def legal_write_def Let_def split: if_splits option.splits)

lemma validate_write_accepts:
  "legal_write p pre post \<Longrightarrow> \<exists>c'. validate_write p pre post c = (Ok post, c')"
  by (auto simp: validate_write_def legal_write_def Let_def)

text \<open>
  Each account of the result was written legally itself, or is a second copy of an account
  that was, or is in a state the trail held before.
\<close>

definition vouched :: "Pubkey \<Rightarrow> accounts \<Rightarrow> accounts \<Rightarrow> ctx \<Rightarrow> AccountInfo \<Rightarrow> bool" where
  "vouched p pres posts c a \<longleftrightarrow>
     (\<exists>j < length pres. a_key (posts ! j) = a_key a \<and> same_state (posts ! j) a
        \<and> legal_write p (pres ! j) (posts ! j))
     \<or> (\<exists>b. approved c (a_key a) = Some b \<and> same_state b a)"

lemma vouched_Cons:
  "vouched p pres posts c a \<Longrightarrow> vouched p (pre # pres) (post # posts) c a"
  unfolding vouched_def by (metis Suc_less_eq length_Cons nth_Cons_Suc)

lemma vouched_head:
  assumes "legal_write p pre post" "a_key post = a_key a" "same_state post a"
  shows "vouched p (pre # pres) (post # posts) c a"
  unfolding vouched_def using assms by (intro disjI1 exI [of _ 0]) simp

lemma vouched_record:
  assumes "vouched p pres posts (record_approved post c) a" "legal_write p pre post"
  shows "vouched p (pre # pres) (post # posts) c a"
proof (cases "a_key post = a_key a \<and> same_state post a")
  case True
  then show ?thesis
    using assms(2) by (simp add: vouched_head)
next
  case False
  then have "vouched p pres posts c a"
    using assms(1) by (auto simp: vouched_def record_approved_def split: if_splits)
  then show ?thesis
    by (rule vouched_Cons)
qed

lemma validate_each_vouched:
  assumes "validate_each p pres posts c = (Ok posts', c')" "length pres = length posts"
  shows "length posts' = length posts \<and>
    (\<forall>i < length pres. legal_write p (pres ! i) (posts' ! i) \<or> vouched p pres posts' c (posts' ! i))"
  using assms
proof (induction p pres posts arbitrary: c posts' rule: validate_each.induct)
  case (1 p pre pres post posts)
  obtain post' d posts'' where w: "validate_write p pre post c = (Ok post', d)"
    and e: "validate_each p pres posts d = (Ok posts'', c')" and r: "posts' = post' # posts''"
    using "1.prems"(1) by (auto simp: monad_iffs)
  have IH: "length posts'' = length posts"
    "\<And>i. i < length pres \<Longrightarrow>
       legal_write p (pres ! i) (posts'' ! i) \<or> vouched p pres posts'' d (posts'' ! i)"
    using "1.IH" [OF e] "1.prems"(2) by auto
  have head: "legal_write p pre post' \<or> vouched p (pre # pres) posts' c post'"
    using w by (cases rule: validate_write_cases) (auto simp: legal_write_def vouched_def)
  have up: "vouched p (pre # pres) posts' c a" if "vouched p pres posts'' d a" for a
    using w that r
    by (cases rule: validate_write_cases) (auto intro: vouched_Cons vouched_record)
  have "legal_write p ((pre # pres) ! i) (posts' ! i) \<or> vouched p (pre # pres) posts' c (posts' ! i)"
    if "i < length (pre # pres)" for i
    using that head IH(2) up r by (cases i) auto
  then show ?case
    using IH(1) r by simp
qed simp_all

lemma validate_writes_vouched:
  assumes "validate_writes p before after c = (Ok after', c')" "i < length before"
  shows "legal_write p (before ! i) (after' ! i) \<or> vouched p before after' c (after' ! i)"
  using assms validate_each_vouched [of p before after c after' c']
  by (auto simp: validate_writes_def split: if_splits)

lemma validate_writes_length:
  "validate_writes p before after c = (Ok after', c') \<Longrightarrow> length after' = length before"
  using validate_each_vouched [of p before after c after' c']
  by (auto simp: validate_writes_def split: if_splits)

lemma legal_write_protects:
  assumes "legal_write p pre post" "a_owner pre \<noteq> p" "\<not> is_blank pre"
  shows "a_lamports pre \<le> a_lamports post" "a_data post = a_data pre"
    "a_owner post = a_owner pre" "a_executable post = a_executable pre"
    "a_utxo post = a_utxo pre"
  using assms by (auto simp: legal_write_def same_state_def credit_only_def)

end
