(* ===== verification/Cpi.thy ===== *)
theory Cpi
  imports Owner
begin

text \<open>
  Cross-program invocation, \<open>src/himsha-runtime/src/cpi.rs\<close>. A program is a function of its
  account window and its instruction data that runs over the execution context and gives back
  the window it leaves. It returns no window on an error: every caller of the source drops it
  then.

  The locale \<open>himsha_program\<close> is the contract a callee promises; its lemmas say what an
  invocation keeps. Each built-in program of the development is an interpretation of it.
\<close>

type_synonym process = "accounts \<Rightarrow> bytes \<Rightarrow> accounts pexec"

definition MAX_CPI_DEPTH :: u32 where
  "MAX_CPI_DEPTH = 4"

definition enter :: "unit pexec" where
  "enter = (\<lambda>c. let next = depth c + 1 in
     if MAX_CPI_DEPTH < next then (Err CpiDepthExceeded, c) else (Ok (), c\<lparr>depth := next\<rparr>))"

definition drop_guard :: "ctx \<Rightarrow> ctx" where
  "drop_guard c = c\<lparr>depth := saturating_sub (depth c) 1\<rparr>"

text \<open>\<open>let _depth_guard = CpiDepthGuard::enter()?\<close>: the guard is dropped on every way out.\<close>

definition with_depth_guard :: "'a pexec \<Rightarrow> 'a pexec" where
  "with_depth_guard body = xbind enter (\<lambda>_ c. let (r, d) = body c in (r, drop_guard d))"

fun mark_signers :: "nat list \<Rightarrow> accounts \<Rightarrow> accounts" where
  "mark_signers [] window = window"
| "mark_signers (w # ws) window =
     mark_signers ws (if w < length window then window[w := (window ! w)\<lparr>a_is_signer := True\<rparr>]
                      else window)"

fun write_back :: "accounts \<Rightarrow> nat list \<Rightarrow> accounts \<Rightarrow> accounts" where
  "write_back (slot # window) (i # indices) accounts =
     write_back window indices
       (accounts[i := slot\<lparr>a_is_signer := a_is_signer (accounts ! i)\<rparr>])"
| "write_back _ _ accounts = accounts"

definition invoke_signed_indexed ::
  "accounts \<Rightarrow> nat list \<Rightarrow> nat list \<Rightarrow> bytes \<Rightarrow> Pubkey \<Rightarrow> process \<Rightarrow> accounts pexec" where
  "invoke_signed_indexed accounts indices signer_window_indices data callee_program_id process =
     (if \<exists>i \<in> set indices. length accounts \<le> i then xlift (Err NotEnoughAccounts)
      else with_depth_guard (
        xbind (charge (CPI_BASE_COST + PER_ACCOUNT_COST * word_of_nat (length indices))) (\<lambda>_.
        let window = map (\<lambda>i. accounts ! i) indices in
        xbind (xlift (reject_duplicate_writable window)) (\<lambda>_.
        xbind (process (mark_signers signer_window_indices window) data) (\<lambda>window.
        xbind (validate_each callee_program_id (map (\<lambda>i. accounts ! i) indices) window) (\<lambda>window.
        xret (write_back window indices accounts)))))))"

definition invoke_indexed ::
  "accounts \<Rightarrow> nat list \<Rightarrow> bytes \<Rightarrow> Pubkey \<Rightarrow> process \<Rightarrow> accounts pexec" where
  "invoke_indexed accounts indices data callee_program_id process =
     (if \<exists>i \<in> set indices. length accounts \<le> i then xlift (Err NotEnoughAccounts)
      else invoke_signed_indexed accounts indices [] data callee_program_id process)"

section \<open>Windows\<close>

lemma length_mark_signers [simp]: "length (mark_signers ws as) = length as"
  by (induction ws as rule: mark_signers.induct) simp_all

lemma mark_signers_flag: "mark_signers ws as ! i = as ! i \<or>
   mark_signers ws as ! i = (as ! i)\<lparr>a_is_signer := True\<rparr>"
proof (induction ws as rule: mark_signers.induct)
  case (2 w ws as)
  then show ?case
    by (cases "i < length as") (auto simp: nth_list_update split: if_splits)
qed simp

lemma length_write_back [simp]: "length (write_back ws is as) = length as"
  by (induction ws "is" as rule: write_back.induct) simp_all

lemma write_back_other: "j \<notin> set is \<Longrightarrow> write_back ws is as ! j = as ! j"
  by (induction ws "is" as rule: write_back.induct) auto

lemma write_back_signer:
  "j < length as \<Longrightarrow> a_is_signer (write_back ws is as ! j) = a_is_signer (as ! j)"
  by (induction ws "is" as rule: write_back.induct) (auto simp: nth_update_cases)

text \<open>The callee may have set the signer flag of a slot; key and writability must be kept.\<close>

definition same_slot :: "AccountInfo \<Rightarrow> AccountInfo \<Rightarrow> bool" where
  "same_slot a b \<longleftrightarrow> a_key a = a_key b \<and> a_is_writable a = a_is_writable b"

lemma write_back_headers:
  assumes "list_all2 (\<lambda>i w. same_slot (as ! i) w) is ws" "\<forall>i \<in> set is. i < length as"
  shows "same_headers as (write_back ws is as)"
  using assms
proof (induction ws "is" as rule: write_back.induct)
  case (1 slot ws i "is" as)
  let ?as = "as[i := slot\<lparr>a_is_signer := a_is_signer (as ! i)\<rparr>]"
  have hd: "same_headers as ?as"
    using "1.prems" by (intro same_headers_update) (simp_all add: same_slot_def same_header_def)
  have "same_slot (?as ! j) w" if "same_slot (as ! j) w" for j w
    using "1.prems" that by (cases "j = i") (auto simp: same_slot_def)
  then have "list_all2 (\<lambda>i w. same_slot (?as ! i) w) is ws"
    using "1.prems" by (auto elim: list_all2_mono)
  then have "same_headers ?as (write_back ws is ?as)"
    using "1.IH" "1.prems" by simp
  with hd show ?case
    by (simp add: same_headers_trans)
qed auto

section \<open>The depth guard\<close>

lemma unat_incr: "a \<noteq> - 1 \<Longrightarrow> unat (a + 1 :: u32) = unat a + 1"
proof -
  assume "a \<noteq> - 1"
  then have "unat a \<noteq> unat (- 1 :: u32)"
    by (metis unat_eqI)
  then have "unat a + unat (1 :: u32) < 2 ^ LENGTH(32)"
    using unat_bound [of a] by (simp add: unsigned_minus_1_eq_mask mask_eq_exp_minus_1)
  then show ?thesis
    by (simp add: unat_add_lem [THEN iffD1])
qed

lemma saturating_sub_incr: "a \<noteq> - 1 \<Longrightarrow> saturating_sub (a + 1) 1 = (a :: u32)"
  by (rule unat_eqI) (simp add: unat_incr)

lemma keeps_with_depth_guard:
  assumes "keeps body P"
  shows "keeps (with_depth_guard body) P"
proof -
  have "meter c d \<and> (\<forall>a. r = Ok a \<longrightarrow> P a)"
    if run: "with_depth_guard body c = (r, d)" for c r d
  proof (cases "MAX_CPI_DEPTH < depth c + 1")
    case True
    then show ?thesis
      using run by (auto simp: with_depth_guard_def enter_def xbind_def)
  next
    case False
    obtain e where e: "body (c\<lparr>depth := depth c + 1\<rparr>) = (r, e)" "d = drop_guard e"
      using run False
      by (auto simp: with_depth_guard_def enter_def xbind_def Let_def split: prod.splits)
    have m: "meter (c\<lparr>depth := depth c + 1\<rparr>) e" "\<And>a. r = Ok a \<Longrightarrow> P a"
      using keepsD [OF assms e(1)] by auto
    have "depth d = depth c" if "depth c \<noteq> - 1"
    proof -
      have "depth c + 1 \<noteq> - 1"
      proof
        assume "depth c + 1 = - 1"
        moreover have "MAX_CPI_DEPTH < - 1"
          by (simp add: MAX_CPI_DEPTH_def)
        ultimately show "False"
          using False by (simp only: not_True_eq_False)
      qed
      then have "depth e = depth c + 1"
        using m(1) by (simp add: meter_def)
      then show ?thesis
        using e(2) saturating_sub_incr [OF that] by (simp add: drop_guard_def)
    qed
    then show ?thesis
      using m e(2) by (auto simp: meter_def drop_guard_def)
  qed
  then show ?thesis
    by (auto simp: keeps_def) (metis prod.collapse)+
qed

section \<open>The contract of a program\<close>

text \<open>
  A program hands back the window it was given, slot for slot, with keys and flags as they
  were, and keeps the meter on every path.
\<close>

locale himsha_program =
  fixes process :: process
  assumes process_keeps: "keeps (process accounts data) (same_headers accounts)"
begin

lemma process_length:
  "process accounts data c = (Ok accounts', c') \<Longrightarrow> length accounts' = length accounts"
  by (metis keepsD(2) [OF process_keeps] same_headers_length)

lemma window_slots:
  assumes "process (mark_signers ws (map (\<lambda>i. accounts ! i) indices)) data c = (Ok window, d)"
    "same_headers window window'"
  shows "list_all2 (\<lambda>i w. same_slot (accounts ! i) w) indices window'"
proof -
  let ?w = "mark_signers ws (map (\<lambda>i. accounts ! i) indices)"
  have h: "same_headers ?w window'"
    using keepsD(2) [OF process_keeps assms(1)] assms(2) same_headers_trans by blast
  have "same_slot (accounts ! (indices ! k)) (window' ! k)" if "k < length indices" for k
    using h that mark_signers_flag [of ws "map (\<lambda>i. accounts ! i) indices" k]
    by (auto simp: same_headers_def list_all2_conv_all_nth same_header_def same_slot_def)
  then show ?thesis
    using same_headers_length [OF h] by (simp add: list_all2_conv_all_nth)
qed

lemma invoke_signed_keeps:
  "keeps (invoke_signed_indexed accounts indices ws data pid process) (same_headers accounts)"
proof (cases "\<exists>i \<in> set indices. length accounts \<le> i")
  case False
  let ?body = "\<lambda>c. xbind (process (mark_signers ws (map (\<lambda>i. accounts ! i) indices)) data) (\<lambda>window.
        xbind (validate_each pid (map (\<lambda>i. accounts ! i) indices) window) (\<lambda>window.
        xret (write_back window indices accounts))) c"
  have "keeps ?body (same_headers accounts)"
  proof (rule keeps_xbind [where Q = "\<lambda>window. \<forall>window'. same_headers window window' \<longrightarrow>
          same_headers accounts (write_back window' indices accounts)"])
    show "keeps (process (mark_signers ws (map ((!) accounts) indices)) data)
      (\<lambda>window. \<forall>window'. same_headers window window' \<longrightarrow>
          same_headers accounts (write_back window' indices accounts))"
      using process_keeps window_slots write_back_headers False
      unfolding keeps_def by (metis not_less prod.collapse)
  qed (rule keeps_xbind [OF keeps_validate_each], simp)
  then have "keeps (with_depth_guard (
        xbind (charge (CPI_BASE_COST + PER_ACCOUNT_COST * word_of_nat (length indices))) (\<lambda>_.
        xbind (xlift (reject_duplicate_writable (map (\<lambda>i. accounts ! i) indices))) (\<lambda>_. ?body))))
        (same_headers accounts)"
    by (intro keeps_with_depth_guard keeps_xbind [OF keeps_charge]) simp
  then show ?thesis
    using False by (simp add: invoke_signed_indexed_def Let_def)
qed (simp add: invoke_signed_indexed_def)

lemma invoke_keeps:
  "keeps (invoke_indexed accounts indices data pid process) (same_headers accounts)"
  using invoke_signed_keeps by (simp add: invoke_indexed_def)

lemma process_depth:
  "depth c \<noteq> - 1 \<Longrightarrow> depth (snd (process accounts data c)) = depth c"
  using process_keeps by (simp add: keeps_def meter_def)

lemma process_budget:
  "spent c \<le> COMPUTE_BUDGET \<Longrightarrow> spent (snd (process accounts data c)) \<le> COMPUTE_BUDGET"
  using process_keeps by (simp add: keeps_def meter_def)

end

section \<open>One invocation\<close>

lemma invoke_signed_Ok_iff:
  "invoke_signed_indexed accounts indices ws data pid process c = (Ok accounts', c') \<longleftrightarrow>
     (\<forall>i \<in> set indices. i < length accounts) \<and> \<not> MAX_CPI_DEPTH < depth c + 1 \<and>
     \<not> COMPUTE_BUDGET < saturating_add (spent c)
         (CPI_BASE_COST + PER_ACCOUNT_COST * word_of_nat (length indices)) \<and>
     reject_duplicate_writable (map ((!) accounts) indices) = Ok () \<and>
     (\<exists>window d window' e.
        process (mark_signers ws (map ((!) accounts) indices)) data
          (c\<lparr>depth := depth c + 1, spent := saturating_add (spent c)
             (CPI_BASE_COST + PER_ACCOUNT_COST * word_of_nat (length indices))\<rparr>) = (Ok window, d) \<and>
        validate_each pid (map ((!) accounts) indices) window d = (Ok window', e) \<and>
        accounts' = write_back window' indices accounts \<and> c' = drop_guard e)"
  by (auto simp: invoke_signed_indexed_def with_depth_guard_def enter_def charge_def Let_def
      monad_iffs not_less split: if_splits prod.splits)

lemma invoke_signed_frame:
  assumes "invoke_signed_indexed accounts indices ws data pid process c = (Ok accounts', c')"
  shows "length accounts' = length accounts"
    and "j \<notin> set indices \<Longrightarrow> accounts' ! j = accounts ! j"
    and "j < length accounts \<Longrightarrow> a_is_signer (accounts' ! j) = a_is_signer (accounts ! j)"
  using assms by (auto simp: invoke_signed_Ok_iff write_back_other write_back_signer)

lemma invoke_signed_too_deep:
  assumes "\<forall>i \<in> set indices. i < length accounts" "MAX_CPI_DEPTH \<le> depth c" "depth c \<noteq> - 1"
  shows "invoke_signed_indexed accounts indices ws data pid process c = (Err CpiDepthExceeded, c)"
proof -
  have "MAX_CPI_DEPTH < depth c + 1"
    using assms(2) unat_incr [OF assms(3)] by (simp add: word_le_nat_alt word_less_nat_alt)
  then show ?thesis
    using assms(1) by (auto simp: invoke_signed_indexed_def with_depth_guard_def enter_def xbind_def
        dest: leD)
qed

text \<open>A program that makes no cross-program call is a function of its window alone.\<close>

definition pure_program :: "(accounts \<Rightarrow> bytes \<Rightarrow> accounts presult) \<Rightarrow> process" where
  "pure_program f = (\<lambda>accounts data. xlift (f accounts data))"

lemma himsha_program_pure:
  assumes "\<And>accounts data accounts'. f accounts data = Ok accounts' \<Longrightarrow> same_headers accounts accounts'"
  shows "himsha_program (pure_program f)"
  using assms by unfold_locales (simp add: pure_program_def keeps_xlift_iff)

end
