(* ===== verification/System_Program.thy ===== *)
theory System_Program
  imports Cpi
begin

text \<open>
  The system program, \<open>src/himsha-programs/system/src/lib.rs\<close>: one definition per arm of
  \<open>process\<close>, and the instruction builders. The Borsh codec of \<open>SystemInstruction\<close> is a
  parameter.
\<close>

section \<open>Instructions\<close>

datatype SystemInstruction =
    Sys_CreateAccount u64 u64 Pubkey
  | Sys_CreateAccountWithAnchor UtxoMeta u64 Pubkey
  | Sys_Transfer u64
  | Sys_Assign Pubkey
  | Sys_Allocate u64

definition system_create_account ::
  "sha256 \<Rightarrow> SystemInstruction codec \<Rightarrow> Pubkey \<Rightarrow> Pubkey \<Rightarrow> u64 \<Rightarrow> u64 \<Rightarrow> Pubkey \<Rightarrow> Instruction presult"
where
  "system_create_account sha c payer newacc lamports space owner =
     with_args c (system_program sha) [meta_writable payer True, meta_writable newacc True]
       (Sys_CreateAccount lamports space owner)"

definition system_create_account_with_anchor ::
  "sha256 \<Rightarrow> SystemInstruction codec \<Rightarrow> Pubkey \<Rightarrow> Pubkey \<Rightarrow> UtxoMeta \<Rightarrow> u64 \<Rightarrow> Pubkey \<Rightarrow> Instruction presult"
where
  "system_create_account_with_anchor sha c payer newacc utxo space owner =
     with_args c (system_program sha) [meta_writable payer True, meta_writable newacc True]
       (Sys_CreateAccountWithAnchor utxo space owner)"

definition system_transfer ::
  "sha256 \<Rightarrow> SystemInstruction codec \<Rightarrow> Pubkey \<Rightarrow> Pubkey \<Rightarrow> u64 \<Rightarrow> Instruction presult" where
  "system_transfer sha c from_key to_key lamports =
     with_args c (system_program sha) [meta_writable from_key True, meta_writable to_key False]
       (Sys_Transfer lamports)"

definition system_assign ::
  "sha256 \<Rightarrow> SystemInstruction codec \<Rightarrow> Pubkey \<Rightarrow> Pubkey \<Rightarrow> Instruction presult" where
  "system_assign sha c account owner =
     with_args c (system_program sha) [meta_writable account True] (Sys_Assign owner)"

definition system_allocate ::
  "sha256 \<Rightarrow> SystemInstruction codec \<Rightarrow> Pubkey \<Rightarrow> u64 \<Rightarrow> Instruction presult" where
  "system_allocate sha c account space =
     with_args c (system_program sha) [meta_writable account True] (Sys_Allocate space)"

section \<open>Processing\<close>

definition ensure_signers :: "accounts \<Rightarrow> nat \<Rightarrow> unit presult" where
  "ensure_signers accounts i =
     (if i < length accounts
      then (if a_is_signer (accounts ! i) then Ok () else Err MissingSigner)
      else Err NotEnoughAccounts)"

definition deduct_lamports :: "AccountInfo \<Rightarrow> u64 \<Rightarrow> AccountInfo presult" where
  "deduct_lamports a amount =
     rbind (ok_or (checked_sub (a_lamports a) amount) InsufficientFunds) (\<lambda>l.
     Ok (a\<lparr>a_lamports := l\<rparr>))"

definition sys_process_create_account :: "accounts \<Rightarrow> u64 \<Rightarrow> u64 \<Rightarrow> Pubkey \<Rightarrow> accounts presult" where
  "sys_process_create_account accounts lamports space owner =
     rbind (ensure_signers accounts 0) (\<lambda>_.
     rbind (index_at accounts 0) (\<lambda>payer.
     rbind (deduct_lamports payer lamports) (\<lambda>payer.
     let accounts = accounts[0 := payer] in
     rbind (index_at accounts 1) (\<lambda>new_acc.
     if a_lamports new_acc \<noteq> 0 \<or> a_data new_acc \<noteq> [] then Err AlreadyInitialized
     else rbind (alloc_zeroed space) (\<lambda>zeros.
     Ok (accounts[1 := new_acc\<lparr>a_lamports := lamports, a_data := zeros, a_owner := owner\<rparr>]))))))"

definition sys_process_create_account_with_anchor ::
  "accounts \<Rightarrow> UtxoMeta \<Rightarrow> u64 \<Rightarrow> Pubkey \<Rightarrow> accounts presult" where
  "sys_process_create_account_with_anchor accounts utxo space owner =
     rbind (ensure_signers accounts 0) (\<lambda>_.
     rbind (index_at accounts 0) (\<lambda>payer.
     rbind (index_at accounts 1) (\<lambda>new_acc.
     if a_lamports new_acc \<noteq> 0 \<or> a_data new_acc \<noteq> [] then Err AlreadyInitialized
     else rbind (alloc_zeroed space) (\<lambda>zeros.
     Ok (accounts[1 := new_acc\<lparr>a_data := zeros, a_owner := owner, a_utxo := Some utxo\<rparr>])))))"

definition sys_process_transfer :: "accounts \<Rightarrow> u64 \<Rightarrow> accounts presult" where
  "sys_process_transfer accounts lamports =
     rbind (ensure_signers accounts 0) (\<lambda>_.
     if length accounts < 2 then Err NotEnoughAccounts
     else rbind (deduct_lamports (accounts ! 0) lamports) (\<lambda>payer.
     let accounts = accounts[0 := payer] in
     rbind (ok_or (checked_add (a_lamports (accounts ! 1)) lamports) Overflow) (\<lambda>l.
     Ok (accounts[1 := (accounts ! 1)\<lparr>a_lamports := l\<rparr>]))))"

definition sys_process_assign :: "accounts \<Rightarrow> Pubkey \<Rightarrow> accounts presult" where
  "sys_process_assign accounts owner =
     rbind (ensure_signers accounts 0) (\<lambda>_.
     rbind (index_at accounts 0) (\<lambda>a. Ok (accounts[0 := a\<lparr>a_owner := owner\<rparr>])))"

definition sys_process_allocate :: "accounts \<Rightarrow> u64 \<Rightarrow> accounts presult" where
  "sys_process_allocate accounts space =
     rbind (ensure_signers accounts 0) (\<lambda>_.
     rbind (index_at accounts 0) (\<lambda>a.
     let current = (word_of_nat (length (a_data a)) :: u64) in
     if current < space then
       rbind (alloc_zeroed space) (\<lambda>zeros.
       Ok (accounts[0 := a\<lparr>a_data := a_data a @ drop (length (a_data a)) zeros\<rparr>]))
     else Ok accounts))"

definition system_process :: "SystemInstruction codec \<Rightarrow> accounts \<Rightarrow> bytes \<Rightarrow> accounts presult" where
  "system_process c accounts instruction_data =
     rbind (ok_or (decode c instruction_data) InvalidInstruction) (\<lambda>ix.
     case ix of
       Sys_CreateAccount lamports space owner \<Rightarrow>
         sys_process_create_account accounts lamports space owner
     | Sys_CreateAccountWithAnchor utxo space owner \<Rightarrow>
         sys_process_create_account_with_anchor accounts utxo space owner
     | Sys_Transfer lamports \<Rightarrow> sys_process_transfer accounts lamports
     | Sys_Assign owner \<Rightarrow> sys_process_assign accounts owner
     | Sys_Allocate space \<Rightarrow> sys_process_allocate accounts space)"

section \<open>Effects\<close>

lemma ensure_signers_Ok_iff [monad_iffs]:
  "ensure_signers accounts i = Ok u \<longleftrightarrow> i < length accounts \<and> a_is_signer (accounts ! i)"
  by (auto simp: ensure_signers_def)

lemma deduct_lamports_Ok_iff [monad_iffs]:
  "deduct_lamports a n = Ok a' \<longleftrightarrow>
     (\<exists>l. unat (a_lamports a) = unat n + unat l \<and> a' = a\<lparr>a_lamports := l\<rparr>)"
  by (auto simp: deduct_lamports_def monad_iffs arith_iffs)

lemmas system_handler_defs =
  sys_process_create_account_def sys_process_create_account_with_anchor_def
  sys_process_transfer_def sys_process_assign_def sys_process_allocate_def

lemma system_process_headers:
  assumes "system_process c accounts data = Ok accounts'"
  shows "same_headers accounts accounts'"
proof -
  obtain ix where "decode c data = Some ix"
    using assms by (auto simp: system_process_def monad_iffs)
  then show ?thesis
    using assms
    by (cases ix) (auto simp: system_process_def system_handler_defs monad_iffs Let_def
        same_header_def intro!: same_headers_update split: if_splits)
qed

interpretation sys: himsha_program "pure_program (system_process c)" for c
  by (rule himsha_program_pure) (rule system_process_headers)

lemma sys_process_transfer_Ok_iff:
  "sys_process_transfer accounts n = Ok accounts' \<longleftrightarrow>
     2 \<le> length accounts \<and> a_is_signer (accounts ! 0) \<and>
     (\<exists>l r. unat (a_lamports (accounts ! 0)) = unat n + unat l \<and>
        unat r = unat (a_lamports (accounts ! 1)) + unat n \<and>
        accounts' = accounts[0 := (accounts ! 0)\<lparr>a_lamports := l\<rparr>,
                             1 := (accounts ! 1)\<lparr>a_lamports := r\<rparr>])"
  by (auto simp: sys_process_transfer_def monad_iffs arith_iffs Let_def)

lemma total_lamports_move:
  assumes "Suc 0 < length accounts"
    and "unat (a_lamports a) + unat (a_lamports b) =
      unat (a_lamports (accounts ! 0)) + unat (a_lamports (accounts ! Suc 0))"
  shows "total_lamports (accounts[0 := a, Suc 0 := b]) = total_lamports accounts"
proof -
  have "total_lamports (accounts[0 := a]) + unat (a_lamports (accounts ! 0)) =
      total_lamports accounts + unat (a_lamports a)"
    using assms(1) by (intro total_lamports_update) linarith
  moreover have "total_lamports (accounts[0 := a, Suc 0 := b])
      + unat (a_lamports (accounts[0 := a] ! Suc 0)) =
      total_lamports (accounts[0 := a]) + unat (a_lamports b)"
    using assms(1) by (intro total_lamports_update) simp
  ultimately show ?thesis
    using assms by simp
qed


definition sample_codec :: "SystemInstruction codec" where
  "sample_codec = table_codec [Sys_Transfer 30, Sys_CreateAccount 30 2 9, Sys_Assign 9, Sys_Allocate 4]"

definition sample_window :: accounts where
  "sample_window = [(new_account 1 0 100 0)\<lparr>a_is_signer := True\<rparr>, new_account 2 0 0 0]"

lemmas sample_run = system_process_def sample_codec_def table_codec_def sample_window_def
  system_handler_defs ensure_signers_def deduct_lamports_def checked_sub_def checked_add_def
  new_account_def Let_def alloc_zeroed_def


text \<open>
  Every instruction of the system program needs the signature of its first account, and
  what it does to any other account is harmless: the account is unchanged, or only gained
  lamports, or it is the second account and held neither lamports nor data.
\<close>

theorem system_needs_signature:
  assumes "system_process c accounts data = Ok accounts'"
  shows "accounts \<noteq> [] \<and> a_is_signer (accounts ! 0) \<and>
    (\<forall>i. 0 < i \<and> i < length accounts \<longrightarrow>
       accounts' ! i = accounts ! i
       \<or> (a_lamports (accounts ! i) \<le> a_lamports (accounts' ! i)
          \<and> accounts' ! i = (accounts ! i)\<lparr>a_lamports := a_lamports (accounts' ! i)\<rparr>)
       \<or> (i = 1 \<and> a_lamports (accounts ! i) = 0 \<and> a_data (accounts ! i) = []))"
proof -
  obtain ix where "decode c data = Some ix"
    using assms by (auto simp: system_process_def monad_iffs)
  then show ?thesis
    using assms
    by (cases ix) (auto simp: system_process_def system_handler_defs monad_iffs arith_iffs Let_def
        nth_list_update word_le_nat_alt split: if_splits)
qed

theorem system_needs_signature_witness:
  "system_process sample_codec sample_window [1] =
     Ok [(new_account 1 0 70 0)\<lparr>a_is_signer := True\<rparr>, new_account 2 9 30 2]
   \<and> a_is_signer (sample_window ! 0)"
proof -
  have run: "system_process sample_codec sample_window [1] =
     Ok [(new_account 1 0 70 0)\<lparr>a_is_signer := True\<rparr>, new_account 2 9 30 2]"
    by (simp add: sample_run)
  show ?thesis
    using system_needs_signature [OF run] run by simp
qed

end
