(* ===== verification/Token_Program.thy ===== *)
theory Token_Program
  imports Cpi
begin

text \<open>
  The token program, \<open>src/himsha-programs/token/src/lib.rs\<close>: mints and token accounts kept
  Borsh-encoded in account data, one definition per arm of \<open>process\<close>, and the instruction
  builders. The codecs are the fields of \<open>token_env\<close>.
\<close>

section \<open>State and instructions\<close>

record MintState =
  m_mint_authority :: "Pubkey option"
  m_supply :: u64
  m_decimals :: u8
  m_is_initialized :: bool
  m_freeze_authority :: "Pubkey option"

record TokenAccountState =
  t_mint :: Pubkey
  t_owner :: Pubkey
  t_amount :: u64
  t_delegate :: "Pubkey option"
  t_state :: AccountState
  t_delegated_amount :: u64
  t_close_authority :: "Pubkey option"

definition default_mint :: MintState where
  "default_mint =
     \<lparr> m_mint_authority = None, m_supply = 0, m_decimals = 0, m_is_initialized = False,
       m_freeze_authority = None \<rparr>"

definition default_token_account :: TokenAccountState where
  "default_token_account =
     \<lparr> t_mint = default_pubkey, t_owner = default_pubkey, t_amount = 0, t_delegate = None,
       t_state = Uninitialized, t_delegated_amount = 0, t_close_authority = None \<rparr>"

datatype TokenInstruction =
    Tok_InitializeMint u8 Pubkey "Pubkey option"
  | Tok_InitializeAccount
  | Tok_MintTo u64
  | Tok_Transfer u64
  | Tok_Burn u64
  | Tok_Approve u64
  | Tok_Revoke
  | Tok_FreezeAccount
  | Tok_ThawAccount
  | Tok_CloseAccount

record token_env =
  tk_instr :: "TokenInstruction codec"
  tk_mint :: "MintState codec"
  tk_account :: "TokenAccountState codec"

definition token_env_ok :: "token_env \<Rightarrow> bool" where
  "token_env_ok e \<longleftrightarrow> codec_ok (tk_instr e) \<and> codec_ok (tk_mint e) \<and> codec_ok (tk_account e)"

section \<open>Instruction builders\<close>

definition initialize_mint ::
  "sha256 \<Rightarrow> token_env \<Rightarrow> Pubkey \<Rightarrow> Pubkey \<Rightarrow> u8 \<Rightarrow> Pubkey option \<Rightarrow> Instruction presult" where
  "initialize_mint sha e mint authority decimals freeze_auth =
     with_args (tk_instr e) (token_program sha) [meta_writable mint False]
       (Tok_InitializeMint decimals authority freeze_auth)"

definition initialize_account ::
  "sha256 \<Rightarrow> token_env \<Rightarrow> Pubkey \<Rightarrow> Pubkey \<Rightarrow> Pubkey \<Rightarrow> Instruction presult" where
  "initialize_account sha e token_account mint owner =
     with_args (tk_instr e) (token_program sha)
       [meta_writable token_account False, meta_readonly mint False, meta_readonly owner False]
       Tok_InitializeAccount"

definition mint_to ::
  "sha256 \<Rightarrow> token_env \<Rightarrow> Pubkey \<Rightarrow> Pubkey \<Rightarrow> Pubkey \<Rightarrow> u64 \<Rightarrow> Instruction presult" where
  "mint_to sha e mint destination authority amount =
     with_args (tk_instr e) (token_program sha)
       [meta_writable mint False, meta_writable destination False, meta_readonly authority True]
       (Tok_MintTo amount)"

definition token_transfer ::
  "sha256 \<Rightarrow> token_env \<Rightarrow> Pubkey \<Rightarrow> Pubkey \<Rightarrow> Pubkey \<Rightarrow> u64 \<Rightarrow> Instruction presult" where
  "token_transfer sha e source destination owner amount =
     with_args (tk_instr e) (token_program sha)
       [meta_writable source False, meta_writable destination False, meta_readonly owner True]
       (Tok_Transfer amount)"

definition token_burn ::
  "sha256 \<Rightarrow> token_env \<Rightarrow> Pubkey \<Rightarrow> Pubkey \<Rightarrow> Pubkey \<Rightarrow> u64 \<Rightarrow> Instruction presult" where
  "token_burn sha e token_account mint owner amount =
     with_args (tk_instr e) (token_program sha)
       [meta_writable token_account False, meta_writable mint False, meta_readonly owner True]
       (Tok_Burn amount)"

section \<open>Processing\<close>

definition process_initialize_mint ::
  "token_env \<Rightarrow> accounts \<Rightarrow> u8 \<Rightarrow> Pubkey \<Rightarrow> Pubkey option \<Rightarrow> accounts presult" where
  "process_initialize_mint e accounts decimals mint_authority freeze_authority =
     rbind (index_at accounts 0) (\<lambda>mint_acc.
     rbind (unwrap_or default_mint (read_data (tk_mint e) mint_acc)) (\<lambda>mint.
     if m_is_initialized mint then Err AlreadyInitialized
     else write_at (tk_mint e)
       (mint\<lparr>m_decimals := decimals, m_mint_authority := Some mint_authority,
             m_freeze_authority := freeze_authority, m_is_initialized := True\<rparr>) accounts 0))"

definition process_initialize_account :: "token_env \<Rightarrow> accounts \<Rightarrow> accounts presult" where
  "process_initialize_account e accounts =
     rbind (index_at accounts 1) (\<lambda>mint_acc.
     let mint_key = a_key mint_acc;
         owner = (if 2 < length accounts then a_key (accounts ! 2) else default_pubkey) in
     rbind (unwrap_or default_mint (read_data (tk_mint e) mint_acc)) (\<lambda>mint.
     if \<not> m_is_initialized mint then Err NotInitialized
     else rbind (index_at accounts 0) (\<lambda>token_acc.
     rbind (unwrap_or default_token_account (read_data (tk_account e) token_acc)) (\<lambda>st.
     if t_state st \<noteq> Uninitialized then Err AlreadyInitialized
     else write_at (tk_account e)
       (st\<lparr>t_mint := mint_key, t_owner := owner, t_state := Initialized\<rparr>) accounts 0))))"

definition process_mint_to :: "token_env \<Rightarrow> accounts \<Rightarrow> u64 \<Rightarrow> accounts presult" where
  "process_mint_to e accounts amount =
     (if length accounts < 3 \<or> \<not> a_is_signer (accounts ! 2) then Err MissingSigner
      else rbind (read_at (tk_mint e) accounts 0) (\<lambda>mint.
      rbind (read_at (tk_account e) accounts 1) (\<lambda>dest.
      if t_mint dest \<noteq> a_key (accounts ! 0) then Err InvalidAccountData
      else if t_state dest = Frozen then Err Unauthorized
      else rbind (ok_or (checked_add (m_supply mint) amount) Overflow) (\<lambda>supply.
      rbind (ok_or (checked_add (t_amount dest) amount) Overflow) (\<lambda>amt.
      rbind (write_at (tk_mint e) (mint\<lparr>m_supply := supply\<rparr>) accounts 0) (\<lambda>accounts.
      write_at (tk_account e) (dest\<lparr>t_amount := amt\<rparr>) accounts 1))))))"

definition process_transfer :: "token_env \<Rightarrow> accounts \<Rightarrow> u64 \<Rightarrow> accounts presult" where
  "process_transfer e accounts amount =
     (if length accounts < 3 \<or> \<not> a_is_signer (accounts ! 2) then Err MissingSigner
      else rbind (read_at (tk_account e) accounts 0) (\<lambda>source.
      rbind (read_at (tk_account e) accounts 1) (\<lambda>dest.
      if t_mint source \<noteq> t_mint dest then Err InvalidAccountData
      else if t_state source = Frozen \<or> t_state dest = Frozen then Err Unauthorized
      else rbind (ok_or (checked_sub (t_amount source) amount) InsufficientFunds) (\<lambda>amt_s.
      rbind (ok_or (checked_add (t_amount dest) amount) Overflow) (\<lambda>amt_d.
      rbind (write_at (tk_account e) (source\<lparr>t_amount := amt_s\<rparr>) accounts 0) (\<lambda>accounts.
      write_at (tk_account e) (dest\<lparr>t_amount := amt_d\<rparr>) accounts 1))))))"

definition process_burn :: "token_env \<Rightarrow> accounts \<Rightarrow> u64 \<Rightarrow> accounts presult" where
  "process_burn e accounts amount =
     (if length accounts < 3 \<or> \<not> a_is_signer (accounts ! 2) then Err MissingSigner
      else rbind (read_at (tk_account e) accounts 0) (\<lambda>token.
      rbind (read_at (tk_mint e) accounts 1) (\<lambda>mint.
      if t_state token = Frozen then Err Unauthorized
      else rbind (ok_or (checked_sub (t_amount token) amount) InsufficientFunds) (\<lambda>amt.
      rbind (ok_or (checked_sub (m_supply mint) amount) InsufficientFunds) (\<lambda>supply.
      rbind (write_at (tk_account e) (token\<lparr>t_amount := amt\<rparr>) accounts 0) (\<lambda>accounts.
      write_at (tk_mint e) (mint\<lparr>m_supply := supply\<rparr>) accounts 1))))))"

definition process_approve :: "token_env \<Rightarrow> accounts \<Rightarrow> u64 \<Rightarrow> accounts presult" where
  "process_approve e accounts amount =
     rbind (read_at (tk_account e) accounts 0) (\<lambda>token.
     rbind (index_at accounts 1) (\<lambda>delegate.
     write_at (tk_account e)
       (token\<lparr>t_delegate := Some (a_key delegate), t_delegated_amount := amount\<rparr>) accounts 0))"

definition process_revoke :: "token_env \<Rightarrow> accounts \<Rightarrow> accounts presult" where
  "process_revoke e accounts =
     rbind (read_at (tk_account e) accounts 0) (\<lambda>token.
     write_at (tk_account e) (token\<lparr>t_delegate := None, t_delegated_amount := 0\<rparr>) accounts 0)"

definition process_freeze_account :: "token_env \<Rightarrow> accounts \<Rightarrow> accounts presult" where
  "process_freeze_account e accounts =
     rbind (read_at (tk_account e) accounts 0) (\<lambda>token.
     write_at (tk_account e) (token\<lparr>t_state := Frozen\<rparr>) accounts 0)"

definition process_thaw_account :: "token_env \<Rightarrow> accounts \<Rightarrow> accounts presult" where
  "process_thaw_account e accounts =
     rbind (read_at (tk_account e) accounts 0) (\<lambda>token.
     if t_state token \<noteq> Frozen then Err InvalidAccountData
     else write_at (tk_account e) (token\<lparr>t_state := Initialized\<rparr>) accounts 0)"

definition process_close_account :: "token_env \<Rightarrow> accounts \<Rightarrow> accounts presult" where
  "process_close_account e accounts =
     rbind (read_at (tk_account e) accounts 0) (\<lambda>token.
     if t_amount token \<noteq> 0 then Err InsufficientFunds
     else rbind (index_at accounts 1) (\<lambda>dest.
     let accounts = accounts[1 := dest\<lparr>a_lamports := a_lamports dest + a_lamports (accounts ! 0)\<rparr>] in
     Ok (accounts[0 := (accounts ! 0)\<lparr>a_lamports := 0, a_data := []\<rparr>])))"

definition token_process :: "token_env \<Rightarrow> accounts \<Rightarrow> bytes \<Rightarrow> accounts presult" where
  "token_process e accounts data =
     rbind (ok_or (decode (tk_instr e) data) InvalidInstruction) (\<lambda>ix.
     case ix of
       Tok_InitializeMint decimals mint_authority freeze_authority \<Rightarrow>
         process_initialize_mint e accounts decimals mint_authority freeze_authority
     | Tok_InitializeAccount \<Rightarrow> process_initialize_account e accounts
     | Tok_MintTo amount \<Rightarrow> process_mint_to e accounts amount
     | Tok_Transfer amount \<Rightarrow> process_transfer e accounts amount
     | Tok_Burn amount \<Rightarrow> process_burn e accounts amount
     | Tok_Approve amount \<Rightarrow> process_approve e accounts amount
     | Tok_Revoke \<Rightarrow> process_revoke e accounts
     | Tok_FreezeAccount \<Rightarrow> process_freeze_account e accounts
     | Tok_ThawAccount \<Rightarrow> process_thaw_account e accounts
     | Tok_CloseAccount \<Rightarrow> process_close_account e accounts)"

lemmas token_handler_defs =
  process_initialize_mint_def process_initialize_account_def process_mint_to_def
  process_transfer_def process_burn_def process_approve_def process_revoke_def
  process_freeze_account_def process_thaw_account_def process_close_account_def

section \<open>The contract\<close>

lemma token_process_decode:
  "token_process e accounts data = Ok accounts' \<Longrightarrow> \<exists>ix. decode (tk_instr e) data = Some ix"
  by (auto simp: token_process_def monad_iffs)

lemma token_process_headers:
  assumes "token_process e accounts data = Ok accounts'"
  shows "same_headers accounts accounts'"
proof -
  obtain ix where "decode (tk_instr e) data = Some ix"
    using token_process_decode [OF assms] by blast
  then show ?thesis
    using assms
    by (cases ix) (auto simp: token_process_def token_handler_defs monad_iffs Let_def
        same_header_def intro!: same_headers_update split: if_splits)
qed

interpretation tok: himsha_program "pure_program (token_process e)" for e
  by (rule himsha_program_pure) (rule token_process_headers)

section \<open>Effects\<close>

text \<open>The data of two slots replaced: what the instructions that move tokens do to a window.\<close>

definition set_data2 :: "accounts \<Rightarrow> bytes \<Rightarrow> bytes \<Rightarrow> accounts" where
  "set_data2 accounts b0 b1 =
     accounts[0 := (accounts ! 0)\<lparr>a_data := b0\<rparr>, Suc 0 := (accounts ! Suc 0)\<lparr>a_data := b1\<rparr>]"

lemma set_data2_simps [simp]:
  assumes "2 < length accounts"
  shows "length (set_data2 accounts b0 b1) = length accounts"
    and "a_data (set_data2 accounts b0 b1 ! 0) = b0"
    and "a_data (set_data2 accounts b0 b1 ! Suc 0) = b1"
    and "Suc 0 < i \<Longrightarrow> set_data2 accounts b0 b1 ! i = accounts ! i"
    and "total_lamports (set_data2 accounts b0 b1) = total_lamports accounts"
  using assms by (elim length_gt_2E; auto simp: set_data2_def total_lamports_def nth_Cons')+

lemma process_transfer_Ok_iff:
  "process_transfer e accounts n = Ok accounts' \<longleftrightarrow>
     2 < length accounts \<and> a_is_signer (accounts ! 2)
     \<and> a_is_writable (accounts ! 0) \<and> a_is_writable (accounts ! Suc 0) \<and>
     (\<exists>s d x y b0 b1. decode (tk_account e) (a_data (accounts ! 0)) = Some s
        \<and> decode (tk_account e) (a_data (accounts ! Suc 0)) = Some d
        \<and> t_mint s = t_mint d \<and> t_state s \<noteq> Frozen \<and> t_state d \<noteq> Frozen
        \<and> checked_sub (t_amount s) n = Some x \<and> checked_add (t_amount d) n = Some y
        \<and> encode (tk_account e) (s\<lparr>t_amount := x\<rparr>) = Some b0
        \<and> encode (tk_account e) (d\<lparr>t_amount := y\<rparr>) = Some b1
        \<and> accounts' = set_data2 accounts b0 b1)"
proof (cases "2 < length accounts")
  case True
  then show ?thesis
    by (auto simp: process_transfer_def monad_iffs set_data2_def)
qed (simp add: process_transfer_def)

lemma process_mint_to_Ok_iff:
  "process_mint_to e accounts n = Ok accounts' \<longleftrightarrow>
     2 < length accounts \<and> a_is_signer (accounts ! 2)
     \<and> a_is_writable (accounts ! 0) \<and> a_is_writable (accounts ! Suc 0) \<and>
     (\<exists>m d x y b0 b1. decode (tk_mint e) (a_data (accounts ! 0)) = Some m
        \<and> decode (tk_account e) (a_data (accounts ! Suc 0)) = Some d
        \<and> t_mint d = a_key (accounts ! 0) \<and> t_state d \<noteq> Frozen
        \<and> checked_add (m_supply m) n = Some x \<and> checked_add (t_amount d) n = Some y
        \<and> encode (tk_mint e) (m\<lparr>m_supply := x\<rparr>) = Some b0
        \<and> encode (tk_account e) (d\<lparr>t_amount := y\<rparr>) = Some b1
        \<and> accounts' = set_data2 accounts b0 b1)"
proof (cases "2 < length accounts")
  case True
  then show ?thesis
    by (auto simp: process_mint_to_def monad_iffs set_data2_def)
qed (simp add: process_mint_to_def)

lemma process_burn_Ok_iff:
  "process_burn e accounts n = Ok accounts' \<longleftrightarrow>
     2 < length accounts \<and> a_is_signer (accounts ! 2)
     \<and> a_is_writable (accounts ! 0) \<and> a_is_writable (accounts ! Suc 0) \<and>
     (\<exists>t m x y b0 b1. decode (tk_account e) (a_data (accounts ! 0)) = Some t
        \<and> decode (tk_mint e) (a_data (accounts ! Suc 0)) = Some m \<and> t_state t \<noteq> Frozen
        \<and> checked_sub (t_amount t) n = Some x \<and> checked_sub (m_supply m) n = Some y
        \<and> encode (tk_account e) (t\<lparr>t_amount := x\<rparr>) = Some b0
        \<and> encode (tk_mint e) (m\<lparr>m_supply := y\<rparr>) = Some b1
        \<and> accounts' = set_data2 accounts b0 b1)"
proof (cases "2 < length accounts")
  case True
  then show ?thesis
    by (auto simp: process_burn_def monad_iffs set_data2_def)
qed (simp add: process_burn_def)

section \<open>Properties\<close>


definition sample_token_account :: "Pubkey \<Rightarrow> Pubkey \<Rightarrow> u64 \<Rightarrow> TokenAccountState" where
  "sample_token_account mint owner amount = default_token_account
     \<lparr>t_mint := mint, t_owner := owner, t_amount := amount, t_state := Initialized\<rparr>"

definition sample_mint :: "u64 \<Rightarrow> MintState" where
  "sample_mint supply = default_mint\<lparr>m_supply := supply, m_is_initialized := True\<rparr>"

definition sample_token_env :: token_env where
  "sample_token_env =
     \<lparr> tk_instr = table_codec [Tok_Transfer 30, Tok_MintTo 30, Tok_Burn 30, Tok_InitializeAccount],
       tk_mint = table_codec [sample_mint 100, sample_mint 130, sample_mint 70],
       tk_account = table_codec [sample_token_account 9 5 40, sample_token_account 9 6 1,
         sample_token_account 9 5 10, sample_token_account 9 6 31, sample_token_account 9 0 0] \<rparr>"

lemma sample_token_env_ok: "token_env_ok sample_token_env"
  by (simp add: token_env_ok_def sample_token_env_def)

definition token_slot :: "Pubkey \<Rightarrow> bytes \<Rightarrow> AccountInfo" where
  "token_slot key data = (new_account key 0 0 0)\<lparr>a_data := data\<rparr>"

definition signer_slot :: "Pubkey \<Rightarrow> AccountInfo" where
  "signer_slot key = (new_account key 0 0 0)\<lparr>a_is_signer := True\<rparr>"

lemmas token_run = token_process_def token_handler_defs sample_token_env_def table_codec_def
  sample_token_account_def sample_mint_def default_token_account_def default_mint_def
  token_slot_def signer_slot_def new_account_def read_at_def write_at_def read_data_def
  write_data_def index_at_def checked_add_def checked_sub_def default_pubkey_def


text \<open>
  A mint instruction that returns raised the supply of the mint and the balance of a token
  account of that very mint by the same amount, with no wrap-around, and the account was not
  frozen.
\<close>

theorem token_mint_raises_supply:
  assumes "token_env_ok e" "decode (tk_instr e) data = Some (Tok_MintTo n)"
    and "token_process e accounts data = Ok accounts'"
  shows "\<exists>m d m' d'.
    read_at (tk_mint e) accounts 0 = Ok m \<and> read_at (tk_account e) accounts 1 = Ok d
    \<and> read_at (tk_mint e) accounts' 0 = Ok m' \<and> read_at (tk_account e) accounts' 1 = Ok d'
    \<and> t_mint d = a_key (accounts ! 0) \<and> t_state d \<noteq> Frozen
    \<and> m' = m\<lparr>m_supply := m_supply m'\<rparr> \<and> d' = d\<lparr>t_amount := t_amount d'\<rparr>
    \<and> unat (m_supply m') = unat (m_supply m) + unat n
    \<and> unat (t_amount d') = unat (t_amount d) + unat n"
proof -
  have "process_mint_to e accounts n = Ok accounts'"
    using assms by (simp add: token_process_def)
  then obtain m d x y b0 b1 where r: "2 < length accounts"
    "decode (tk_mint e) (a_data (accounts ! 0)) = Some m"
    "decode (tk_account e) (a_data (accounts ! Suc 0)) = Some d"
    "t_mint d = a_key (accounts ! 0)" "t_state d \<noteq> Frozen"
    "unat x = unat (m_supply m) + unat n" "unat y = unat (t_amount d) + unat n"
    "encode (tk_mint e) (m\<lparr>m_supply := x\<rparr>) = Some b0"
    "encode (tk_account e) (d\<lparr>t_amount := y\<rparr>) = Some b1"
    "accounts' = set_data2 accounts b0 b1"
    by (auto simp: process_mint_to_Ok_iff arith_iffs)
  have rd: "decode (tk_mint e) b0 = Some (m\<lparr>m_supply := x\<rparr>)"
    "decode (tk_account e) b1 = Some (d\<lparr>t_amount := y\<rparr>)"
    using assms(1) r(8,9) by (auto simp: token_env_ok_def dest: codec_okD)
  show ?thesis
    by (rule exI [of _ m], rule exI [of _ d], rule exI [of _ "m\<lparr>m_supply := x\<rparr>"],
        rule exI [of _ "d\<lparr>t_amount := y\<rparr>"]) (use r rd in \<open>auto simp: monad_iffs\<close>)
qed

theorem token_mint_raises_supply_witness:
  "\<exists>m m'.
    read_at (tk_mint sample_token_env) [token_slot 9 [0], token_slot 2 [1], signer_slot 7] 0 = Ok m
    \<and> read_at (tk_mint sample_token_env) [token_slot 9 [1], token_slot 2 [3], signer_slot 7] 0 = Ok m'
    \<and> unat (m_supply m') = unat (m_supply m) + 30"
proof -
  have run: "token_process sample_token_env [token_slot 9 [0], token_slot 2 [1], signer_slot 7] [1] =
      Ok [token_slot 9 [1], token_slot 2 [3], signer_slot 7]"
    by (simp add: token_run)
  have ix: "decode (tk_instr sample_token_env) [1] = Some (Tok_MintTo 30)"
    by (simp add: token_run)
  show ?thesis
    using token_mint_raises_supply [OF sample_token_env_ok ix run] by auto
qed

text \<open>
  A burn instruction that returns lowered the balance of the token account and the supply
  of the given mint by the same amount, with no wrap-around, and the account was not frozen.
\<close>

theorem token_burn_lowers_supply:
  assumes "token_env_ok e" "decode (tk_instr e) data = Some (Tok_Burn n)"
    and "token_process e accounts data = Ok accounts'"
  shows "\<exists>t m t' m'.
    read_at (tk_account e) accounts 0 = Ok t \<and> read_at (tk_mint e) accounts 1 = Ok m
    \<and> read_at (tk_account e) accounts' 0 = Ok t' \<and> read_at (tk_mint e) accounts' 1 = Ok m'
    \<and> t_state t \<noteq> Frozen
    \<and> t' = t\<lparr>t_amount := t_amount t'\<rparr> \<and> m' = m\<lparr>m_supply := m_supply m'\<rparr>
    \<and> unat (t_amount t') + unat n = unat (t_amount t)
    \<and> unat (m_supply m') + unat n = unat (m_supply m)"
proof -
  have "process_burn e accounts n = Ok accounts'"
    using assms by (simp add: token_process_def)
  then obtain t m x y b0 b1 where r: "2 < length accounts"
    "decode (tk_account e) (a_data (accounts ! 0)) = Some t"
    "decode (tk_mint e) (a_data (accounts ! Suc 0)) = Some m" "t_state t \<noteq> Frozen"
    "unat (t_amount t) = unat n + unat x" "unat (m_supply m) = unat n + unat y"
    "encode (tk_account e) (t\<lparr>t_amount := x\<rparr>) = Some b0"
    "encode (tk_mint e) (m\<lparr>m_supply := y\<rparr>) = Some b1"
    "accounts' = set_data2 accounts b0 b1"
    by (auto simp: process_burn_Ok_iff arith_iffs)
  have rd: "decode (tk_account e) b0 = Some (t\<lparr>t_amount := x\<rparr>)"
    "decode (tk_mint e) b1 = Some (m\<lparr>m_supply := y\<rparr>)"
    using assms(1) r(7,8) by (auto simp: token_env_ok_def dest: codec_okD)
  show ?thesis
    by (rule exI [of _ t], rule exI [of _ m], rule exI [of _ "t\<lparr>t_amount := x\<rparr>"],
        rule exI [of _ "m\<lparr>m_supply := y\<rparr>"]) (use r rd in \<open>auto simp: monad_iffs\<close>)
qed

theorem token_burn_lowers_supply_witness:
  "\<exists>m m'.
    read_at (tk_mint sample_token_env) [token_slot 1 [0], token_slot 9 [0], signer_slot 5] 1 = Ok m
    \<and> read_at (tk_mint sample_token_env) [token_slot 1 [2], token_slot 9 [2], signer_slot 5] 1 = Ok m'
    \<and> unat (m_supply m') + 30 = unat (m_supply m)"
proof -
  have run: "token_process sample_token_env [token_slot 1 [0], token_slot 9 [0], signer_slot 5] [2] =
      Ok [token_slot 1 [2], token_slot 9 [2], signer_slot 5]"
    by (simp add: token_run)
  have ix: "decode (tk_instr sample_token_env) [2] = Some (Tok_Burn 30)"
    by (simp add: token_run)
  show ?thesis
    using token_burn_lowers_supply [OF sample_token_env_ok ix run] by auto
qed

text \<open>
  The signer of a transfer, mint or burn is any account at all: replacing the third
  account of a successful instruction by an arbitrary account that signed leaves the
  instruction successful, with the same effect on the other accounts. The program never
  compares that account with the owner, the delegate or the mint authority.
\<close>

theorem token_authority_is_any_signer:
  assumes "token_process e accounts data = Ok accounts'" "a_is_signer a"
    and "decode (tk_instr e) data \<in> {Some (Tok_Transfer n), Some (Tok_MintTo n), Some (Tok_Burn n)}"
  shows "token_process e (accounts[2 := a]) data = Ok (accounts'[2 := a])"
proof -
  have len: "2 < length accounts"
    using assms by (auto simp: token_process_def process_transfer_Ok_iff process_mint_to_Ok_iff
        process_burn_Ok_iff)
  then have "set_data2 (accounts[2 := a]) b0 b1 = (set_data2 accounts b0 b1)[2 := a]" for b0 b1
    by (elim length_gt_2E) (simp add: set_data2_def)
  then show ?thesis
    using assms len by (auto simp: token_process_def process_transfer_Ok_iff process_mint_to_Ok_iff
        process_burn_Ok_iff)
qed

theorem token_authority_is_any_signer_witness:
  "token_process sample_token_env [token_slot 1 [0], token_slot 2 [1], signer_slot 77] [0] =
      Ok [token_slot 1 [2], token_slot 2 [3], signer_slot 77]"
proof -
  have run: "token_process sample_token_env [token_slot 1 [0], token_slot 2 [1], signer_slot 5] [0] =
      Ok [token_slot 1 [2], token_slot 2 [3], signer_slot 5]"
    by (simp add: token_run)
  show ?thesis
    using token_authority_is_any_signer [OF run, of "signer_slot 77" 30]
    by (simp add: token_run)
qed

text \<open>
  A burn does not compare the mint it is given with the mint of the burnt tokens: with a
  mint account of any other key in its place the burn goes through all the same, and lowers
  the supply of that mint.
\<close>

theorem token_burn_ignores_mint:
  assumes "process_burn e accounts n = Ok accounts'"
  shows "process_burn e (accounts[1 := (accounts ! 1)\<lparr>a_key := k\<rparr>]) n =
    Ok (accounts'[1 := (accounts' ! 1)\<lparr>a_key := k\<rparr>])"
proof -
  have "2 < length accounts"
    using assms by (simp add: process_burn_Ok_iff)
  then show ?thesis
    using assms by (elim length_gt_2E) (auto simp: process_burn_Ok_iff set_data2_def)
qed

theorem token_burn_ignores_mint_witness:
  "process_burn sample_token_env [token_slot 1 [0], token_slot 8 [0], signer_slot 5] 30 =
     Ok [token_slot 1 [2], token_slot 8 [2], signer_slot 5]
   \<and> t_mint (sample_token_account 9 5 40) \<noteq> 8"
proof -
  have run: "process_burn sample_token_env [token_slot 1 [0], token_slot 9 [0], signer_slot 5] 30 =
      Ok [token_slot 1 [2], token_slot 9 [2], signer_slot 5]"
    by (simp add: token_run)
  show ?thesis
    using token_burn_ignores_mint [OF run, of 8]
    by (simp add: token_slot_def new_account_def sample_token_account_def)
qed

section \<open>Calling the token program\<close>

text \<open>
  The pattern by which the other programs call this one: encode the instruction, then
  \<open>cpi::invoke_signed_indexed\<close>; with no signer indices it is \<open>cpi::invoke_indexed\<close>.
\<close>

definition token_cpi ::
  "sha256 \<Rightarrow> token_env \<Rightarrow> accounts \<Rightarrow> nat list \<Rightarrow> nat list \<Rightarrow> TokenInstruction \<Rightarrow> accounts pexec" where
  "token_cpi sha e accounts indices signers ix =
     xbind (xlift (ok_or (encode (tk_instr e) ix) BorshError)) (\<lambda>b.
     if signers = [] then
       invoke_indexed accounts indices b (token_program sha) (pure_program (token_process e))
     else
       invoke_signed_indexed accounts indices signers b (token_program sha)
         (pure_program (token_process e)))"

lemma token_cpi_keeps: "keeps (token_cpi sha e accounts is ws ix) (same_headers accounts)"
  using tok.invoke_keeps tok.invoke_signed_keeps by (simp add: token_cpi_def)

lemma keeps_xbind_token_cpi:
  assumes "same_headers accounts as" "\<And>as'. same_headers accounts as' \<Longrightarrow> keeps (f as') P"
  shows "keeps (xbind (token_cpi sha e as is ws ix) f) P"
  by (rule keeps_xbind [OF token_cpi_keeps]) (use assms same_headers_trans in blast)

lemma keeps_write_at:
  "same_headers accounts as \<Longrightarrow> keeps (xlift (write_at c v as i)) (same_headers accounts)"
  using same_headers_trans by (fastforce simp: keeps_xlift_iff dest: write_at_headers)

lemma token_cpi_Ok:
  assumes "token_env_ok e" "token_cpi sha e accounts is ws ix c = (Ok accounts', c')"
  shows "\<exists>window d window' f. (\<forall>i \<in> set is. i < length accounts)
    \<and> reject_duplicate_writable (map ((!) accounts) is) = Ok ()
    \<and> (\<exists>b. decode (tk_instr e) b = Some ix
          \<and> token_process e (mark_signers ws (map ((!) accounts) is)) b = Ok window)
    \<and> validate_each (token_program sha) (map ((!) accounts) is) window d = (Ok window', f)
    \<and> accounts' = write_back window' is accounts"
  using assms codec_okD [of "tk_instr e" ix]
  by (auto simp: token_cpi_def invoke_indexed_def invoke_signed_Ok_iff monad_iffs token_env_ok_def
      pure_program_def split: if_splits) blast+

text \<open>What the boundary of a call leaves of a slot: everything but the owner is the callee's.\<close>

lemma validate_write_shape:
  assumes "validate_write p pre post c = (Ok post', c')"
  shows "a_data post' = a_data post" "same_state pre post \<Longrightarrow> post' = post"
  using assms by (auto simp: validate_write_def Let_def split: if_splits option.splits)

lemma mark_signers_same:
  "same_state (as ! i) (mark_signers ws as ! i)"
  "(mark_signers ws as ! i)\<lparr>a_is_signer := a_is_signer (as ! i)\<rparr> = as ! i"
  using mark_signers_flag [of ws as i] by (auto simp: same_state_def)

lemma write_back_three:
  assumes "distinct [i, j, k]" "\<forall>l \<in> {i, j, k}. l < length accounts"
    and w: "window = set_data2 (mark_signers ws [accounts ! i, accounts ! j, accounts ! k]) b0 b1"
    and v: "validate_each p [accounts ! i, accounts ! j, accounts ! k] window d = (Ok window', f)"
  shows "a_data (write_back window' [i, j, k] accounts ! i) = b0"
    and "a_data (write_back window' [i, j, k] accounts ! j) = b1"
    and "l \<noteq> i \<Longrightarrow> l \<noteq> j \<Longrightarrow> write_back window' [i, j, k] accounts ! l = accounts ! l"
proof -
  let ?as = "[accounts ! i, accounts ! j, accounts ! k]"
  let ?m = "mark_signers ws ?as"
  have len: "length ?m = 3" by simp
  have "2 < length ?m"
    using len by simp
  then obtain m0 m1 m2 ys where "?m = m0 # m1 # m2 # ys"
    by (rule length_gt_2E)
  then have m: "?m = [m0, m1, m2]"
    using len by simp
  have mk: "same_state (accounts ! k) m2" "m2\<lparr>a_is_signer := a_is_signer (accounts ! k)\<rparr> = accounts ! k"
    using mark_signers_same [of ?as 2 ws] m by simp_all
  obtain x0 x1 x2 e0 e1 where x: "window' = [x0, x1, x2]"
    "validate_write p (accounts ! i) (m0\<lparr>a_data := b0\<rparr>) d = (Ok x0, e0)"
    "validate_write p (accounts ! j) (m1\<lparr>a_data := b1\<rparr>) e0 = (Ok x1, e1)"
    "validate_write p (accounts ! k) m2 e1 = (Ok x2, f)"
    using v w m by (auto simp: monad_iffs set_data2_def)
  have "a_data x0 = b0" "a_data x1 = b1" "x2 = m2"
    using validate_write_shape(1) [OF x(2)] validate_write_shape(1) [OF x(3)]
      validate_write_shape(2) [OF x(4) mk(1)] by simp_all
  then show "a_data (write_back window' [i, j, k] accounts ! i) = b0"
    "a_data (write_back window' [i, j, k] accounts ! j) = b1"
    "l \<noteq> i \<Longrightarrow> l \<noteq> j \<Longrightarrow> write_back window' [i, j, k] accounts ! l = accounts ! l"
    using assms(1,2) x(1) mk(2) by (cases "l = k"; auto)+
qed

lemma token_cpi_transfer:
  assumes "token_env_ok e" "distinct [i, j, k]"
    and "token_cpi sha e accounts [i, j, k] ws (Tok_Transfer n) c = (Ok accounts', c')"
  obtains s d x y where "i < length accounts" "j < length accounts" "length accounts' = length accounts"
    "read_data (tk_account e) (accounts ! i) = Ok s" "read_data (tk_account e) (accounts ! j) = Ok d"
    "read_data (tk_account e) (accounts' ! i) = Ok (s\<lparr>t_amount := x\<rparr>)"
    "read_data (tk_account e) (accounts' ! j) = Ok (d\<lparr>t_amount := y\<rparr>)"
    "unat (t_amount s) = unat n + unat x" "unat y = unat (t_amount d) + unat n"
    "t_mint s = t_mint d" "a_is_writable (accounts ! i)" "a_is_writable (accounts ! j)"
    "\<And>l. l \<noteq> i \<Longrightarrow> l \<noteq> j \<Longrightarrow> accounts' ! l = accounts ! l"
proof -
  let ?as = "[accounts ! i, accounts ! j, accounts ! k]"
  let ?m = "mark_signers ws ?as"
  obtain window d window' f b where inb: "\<forall>l \<in> {i, j, k}. l < length accounts"
    and p: "decode (tk_instr e) b = Some (Tok_Transfer n)" "token_process e ?m b = Ok window"
    and v: "validate_each (token_program sha) ?as window d = (Ok window', f)"
    and r: "accounts' = write_back window' [i, j, k] accounts"
    using token_cpi_Ok [OF assms(1,3)] by auto
  have t: "process_transfer e ?m n = Ok window"
    using p by (simp add: token_process_def)
  have dat: "a_data (?m ! 0) = a_data (accounts ! i)" "a_data (?m ! Suc 0) = a_data (accounts ! j)"
    "a_is_writable (?m ! 0) = a_is_writable (accounts ! i)"
    "a_is_writable (?m ! Suc 0) = a_is_writable (accounts ! j)"
    using mark_signers_flag [of ws ?as 0] mark_signers_flag [of ws ?as "Suc 0"] by auto
  obtain s d x y b0 b1 where st: "decode (tk_account e) (a_data (accounts ! i)) = Some s"
    "decode (tk_account e) (a_data (accounts ! j)) = Some d" "t_mint s = t_mint d"
    "unat (t_amount s) = unat n + unat x" "unat y = unat (t_amount d) + unat n"
    "encode (tk_account e) (s\<lparr>t_amount := x\<rparr>) = Some b0"
    "encode (tk_account e) (d\<lparr>t_amount := y\<rparr>) = Some b1"
    "window = set_data2 ?m b0 b1" "a_is_writable (accounts ! i)" "a_is_writable (accounts ! j)"
    using t dat by (auto simp: process_transfer_Ok_iff arith_iffs)
  have "decode (tk_account e) b0 = Some (s\<lparr>t_amount := x\<rparr>)"
    "decode (tk_account e) b1 = Some (d\<lparr>t_amount := y\<rparr>)"
    using assms(1) st(6,7) by (auto simp: token_env_ok_def dest: codec_okD)
  then show thesis
    using that [of s d x y] st inb r write_back_three [OF assms(2) inb st(8) v]
    by (simp add: read_data_def)
qed

text \<open>The same for minting and burning, on the supply of the mint and the balance that moves.\<close>

lemma token_cpi_window:
  assumes "token_env_ok e" "token_cpi sha e accounts [i, j, k] ws ix c = (Ok accounts', c')"
  obtains window d window' f b where "\<forall>l \<in> {i, j, k}. l < length accounts"
    "decode (tk_instr e) b = Some ix"
    "token_process e (mark_signers ws [accounts ! i, accounts ! j, accounts ! k]) b = Ok window"
    "validate_each (token_program sha) [accounts ! i, accounts ! j, accounts ! k] window d = (Ok window', f)"
    "accounts' = write_back window' [i, j, k] accounts"
  using token_cpi_Ok [OF assms] by auto

lemma marked_data:
  "a_data (mark_signers ws [x, y, z] ! 0) = a_data x"
  "a_data (mark_signers ws [x, y, z] ! Suc 0) = a_data y"
  using mark_signers_flag [of ws "[x, y, z]" 0] mark_signers_flag [of ws "[x, y, z]" "Suc 0"] by auto

lemma token_cpi_mint:
  assumes "token_env_ok e" "distinct [i, j, k]"
    and "token_cpi sha e accounts [i, j, k] ws (Tok_MintTo n) c = (Ok accounts', c')"
  obtains m d x y where "i < length accounts" "j < length accounts" "length accounts' = length accounts"
    "read_data (tk_mint e) (accounts ! i) = Ok m" "read_data (tk_account e) (accounts ! j) = Ok d"
    "read_data (tk_mint e) (accounts' ! i) = Ok (m\<lparr>m_supply := x\<rparr>)"
    "read_data (tk_account e) (accounts' ! j) = Ok (d\<lparr>t_amount := y\<rparr>)"
    "unat x = unat (m_supply m) + unat n" "unat y = unat (t_amount d) + unat n"
    "\<And>l. l \<noteq> i \<Longrightarrow> l \<noteq> j \<Longrightarrow> accounts' ! l = accounts ! l"
proof -
  let ?m = "mark_signers ws [accounts ! i, accounts ! j, accounts ! k]"
  obtain window d window' f b where inb: "\<forall>l \<in> {i, j, k}. l < length accounts"
    and p: "decode (tk_instr e) b = Some (Tok_MintTo n)" "token_process e ?m b = Ok window"
    and v: "validate_each (token_program sha) [accounts ! i, accounts ! j, accounts ! k] window d = (Ok window', f)"
    and r: "accounts' = write_back window' [i, j, k] accounts"
    by (rule token_cpi_window [OF assms(1,3)])
  have "process_mint_to e ?m n = Ok window"
    using p by (simp add: token_process_def)
  then obtain m d x y b0 b1 where st: "decode (tk_mint e) (a_data (accounts ! i)) = Some m"
    "decode (tk_account e) (a_data (accounts ! j)) = Some d"
    "unat x = unat (m_supply m) + unat n" "unat y = unat (t_amount d) + unat n"
    "encode (tk_mint e) (m\<lparr>m_supply := x\<rparr>) = Some b0" "encode (tk_account e) (d\<lparr>t_amount := y\<rparr>) = Some b1"
    "window = set_data2 ?m b0 b1"
    by (auto simp: process_mint_to_Ok_iff arith_iffs marked_data)
  moreover have "decode (tk_mint e) b0 = Some (m\<lparr>m_supply := x\<rparr>)" "decode (tk_account e) b1 = Some (d\<lparr>t_amount := y\<rparr>)"
    using assms(1) st(5,6) by (auto simp: token_env_ok_def dest: codec_okD)
  ultimately show thesis
    using that [of m d x y] r inb write_back_three [OF assms(2) inb st(7) v] by (simp add: read_data_def)
qed

lemma token_cpi_burn:
  assumes "token_env_ok e" "distinct [i, j, k]"
    and "token_cpi sha e accounts [i, j, k] ws (Tok_Burn n) c = (Ok accounts', c')"
  obtains t m x y where "i < length accounts" "j < length accounts" "length accounts' = length accounts"
    "read_data (tk_account e) (accounts ! i) = Ok t" "read_data (tk_mint e) (accounts ! j) = Ok m"
    "read_data (tk_account e) (accounts' ! i) = Ok (t\<lparr>t_amount := x\<rparr>)"
    "read_data (tk_mint e) (accounts' ! j) = Ok (m\<lparr>m_supply := y\<rparr>)"
    "unat (t_amount t) = unat n + unat x" "unat (m_supply m) = unat n + unat y"
    "\<And>l. l \<noteq> i \<Longrightarrow> l \<noteq> j \<Longrightarrow> accounts' ! l = accounts ! l"
proof -
  let ?m = "mark_signers ws [accounts ! i, accounts ! j, accounts ! k]"
  obtain window d window' f b where inb: "\<forall>l \<in> {i, j, k}. l < length accounts"
    and p: "decode (tk_instr e) b = Some (Tok_Burn n)" "token_process e ?m b = Ok window"
    and v: "validate_each (token_program sha) [accounts ! i, accounts ! j, accounts ! k] window d = (Ok window', f)"
    and r: "accounts' = write_back window' [i, j, k] accounts"
    by (rule token_cpi_window [OF assms(1,3)])
  have "process_burn e ?m n = Ok window"
    using p by (simp add: token_process_def)
  then obtain t m x y b0 b1 where st: "decode (tk_account e) (a_data (accounts ! i)) = Some t"
    "decode (tk_mint e) (a_data (accounts ! j)) = Some m"
    "unat (t_amount t) = unat n + unat x" "unat (m_supply m) = unat n + unat y"
    "encode (tk_account e) (t\<lparr>t_amount := x\<rparr>) = Some b0" "encode (tk_mint e) (m\<lparr>m_supply := y\<rparr>) = Some b1"
    "window = set_data2 ?m b0 b1"
    by (auto simp: process_burn_Ok_iff arith_iffs marked_data)
  moreover have "decode (tk_account e) b0 = Some (t\<lparr>t_amount := x\<rparr>)" "decode (tk_mint e) b1 = Some (m\<lparr>m_supply := y\<rparr>)"
    using assms(1) st(5,6) by (auto simp: token_env_ok_def dest: codec_okD)
  ultimately show thesis
    using that [of t m x y] r inb write_back_three [OF assms(2) inb st(7) v] by (simp add: read_data_def)
qed

definition owned_slot :: "Pubkey \<Rightarrow> Pubkey \<Rightarrow> bytes \<Rightarrow> AccountInfo" where
  "owned_slot owner key data = (new_account key owner 0 0)\<lparr>a_data := data\<rparr>"

lemmas cpi_run = token_cpi_def invoke_indexed_def invoke_signed_indexed_def with_depth_guard_def
  enter_def drop_guard_def charge_def pure_program_def xbind_def xlift_def xret_def Let_def
  MAX_CPI_DEPTH_def validate_write_def same_state_def credit_only_def is_blank_def
  record_approved_def token_program_def from_seed_def CPI_BASE_COST_def PER_ACCOUNT_COST_def
  COMPUTE_BUDGET_def saturating_add_def saturating_sub_def require_signer_def

end
