(* ===== verification/Ata_Program.thy ===== *)
theory Ata_Program
  imports Token_Program
begin

text \<open>
  The associated-token-account program, \<open>src/himsha-programs/ata/src/lib.rs\<close>: the address
  derivation, the instruction builder, and \<open>process\<close>, which initializes the account through a
  cross-program call to the token program.
\<close>

section \<open>Addresses and processing\<close>

datatype AtaInstruction = Ata_Create

record ata_env =
  at_sha :: sha256
  at_instr :: "AtaInstruction codec"
  at_token :: token_env

definition get_associated_token_address :: "sha256 \<Rightarrow> Pubkey \<Rightarrow> Pubkey \<Rightarrow> Pubkey" where
  "get_associated_token_address sha owner mint =
     fst (find_program_address sha [be_bytes owner, be_bytes (token_program sha), be_bytes mint]
       (ata_program sha))"

definition create_associated_token_account ::
  "ata_env \<Rightarrow> Pubkey \<Rightarrow> Pubkey \<Rightarrow> Pubkey \<Rightarrow> Instruction presult" where
  "create_associated_token_account e payer owner mint =
     (let ata = get_associated_token_address (at_sha e) owner mint in
      with_args (at_instr e) (ata_program (at_sha e))
        [meta_writable payer True, meta_writable ata False, meta_readonly owner False,
         meta_readonly mint False] Ata_Create)"

definition ata_process :: "ata_env \<Rightarrow> process" where
  "ata_process e accounts data =
     xbind (xlift (ok_or (decode (at_instr e) data) InvalidInstruction)) (\<lambda>ix. case ix of
       Ata_Create \<Rightarrow>
         if length accounts < 4 then xlift (Err NotEnoughAccounts)
         else
           let ata_key = a_key (accounts ! 1);
               owner = a_key (accounts ! 2);
               mint_key = a_key (accounts ! 3);
               expected = get_associated_token_address (at_sha e) owner mint_key in
           if expected \<noteq> ata_key then xlift (Err InvalidAccountData)
           else if a_data (accounts ! 1) \<noteq> [] then xret accounts
           else
             xbind (xlift (ok_or (encode (tk_instr (at_token e)) Tok_InitializeAccount) BorshError))
               (\<lambda>init_data.
             invoke_indexed accounts [1, 3] init_data (token_program (at_sha e))
               (pure_program (token_process (at_token e)))))"

section \<open>The contract\<close>

lemma case_AtaInstruction [simp]: "(case ix of Ata_Create \<Rightarrow> x) = x"
  by (cases ix) simp

lemma ata_process_keeps: "keeps (ata_process e accounts data) (same_headers accounts)"
  using tok.invoke_keeps
  by (auto simp: ata_process_def Let_def intro!: keeps_if)

interpretation ata: himsha_program "ata_process e" for e
  by unfold_locales (rule ata_process_keeps)

section \<open>Properties\<close>

text \<open>
  Every pair of an owner and a mint has its own associated address: two pairs with the
  same address are the same pair, for a hash function without a collision on the two inputs.
\<close>

theorem associated_address_unique:
  assumes "get_associated_token_address sha owner mint = get_associated_token_address sha owner' mint'"
    and "inj_on sha ((\<lambda>(p, m). concat [be_bytes p, be_bytes (token_program sha), be_bytes m]
        @ [PDA_BUMP] @ be_bytes (ata_program sha) @ ascii ''himsha::pda'')
          ` {(owner, mint), (owner', mint')})"
  shows "owner = owner' \<and> mint = mint'"
proof -
  have "find_program_address sha [be_bytes owner, be_bytes (token_program sha), be_bytes mint]
      (ata_program sha) =
    find_program_address sha [be_bytes owner', be_bytes (token_program sha), be_bytes mint']
      (ata_program sha)"
    using assms(1) by (simp add: get_associated_token_address_def find_program_address_def)
  then have "concat [be_bytes owner, be_bytes (token_program sha), be_bytes mint] =
      concat [be_bytes owner', be_bytes (token_program sha), be_bytes mint']"
    using find_program_address_inj assms(2)
    by (simp only: image_insert image_empty case_prod_conv)
  then show ?thesis
    by simp
qed

definition sample_ata_env :: ata_env where
  "sample_ata_env = \<lparr> at_sha = (\<lambda>b. case b of x # _ \<Rightarrow> ucast x | [] \<Rightarrow> 0),
     at_instr = table_codec [Ata_Create], at_token = sample_token_env \<rparr>"

theorem associated_address_unique_witness:
  "(1 :: Pubkey) = 1 \<and> (2 :: Pubkey) = 2"
  by (rule associated_address_unique [where sha = "at_sha sample_ata_env"]) simp_all

text \<open>The token program on the window of the call: the new account and the mint.\<close>

lemma initialize_pair:
  assumes "process_initialize_account e [acc, mint] = Ok window"
  obtains st b where "encode (tk_account e) st = Some b" "window = [acc\<lparr>a_data := b\<rparr>, mint]"
    "t_state st = Initialized" "t_mint st = a_key mint" "t_owner st = default_pubkey"
proof -
  obtain st b where "encode (tk_account e) (st\<lparr>t_mint := a_key mint, t_owner := default_pubkey,
      t_state := Initialized\<rparr>) = Some b" "window = [acc\<lparr>a_data := b\<rparr>, mint]"
    using assms by (auto simp: process_initialize_account_def monad_iffs Let_def)
  then show thesis
    by (intro that) auto
qed

text \<open>
  Creating an associated account that does not exist yet hands it to the token program and
  leaves it initialized for the mint, but with the all-zero key as the owner of the tokens:
  the call passes the token program a window without the owner's account.
\<close>

theorem ata_create_owner:
  assumes "token_env_ok (at_token e)" "\<forall>st. encode (tk_account (at_token e)) st \<noteq> Some []"
    and "ata_process e accounts data c = (Ok accounts', c')"
    and "is_blank (accounts ! 1)" "a_owner (accounts ! 1) \<noteq> token_program (at_sha e)"
  shows "a_owner (accounts' ! 1) = token_program (at_sha e) \<and>
    (\<exists>st. read_at (tk_account (at_token e)) accounts' 1 = Ok st \<and> t_state st = Initialized
       \<and> t_mint st = a_key (accounts ! 3) \<and> t_owner st = default_pubkey)"
proof -
  let ?w = "[accounts ! 1, accounts ! 3]"
  have blank: "a_data (accounts ! 1) = []"
    using assms(4) by (simp add: is_blank_def)
  obtain b where len: "4 \<le> length accounts" and b: "encode (tk_instr (at_token e)) Tok_InitializeAccount = Some b"
    and inv: "invoke_indexed accounts [1, 3] b (token_program (at_sha e))
               (pure_program (token_process (at_token e))) c = (Ok accounts', c')"
    using assms(3) blank
    by (auto simp: ata_process_def Let_def monad_iffs split: if_splits)
  have sel: "map ((!) accounts) [1, 3] = ?w" "\<forall>i \<in> set [1, 3 :: nat]. i < length accounts"
    using len by auto
  have dec: "decode (tk_instr (at_token e)) b = Some Tok_InitializeAccount"
    using assms(1) b by (auto simp: token_env_ok_def dest: codec_okD)
  obtain window d window' f where p: "process_initialize_account (at_token e) ?w = Ok window"
    and v: "validate_each (token_program (at_sha e)) ?w window d = (Ok window', f)"
    and r: "accounts' = write_back window' [1, 3] accounts"
    using inv sel dec by (auto simp: invoke_indexed_def invoke_signed_Ok_iff pure_program_def
        token_process_def split: if_splits)
  obtain st d0 where st: "encode (tk_account (at_token e)) st = Some d0" "t_state st = Initialized"
      "t_mint st = a_key (accounts ! 3)" "t_owner st = default_pubkey"
    and window: "window = [(accounts ! 1)\<lparr>a_data := d0\<rparr>, accounts ! 3]"
    using p by (elim initialize_pair)
  have "d0 \<noteq> []"
    using st(1) assms(2) by auto
  then have "window' = [(accounts ! 1)\<lparr>a_data := d0, a_owner := token_program (at_sha e)\<rparr>, accounts ! 3]"
    using v window assms(4,5) blank
    by (auto simp: monad_iffs validate_write_def same_state_def credit_only_def Let_def)
  then have "accounts' ! 1 = (accounts ! 1)\<lparr>a_data := d0, a_owner := token_program (at_sha e)\<rparr>"
    "1 < length accounts'"
    using r len by auto
  moreover have "decode (tk_account (at_token e)) d0 = Some st"
    using assms(1) st(1) by (auto simp: token_env_ok_def dest: codec_okD)
  ultimately show ?thesis
    using st by (simp add: read_at_def read_data_def)
qed

definition sample_ata_window :: "accounts" where
  "sample_ata_window = [signer_slot 3, token_slot 0 [], token_slot 5 [], token_slot 9 [0]]"

lemma sample_ata_run:
  "ata_process sample_ata_env sample_ata_window [0] \<lparr> approved = Map.empty, spent = 0, depth = 0 \<rparr> =
     (Ok [signer_slot 3, (token_slot 0 [4])\<lparr>a_owner := 104\<rparr>, token_slot 5 [], token_slot 9 [0]],
      \<lparr> approved = [0 \<mapsto> (token_slot 0 [4])\<lparr>a_owner := 104\<rparr>], spent = 1200, depth = 0 \<rparr>)"
  by (simp add: ata_process_def sample_ata_env_def sample_ata_window_def token_run
      get_associated_token_address_def find_program_address_def be_bytes_def upt_conv_Cons [of 0 32]
      invoke_indexed_def invoke_signed_indexed_def with_depth_guard_def enter_def drop_guard_def
      charge_def pure_program_def xbind_def xlift_def xret_def Let_def MAX_CPI_DEPTH_def
      validate_write_def same_state_def credit_only_def is_blank_def record_approved_def
      token_program_def ata_program_def from_seed_def ascii_def CPI_BASE_COST_def
      PER_ACCOUNT_COST_def COMPUTE_BUDGET_def saturating_add_def saturating_sub_def)

theorem ata_create_owner_witness:
  "\<exists>st. read_at (tk_account sample_token_env)
      [signer_slot 3, (token_slot 0 [4])\<lparr>a_owner := 104\<rparr>, token_slot 5 [], token_slot 9 [0]] 1 = Ok st
    \<and> t_owner st = default_pubkey \<and> a_key (sample_ata_window ! 2) = 5"
proof -
  have enc: "\<forall>st. encode (tk_account (at_token sample_ata_env)) st \<noteq> Some []"
    by (auto simp: sample_ata_env_def sample_token_env_def table_codec_def split: option.splits)
  have ok: "token_env_ok (at_token sample_ata_env)"
    using sample_token_env_ok by (simp add: sample_ata_env_def)
  have "is_blank (sample_ata_window ! 1)"
    "a_owner (sample_ata_window ! 1) \<noteq> token_program (at_sha sample_ata_env)"
    by (simp_all add: sample_ata_window_def token_slot_def new_account_def is_blank_def
        sample_ata_env_def token_program_def from_seed_def ascii_def)
  from ata_create_owner [OF ok enc sample_ata_run this] show ?thesis
    by (auto simp: sample_ata_env_def sample_ata_window_def token_slot_def new_account_def)
qed

end
