(* ===== verification/Swap_Program.thy ===== *)
theory Swap_Program
  imports Token_Program
begin

text \<open>
  The constant-product market maker, \<open>src/himsha-programs/swap/src/lib.rs\<close>: pool state, the
  integer square root, the pricing arithmetic at its widths (\<open>u64\<close> with a \<open>u128\<close>
  intermediate), and the four arms of \<open>process\<close>, which move tokens by cross-program calls.
\<close>

section \<open>State and instructions\<close>

definition MINIMUM_LIQUIDITY :: u64 where
  "MINIMUM_LIQUIDITY = 1000"

record PoolState =
  po_token_a_mint :: Pubkey
  po_token_b_mint :: Pubkey
  po_token_a_reserve :: Pubkey
  po_token_b_reserve :: Pubkey
  po_lp_mint :: Pubkey
  po_fee_numerator :: u64
  po_fee_denominator :: u64
  po_reserve_a :: u64
  po_reserve_b :: u64
  po_lp_supply :: u64
  po_is_initialized :: bool

definition default_pool :: PoolState where
  "default_pool =
     \<lparr> po_token_a_mint = default_pubkey, po_token_b_mint = default_pubkey,
       po_token_a_reserve = default_pubkey, po_token_b_reserve = default_pubkey,
       po_lp_mint = default_pubkey, po_fee_numerator = 0, po_fee_denominator = 0,
       po_reserve_a = 0, po_reserve_b = 0, po_lp_supply = 0, po_is_initialized = False \<rparr>"

datatype SwapInstruction =
    Swp_Initialize u64 u64
  | Swp_Swap u64 u64
  | Swp_Deposit u64 u64 u64
  | Swp_Withdraw u64 u64 u64

record swap_env =
  sw_sha :: sha256
  sw_instr :: "SwapInstruction codec"
  sw_pool :: "PoolState codec"
  sw_token :: token_env

definition swap_env_ok :: "swap_env \<Rightarrow> bool" where
  "swap_env_ok e \<longleftrightarrow> codec_ok (sw_instr e) \<and> codec_ok (sw_pool e) \<and> token_env_ok (sw_token e)"

definition swap_initialize ::
  "swap_env \<Rightarrow> Pubkey \<Rightarrow> Pubkey \<Rightarrow> Pubkey \<Rightarrow> Pubkey \<Rightarrow> Pubkey \<Rightarrow> Pubkey \<Rightarrow> Pubkey \<Rightarrow> u64 \<Rightarrow> u64
     \<Rightarrow> Instruction presult" where
  "swap_initialize e pool token_a_mint token_b_mint reserve_a reserve_b lp_mint payer fee_num fee_den =
     with_args (sw_instr e) (swap_program (sw_sha e))
       [meta_writable pool False, meta_readonly token_a_mint False, meta_readonly token_b_mint False,
        meta_writable reserve_a False, meta_writable reserve_b False, meta_writable lp_mint False,
        meta_writable payer True]
       (Swp_Initialize fee_num fee_den)"

definition swap_swap ::
  "swap_env \<Rightarrow> Pubkey \<Rightarrow> Pubkey \<Rightarrow> Pubkey \<Rightarrow> Pubkey \<Rightarrow> Pubkey \<Rightarrow> Pubkey \<Rightarrow> u64 \<Rightarrow> u64
     \<Rightarrow> Instruction presult" where
  "swap_swap e pool source destination reserve_in reserve_out user amount_in min_out =
     with_args (sw_instr e) (swap_program (sw_sha e))
       [meta_readonly pool False, meta_writable source False, meta_writable destination False,
        meta_writable reserve_in False, meta_writable reserve_out False, meta_readonly user True]
       (Swp_Swap amount_in min_out)"

section \<open>Arithmetic\<close>

text \<open>\<open>integer_sqrt\<close>: the loop runs while the next iterate is smaller; dividing by zero panics.\<close>

function sqrt_loop :: "u64 \<Rightarrow> u64 \<Rightarrow> u64 \<Rightarrow> u64 presult" where
  "sqrt_loop n x y =
     (if y < x then (if y = 0 then Panic else sqrt_loop n y ((y + n div y) div 2)) else Ok x)"
  by auto
termination
  by (relation "measure (\<lambda>(n, x, y). unat x)") (auto simp: word_less_nat_alt)

declare sqrt_loop.simps [simp del]

definition integer_sqrt :: "u64 \<Rightarrow> u64 presult" where
  "integer_sqrt n = (if n = 0 then Ok 0 else sqrt_loop n n (div_ceil n 2))"

text \<open>The price of a swap: the output for \<open>amount_in\<close> against the live reserves.\<close>

definition swap_amount_out :: "PoolState \<Rightarrow> u64 \<Rightarrow> u64 \<Rightarrow> u64 \<Rightarrow> u64 presult" where
  "swap_amount_out pool reserve_in reserve_out amount_in =
     rbind (ok_or (checked_mul amount_in (po_fee_numerator pool)) Overflow) (\<lambda>f.
     rbind (ok_or (checked_div f (po_fee_denominator pool)) Overflow) (\<lambda>fee_amount.
     rbind (ok_or (checked_sub amount_in fee_amount) Overflow) (\<lambda>amount_in_after_fee.
     rbind (ok_or (checked_mul (ucast reserve_out :: u128) (ucast amount_in_after_fee)) Overflow) (\<lambda>p.
     rbind (ok_or (checked_add (ucast reserve_in :: u128) (ucast amount_in_after_fee)) Overflow) (\<lambda>q.
     rbind (ok_or (checked_div p q) Overflow) (\<lambda>r.
     Ok (ucast r :: u64)))))))"

definition reserve_balance :: "swap_env \<Rightarrow> AccountInfo \<Rightarrow> u64 presult" where
  "reserve_balance e acc = rbind (read_data (tk_account (sw_token e)) acc) (\<lambda>t. Ok (t_amount t))"

text \<open>What a deposit takes of each side, credits in LP tokens and adds to the LP supply.\<close>

definition deposit_bootstrap :: "u64 \<Rightarrow> u64 \<Rightarrow> (u64 \<times> u64 \<times> u64 \<times> u64) presult" where
  "deposit_bootstrap max_a max_b =
     rbind (ok_or (checked_mul max_a max_b) Overflow) (\<lambda>ab.
     rbind (integer_sqrt ab) (\<lambda>lp.
     rbind (ok_or (checked_sub lp MINIMUM_LIQUIDITY) InsufficientFunds) (\<lambda>user_lp.
     Ok (max_a, max_b, user_lp, lp))))"

definition mul_div :: "u64 \<Rightarrow> u64 \<Rightarrow> u64 \<Rightarrow> u64 presult" where
  "mul_div a b d = rbind (ok_or (checked_mul a b) Overflow) (\<lambda>m. ok_or (checked_div m d) Overflow)"

definition deposit_proportional ::
  "u64 \<Rightarrow> u64 \<Rightarrow> u64 \<Rightarrow> u64 \<Rightarrow> u64 \<Rightarrow> (u64 \<times> u64 \<times> u64 \<times> u64) presult" where
  "deposit_proportional lp_supply reserve_a reserve_b max_a max_b =
     rbind (mul_div max_a lp_supply (max reserve_a 1)) (\<lambda>lp_a.
     rbind (mul_div max_b lp_supply (max reserve_b 1)) (\<lambda>lp_b.
     let lp_out = min lp_a lp_b in
     rbind (mul_div lp_out reserve_a lp_supply) (\<lambda>actual_a.
     rbind (mul_div lp_out reserve_b lp_supply) (\<lambda>actual_b.
     Ok (actual_a, actual_b, lp_out, lp_out)))))"

definition withdraw_out :: "u64 \<Rightarrow> u64 \<Rightarrow> u64 \<Rightarrow> u64 presult" where
  "withdraw_out reserve lp_amount lp_supply =
     rbind (ok_or (checked_mul (ucast reserve :: u128) (ucast lp_amount)) Overflow) (\<lambda>p.
     rbind (ok_or (checked_div p (ucast lp_supply)) Overflow) (\<lambda>q.
     Ok (ucast q :: u64)))"

section \<open>Processing\<close>

definition sync_reserves :: "swap_env \<Rightarrow> accounts \<Rightarrow> PoolState \<Rightarrow> PoolState presult" where
  "sync_reserves e accounts pool =
     rbind (read_at (tk_account (sw_token e)) accounts 3) (\<lambda>in_acc.
     rbind (read_at (tk_account (sw_token e)) accounts 4) (\<lambda>out_acc.
     if a_key (accounts ! 3) = po_token_a_reserve pool
     then Ok (pool\<lparr>po_reserve_a := t_amount in_acc, po_reserve_b := t_amount out_acc\<rparr>)
     else Ok (pool\<lparr>po_reserve_a := t_amount out_acc, po_reserve_b := t_amount in_acc\<rparr>)))"

definition sync_reserves_ab :: "swap_env \<Rightarrow> accounts \<Rightarrow> PoolState \<Rightarrow> PoolState presult" where
  "sync_reserves_ab e accounts pool =
     rbind (index_at accounts 3) (\<lambda>acc_a. rbind (reserve_balance e acc_a) (\<lambda>ra.
     rbind (index_at accounts 4) (\<lambda>acc_b. rbind (reserve_balance e acc_b) (\<lambda>rb.
     Ok (pool\<lparr>po_reserve_a := ra, po_reserve_b := rb\<rparr>)))))"

definition swap_process_initialize :: "swap_env \<Rightarrow> accounts \<Rightarrow> u64 \<Rightarrow> u64 \<Rightarrow> accounts presult" where
  "swap_process_initialize e accounts fee_numerator fee_denominator =
     (if fee_denominator = 0 then Err InvalidInstruction
      else if length accounts < 7 then Err NotEnoughAccounts
      else rbind (unwrap_or default_pool (read_at (sw_pool e) accounts 0)) (\<lambda>pool.
      if po_is_initialized pool then Err AlreadyInitialized
      else write_at (sw_pool e)
        (pool\<lparr>po_token_a_mint := a_key (accounts ! 1), po_token_b_mint := a_key (accounts ! 2),
              po_token_a_reserve := a_key (accounts ! 3), po_token_b_reserve := a_key (accounts ! 4),
              po_lp_mint := a_key (accounts ! 5), po_fee_numerator := fee_numerator,
              po_fee_denominator := fee_denominator, po_is_initialized := True\<rparr>) accounts 0))"

definition swap_process_swap :: "swap_env \<Rightarrow> accounts \<Rightarrow> u64 \<Rightarrow> u64 \<Rightarrow> accounts pexec" where
  "swap_process_swap e accounts amount_in min_amount_out =
     (if length accounts < 6 then xlift (Err NotEnoughAccounts)
      else xbind (xlift (require_signer (accounts ! 5))) (\<lambda>_.
      xbind (xlift (read_at (sw_pool e) accounts 0)) (\<lambda>pool.
      if \<not> po_is_initialized pool then xlift (Err NotInitialized)
      else xbind (xlift (read_at (tk_account (sw_token e)) accounts 3)) (\<lambda>acc_in.
      xbind (xlift (read_at (tk_account (sw_token e)) accounts 4)) (\<lambda>acc_out.
      let reserve_in = t_amount acc_in; reserve_out = t_amount acc_out in
      if reserve_in = 0 \<or> reserve_out = 0 then xlift (Err PoolEmpty)
      else xbind (xlift (swap_amount_out pool reserve_in reserve_out amount_in)) (\<lambda>amount_out.
      if amount_out < min_amount_out then xlift (Err SlippageExceeded)
      else xbind (token_cpi (sw_sha e) (sw_token e) accounts [1, 3, 5] [] (Tok_Transfer amount_in)) (\<lambda>accounts.
      xbind (token_cpi (sw_sha e) (sw_token e) accounts [4, 2, 0] [2] (Tok_Transfer amount_out)) (\<lambda>accounts.
      xbind (xlift (sync_reserves e accounts pool)) (\<lambda>pool.
      xlift (write_at (sw_pool e) pool accounts 0))))))))))"

definition swap_process_deposit :: "swap_env \<Rightarrow> accounts \<Rightarrow> u64 \<Rightarrow> u64 \<Rightarrow> u64 \<Rightarrow> accounts pexec" where
  "swap_process_deposit e accounts max_a max_b min_lp =
     (if length accounts < 8 then xlift (Err NotEnoughAccounts)
      else xbind (xlift (require_signer (accounts ! 6))) (\<lambda>_.
      xbind (xlift (read_at (sw_pool e) accounts 0)) (\<lambda>pool.
      xbind (xlift (
        if po_lp_supply pool = 0 then deposit_bootstrap max_a max_b
        else rbind (reserve_balance e (accounts ! 3)) (\<lambda>reserve_a.
             rbind (reserve_balance e (accounts ! 4)) (\<lambda>reserve_b.
             deposit_proportional (po_lp_supply pool) reserve_a reserve_b max_a max_b))))
        (\<lambda>(deposit_a, deposit_b, user_lp, supply_delta).
      if user_lp < min_lp then xlift (Err SlippageExceeded)
      else xbind (token_cpi (sw_sha e) (sw_token e) accounts [1, 3, 6] [] (Tok_Transfer deposit_a)) (\<lambda>accounts.
      xbind (token_cpi (sw_sha e) (sw_token e) accounts [2, 4, 6] [] (Tok_Transfer deposit_b)) (\<lambda>accounts.
      xbind (token_cpi (sw_sha e) (sw_token e) accounts [7, 5, 6] [] (Tok_MintTo user_lp)) (\<lambda>accounts.
      xbind (xlift (ok_or (checked_add (po_lp_supply pool) supply_delta) Overflow)) (\<lambda>lp_supply.
      xbind (xlift (sync_reserves_ab e accounts (pool\<lparr>po_lp_supply := lp_supply\<rparr>))) (\<lambda>pool.
      xlift (write_at (sw_pool e) pool accounts 0))))))))))"

definition swap_process_withdraw :: "swap_env \<Rightarrow> accounts \<Rightarrow> u64 \<Rightarrow> u64 \<Rightarrow> u64 \<Rightarrow> accounts pexec" where
  "swap_process_withdraw e accounts lp_amount min_a min_b =
     (if length accounts < 8 then xlift (Err NotEnoughAccounts)
      else xbind (xlift (require_signer (accounts ! 6))) (\<lambda>_.
      xbind (xlift (read_at (sw_pool e) accounts 0)) (\<lambda>pool.
      if po_lp_supply pool = 0 then xlift (Err PoolEmpty)
      else xbind (xlift (reserve_balance e (accounts ! 3))) (\<lambda>reserve_a.
      xbind (xlift (reserve_balance e (accounts ! 4))) (\<lambda>reserve_b.
      xbind (xlift (withdraw_out reserve_a lp_amount (po_lp_supply pool))) (\<lambda>out_a.
      xbind (xlift (withdraw_out reserve_b lp_amount (po_lp_supply pool))) (\<lambda>out_b.
      if out_a < min_a \<or> out_b < min_b then xlift (Err SlippageExceeded)
      else xbind (token_cpi (sw_sha e) (sw_token e) accounts [5, 7, 6] [] (Tok_Burn lp_amount)) (\<lambda>accounts.
      xbind (token_cpi (sw_sha e) (sw_token e) accounts [3, 1, 6] [] (Tok_Transfer out_a)) (\<lambda>accounts.
      xbind (token_cpi (sw_sha e) (sw_token e) accounts [4, 2, 6] [] (Tok_Transfer out_b)) (\<lambda>accounts.
      xbind (xlift (ok_or (checked_sub (po_lp_supply pool) lp_amount) InsufficientFunds)) (\<lambda>lp_supply.
      xbind (xlift (sync_reserves_ab e accounts (pool\<lparr>po_lp_supply := lp_supply\<rparr>))) (\<lambda>pool.
      xlift (write_at (sw_pool e) pool accounts 0)))))))))))))"

definition swap_process :: "swap_env \<Rightarrow> process" where
  "swap_process e accounts data =
     xbind (xlift (ok_or (decode (sw_instr e) data) InvalidInstruction)) (\<lambda>ix. case ix of
       Swp_Initialize fee_numerator fee_denominator \<Rightarrow>
         xlift (swap_process_initialize e accounts fee_numerator fee_denominator)
     | Swp_Swap amount_in min_amount_out \<Rightarrow> swap_process_swap e accounts amount_in min_amount_out
     | Swp_Deposit max_a max_b min_lp \<Rightarrow> swap_process_deposit e accounts max_a max_b min_lp
     | Swp_Withdraw lp_amount min_a min_b \<Rightarrow> swap_process_withdraw e accounts lp_amount min_a min_b)"

section \<open>The contract\<close>

lemmas swap_handler_defs =
  swap_process_initialize_def swap_process_swap_def swap_process_deposit_def
  swap_process_withdraw_def

lemma swap_process_initialize_headers:
  "swap_process_initialize e accounts n d = Ok accounts' \<Longrightarrow> same_headers accounts accounts'"
  by (auto simp: swap_process_initialize_def monad_iffs split: if_splits)

lemma swap_process_keeps: "keeps (swap_process e accounts data) (same_headers accounts)"
proof -
  have "keeps (swap_process_swap e accounts n m) (same_headers accounts)" for n m
    by (auto simp: swap_process_swap_def Let_def intro!: keeps_if keeps_xbind_token_cpi
        [where accounts = accounts] intro: keeps_write_at)
  moreover have "keeps (swap_process_deposit e accounts n m k) (same_headers accounts)" for n m k
    by (auto simp: swap_process_deposit_def Let_def intro!: keeps_if keeps_xbind_token_cpi
        [where accounts = accounts] intro: keeps_write_at)
  moreover have "keeps (swap_process_withdraw e accounts n m k) (same_headers accounts)" for n m k
    by (auto simp: swap_process_withdraw_def Let_def intro!: keeps_if keeps_xbind_token_cpi
        [where accounts = accounts] intro: keeps_write_at)
  ultimately show ?thesis
    by (auto simp: swap_process_def keeps_xlift_iff dest: swap_process_initialize_headers
        split: SwapInstruction.splits)
qed

interpretation swp: himsha_program "swap_process e" for e
  by unfold_locales (rule swap_process_keeps)

section \<open>The integer square root\<close>

lemma newton_step_above:
  assumes "0 < (X :: nat)"
  shows "N < ((X + N div X) div 2 + 1)\<^sup>2"
proof -
  define q where "q = N div X"
  define t where "t = (X + q) div 2 + 1"
  have "N < X * (q + 1)"
    using assms unfolding q_def by (metis add.commute dividend_less_times_div mult.commute mult_Suc_right plus_1_eq_Suc)
  moreover have "X + (q + 1) \<le> 2 * t"
    unfolding t_def by simp
  then have "(X + (q + 1))\<^sup>2 \<le> (2 * t)\<^sup>2"
    by (rule power_mono) simp
  moreover have "4 * (X * (q + 1)) \<le> (X + (q + 1))\<^sup>2"
  proof -
    have "4 * (int X * int (q + 1)) \<le> (int X + int (q + 1))\<^sup>2"
      using zero_le_power2 [of "int X - int (q + 1)"] by (simp add: power2_eq_square algebra_simps)
    then show ?thesis
      by (metis (mono_tags) of_nat_add of_nat_le_iff of_nat_mult of_nat_numeral of_nat_power)
  qed
  ultimately have "4 * N < 4 * t\<^sup>2"
    by (simp add: power_mult_distrib)
  then show ?thesis
    unfolding t_def q_def by simp
qed

lemma newton_step_fits:
  assumes "0 < (Y :: nat)" "Y \<le> (N + 1) div 2" "N < (Y + 1)\<^sup>2"
  shows "Y + N div Y \<le> max N 4"
proof (cases "Y = 1")
  case True
  then show ?thesis
    using assms(3) by (simp add: power2_eq_square)
next
  case False
  then have "N div Y \<le> N div 2"
    using assms(1) by (intro div_le_mono2) auto
  then have "Y + N div Y \<le> (N + 1) div 2 + N div 2"
    using assms(2) by simp
  then show ?thesis
    by simp
qed

lemma sqrt_loop_correct:
  assumes "n \<noteq> 0" "x \<noteq> 0"
    and "unat y = (unat x + unat n div unat x) div 2" "unat y \<le> (unat n + 1) div 2"
    and "unat n < (unat x + 1)\<^sup>2"
  shows "\<exists>r. sqrt_loop n x y = Ok r \<and> (unat r)\<^sup>2 \<le> unat n \<and> unat n < (unat r + 1)\<^sup>2"
  using assms
proof (induction n x y rule: sqrt_loop.induct)
  case (1 n x y)
  let ?N = "unat n" and ?X = "unat x" and ?Y = "unat y"
  have X: "0 < ?X" and N: "0 < ?N"
    using "1.prems" by (simp_all add: unat_gt_0)
  have above: "?N < (?Y + 1)\<^sup>2"
    using newton_step_above [OF X, of ?N] "1.prems"(3) by simp
  then have Y: "y \<noteq> 0"
    using N by (auto simp: power2_eq_square)
  show ?case
  proof (cases "y < x")
    case True
    have "?Y + ?N div ?Y \<le> max ?N 4"
      using newton_step_fits above Y "1.prems"(4) by (simp add: unat_gt_0)
    then have "unat y + unat (n div y) < 2 ^ LENGTH(64)"
      using unat_bound [of n] by (auto simp: unat_div)
    then have y': "unat ((y + n div y) div 2) = (?Y + ?N div ?Y) div 2"
      by (simp add: unat_div unat_add_lem [THEN iffD1])
    moreover have "(?Y + ?N div ?Y) div 2 \<le> (?N + 1) div 2"
    proof (cases "?Y = 1")
      case False
      then have "?N div ?Y \<le> ?N div 2"
        using Y unat_gt_0 [of y] by (intro div_le_mono2; linarith)
      then show ?thesis
        using "1.prems"(4) by simp
    qed simp
    ultimately show ?thesis
      using "1.IH" [OF True Y "1.prems"(1) Y y'] above True Y sqrt_loop.simps [of n x y] by simp
  next
    case False
    then have "?X \<le> ?Y"
      by (simp add: word_le_nat_alt word_less_nat_alt)
    then have "?X \<le> ?N div ?X"
      using "1.prems"(3) by linarith
    then have "?X * ?X \<le> ?N"
      using X by (simp add: less_eq_div_iff_mult_less_eq)
    then show ?thesis
      using False "1.prems"(5) sqrt_loop.simps [of n x y] by (simp add: power2_eq_square)
  qed
qed

text \<open>
  C39. The integer square root never panics and never overflows, its loop ends, and what it
  returns is the square root rounded down, for every \<open>u64\<close>.
\<close>

theorem integer_sqrt_correct:
  "\<exists>r. integer_sqrt n = Ok r \<and> (unat r)\<^sup>2 \<le> unat n \<and> unat n < (unat r + 1)\<^sup>2"
proof (cases "n = 0")
  case False
  then have "0 < unat n"
    by (simp add: unat_gt_0)
  moreover have "unat (div_ceil n 2) = (unat n + 1) div 2"
    by (simp add: unat_div_ceil)
  moreover have "unat n < (unat n + 1)\<^sup>2"
    by (simp add: power2_eq_square)
  ultimately show ?thesis
    using False sqrt_loop_correct [of n n "div_ceil n 2"] by (simp add: integer_sqrt_def)
qed (simp add: integer_sqrt_def)

section \<open>Pricing\<close>

lemma constant_product:
  fixes rin rout a :: nat
  assumes "0 < rin" "0 < rout"
  shows "rout * a div (rin + a) < rout"
    and "rin * rout \<le> (rin + a) * (rout - rout * a div (rin + a))"
proof -
  let ?r = "rout * a div (rin + a)"
  have le: "(rin + a) * ?r \<le> rout * a"
    by (simp add: times_div_less_eq_dividend)
  also have "rout * a < (rin + a) * rout"
    using assms by (simp add: algebra_simps)
  finally show lt: "?r < rout"
    by simp
  have "rin * rout + (rin + a) * ?r \<le> (rin + a) * rout"
    using le by (simp add: algebra_simps)
  then show "rin * rout \<le> (rin + a) * (rout - ?r)"
    by (simp add: diff_mult_distrib2)
qed

lemma swap_amount_out_exact:
  assumes "swap_amount_out pool rin rout amount = Ok out" "rin \<noteq> 0" "rout \<noteq> 0"
  obtains a where "unat out = unat rout * a div (unat rin + a)"
    "a + unat amount * unat (po_fee_numerator pool) div unat (po_fee_denominator pool) = unat amount"
proof -
  obtain m fee after p q r where run: "checked_mul amount (po_fee_numerator pool) = Some m"
    "checked_div m (po_fee_denominator pool) = Some fee" "checked_sub amount fee = Some after"
    "checked_mul (ucast rout :: u128) (ucast after) = Some p"
    "checked_add (ucast rin :: u128) (ucast after) = Some q" "checked_div p q = Some r"
    and out: "out = ucast r"
    using assms(1) unfolding swap_amount_out_def monad_iffs by blast
  note f = run(1,2) [unfolded arith_iffs] and a = run(3) [unfolded arith_iffs]
    and p = run(4) [unfolded arith_iffs, simplified] and q = run(5) [unfolded arith_iffs, simplified]
    and r = run(6) [unfolded arith_iffs]
  have "unat r < unat rout"
    using constant_product(1) [of "unat rin" "unat rout" "unat after"] assms(2,3) p q r
    by (simp add: unat_gt_0)
  then have "unat out = unat r"
    using out unat_bound [of rout] by (simp add: unat_ucast_128_64)
  then have "unat out = unat rout * unat after div (unat rin + unat after)"
    by (simp only: p q r)
  moreover have "unat after + unat amount * unat (po_fee_numerator pool)
      div unat (po_fee_denominator pool) = unat amount"
    using f a by (metis add.commute)
  ultimately show thesis
    by (rule that)
qed

lemma swap_price_bounds:
  assumes "swap_amount_out pool rin rout amount = Ok out" "rin \<noteq> 0" "rout \<noteq> 0"
  shows "unat out < unat rout \<and>
    unat rin * unat rout \<le> (unat rin + unat amount) * (unat rout - unat out)"
proof -
  obtain a where a: "unat out = unat rout * a div (unat rin + a)" "a \<le> unat amount"
    using swap_amount_out_exact [OF assms] by (metis le_add1)
  have pos: "0 < unat rin" "0 < unat rout"
    using assms(2,3) by (simp_all add: unat_gt_0)
  have lt: "unat out < unat rout"
    using constant_product(1) [OF pos] a(1) by simp
  have "unat rin * unat rout \<le> (unat rin + a) * (unat rout - unat out)"
    using constant_product(2) [OF pos] a(1) by simp
  also have "\<dots> \<le> (unat rin + unat amount) * (unat rout - unat out)"
    using a(2) by (intro mult_le_mono1) simp
  finally have "unat rin * unat rout \<le> (unat rin + unat amount) * (unat rout - unat out)" .
  with lt show ?thesis ..
qed

text \<open>
  A swap never gives away value: whatever the fee, when both reserves are non-empty the
  computed output is less than the output reserve, the narrowing to \<open>u64\<close> loses nothing, and
  the product of the reserves after the swap is at least what it was before.
\<close>

theorem swap_keeps_constant_product:
  assumes "swap_amount_out pool rin rout amount = Ok out" "rin \<noteq> 0" "rout \<noteq> 0"
  shows "unat out < unat rout \<and>
    unat rin * unat rout \<le> (unat rin + unat amount) * (unat rout - unat out)"
  using swap_price_bounds [OF assms] .

theorem swap_keeps_constant_product_witness:
  "swap_amount_out (default_pool\<lparr>po_fee_numerator := 3, po_fee_denominator := 1000\<rparr>) 10000 20000 1000 = Ok 1813
   \<and> (10000 * 20000 :: nat) \<le> (10000 + 1000) * (20000 - 1813)"
proof -
  have run: "swap_amount_out (default_pool\<lparr>po_fee_numerator := 3, po_fee_denominator := 1000\<rparr>)
      10000 20000 1000 = Ok 1813"
    by (simp add: swap_amount_out_def default_pool_def checked_mul_def checked_div_def
        checked_sub_def checked_add_def)
  show ?thesis
    using swap_keeps_constant_product [OF run] run by simp
qed

section \<open>A whole swap\<close>

lemma swap_run:
  assumes "swap_process_swap e accounts amount min_out c = (Ok accounts', c')"
  obtains pool ri ro out as1 c1 as2 c2 pool' b where
    "6 \<le> length accounts" "a_is_signer (accounts ! 5)"
    "read_at (sw_pool e) accounts 0 = Ok pool" "po_is_initialized pool"
    "read_data (tk_account (sw_token e)) (accounts ! 3) = Ok ri"
    "read_data (tk_account (sw_token e)) (accounts ! 4) = Ok ro"
    "t_amount ri \<noteq> 0" "t_amount ro \<noteq> 0"
    "swap_amount_out pool (t_amount ri) (t_amount ro) amount = Ok out" "min_out \<le> out"
    "token_cpi (sw_sha e) (sw_token e) accounts [1, 3, 5] [] (Tok_Transfer amount) c = (Ok as1, c1)"
    "token_cpi (sw_sha e) (sw_token e) as1 [4, 2, 0] [2] (Tok_Transfer out) c1 = (Ok as2, c2)"
    "sync_reserves e as2 pool = Ok pool'" "write_at (sw_pool e) pool' as2 0 = Ok accounts'"
proof -
  have *: "\<not> length accounts < 6"
    using assms by (auto simp: swap_process_swap_def)
  then have "3 < length accounts" "4 < length accounts"
    by auto
  then show thesis
    using assms * that
    by (auto simp: swap_process_swap_def Let_def monad_iffs read_data_def not_less
        simp del: write_at_Ok_iff split: if_splits)
qed


definition sample_pool :: PoolState where
  "sample_pool = default_pool\<lparr>po_token_a_reserve := 13, po_fee_numerator := 3,
     po_fee_denominator := 1000, po_is_initialized := True\<rparr>"

definition sample_swap_env :: swap_env where
  "sample_swap_env =
     \<lparr> sw_sha = (\<lambda>_. 77),
       sw_instr = table_codec [Swp_Swap 1000 1800, Swp_Deposit 1 1 1],
       sw_pool = table_codec [sample_pool, sample_pool\<lparr>po_reserve_a := 11000, po_reserve_b := 18187\<rparr>],
       sw_token =
         \<lparr> tk_instr = table_codec [Tok_Transfer 1000, Tok_Transfer 1813],
           tk_mint = table_codec [],
           tk_account = table_codec
             [sample_token_account 9 5 5000, sample_token_account 8 5 0,
              sample_token_account 9 6 10000, sample_token_account 8 6 20000,
              sample_token_account 9 5 4000, sample_token_account 8 5 1813,
              sample_token_account 9 6 11000, sample_token_account 8 6 18187] \<rparr> \<rparr>"

definition sample_swap_window :: "bytes list \<Rightarrow> accounts" where
  "sample_swap_window ds = [owned_slot 1 10 (ds ! 0), owned_slot 77 11 (ds ! 1), owned_slot 77 12 (ds ! 2),
     owned_slot 77 13 (ds ! 3), owned_slot 77 14 (ds ! 4), signer_slot 5]"

lemma sample_swap_run:
  "fst (swap_process sample_swap_env (sample_swap_window [[0], [0], [1], [2], [3]]) [0]
     \<lparr> approved = Map.empty, spent = 0, depth = 0 \<rparr>) =
   Ok (sample_swap_window [[1], [4], [5], [6], [7]])"
  by (simp add: swap_process_def swap_process_swap_def sample_swap_env_def sample_swap_window_def
      sample_pool_def default_pool_def owned_slot_def swap_amount_out_def sync_reserves_def
      checked_mul_def checked_div_def token_run cpi_run)


section \<open>Liquidity\<close>

lemma withdraw_out_Ok:
  assumes "withdraw_out reserve lp supply = Ok out" "lp \<le> supply"
  shows "unat out = unat reserve * unat lp div unat supply \<and> supply \<noteq> 0"
proof -
  obtain p q where run: "checked_mul (ucast reserve :: u128) (ucast lp) = Some p"
    "checked_div p (ucast supply) = Some q" and out: "out = ucast q"
    using assms(1) unfolding withdraw_out_def monad_iffs by blast
  have p: "unat p = unat reserve * unat lp"
    using run(1) by (simp add: checked_mul_Some_iff)
  have q: "unat q = unat p div unat supply" "supply \<noteq> 0"
    using run(2) by (auto simp: checked_div_Some_iff)
  have "unat lp \<le> unat supply"
    using assms(2) by (simp add: word_le_nat_alt)
  then have "unat reserve * unat lp \<le> unat reserve * unat supply"
    by simp
  then have "unat q \<le> unat reserve"
    using p q unat_gt_0 [of "supply"] by (metis div_le_mono nonzero_mult_div_cancel_right less_numeral_extra(3))
  then have "unat out = unat q"
    using out unat_bound [of reserve] by (simp add: unat_ucast_128_64)
  then show ?thesis
    using p q by simp
qed

lemma floor_share:
  fixes r l s :: nat
  assumes "l \<le> s" "0 < s"
  shows "r * l div s \<le> r" "r * (s - l) \<le> (r - r * l div s) * s"
proof -
  have a: "r * l div s * s \<le> r * l"
    by (simp add: div_times_less_eq_dividend)
  then have "r * l div s * s \<le> r * s"
    using assms(1) by (meson le_trans mult_le_mono2)
  then show "r * l div s \<le> r"
    using assms(2) by simp
  show "r * (s - l) \<le> (r - r * l div s) * s"
    using diff_le_mono2 [OF a, of "r * s"] by (simp add: diff_mult_distrib diff_mult_distrib2)
qed

text \<open>
  Withdrawing is fair to the liquidity that stays: for a share of at most the whole supply
  the payout fits the reserve and its type, it is at most the proportional share, and the
  reserve per remaining LP token does not fall.
\<close>

theorem withdraw_is_fair:
  assumes "withdraw_out reserve lp supply = Ok out" "lp \<le> supply"
  shows "unat out \<le> unat reserve \<and> unat out * unat supply \<le> unat reserve * unat lp
    \<and> unat reserve * (unat supply - unat lp) \<le> (unat reserve - unat out) * unat supply"
  using withdraw_out_Ok [OF assms] floor_share [of "unat lp" "unat supply" "unat reserve"] assms(2)
  by (auto simp: word_le_nat_alt unat_gt_0 div_times_less_eq_dividend)

theorem withdraw_is_fair_witness:
  "withdraw_out 1000 7 30 = Ok 233 \<and> 1000 * (30 - 7) \<le> (1000 - 233) * (30 :: nat)"
proof -
  have run: "withdraw_out 1000 7 30 = Ok 233"
    by (simp add: withdraw_out_def checked_mul_def checked_div_def)
  show ?thesis
    using withdraw_is_fair [OF run] run by simp
qed

lemma mul_div_Ok_iff:
  "mul_div a b d = Ok q \<longleftrightarrow> unat a * unat b < 2 ^ 64 \<and> d \<noteq> 0 \<and> unat q = unat a * unat b div unat d"
proof (cases "checked_mul a b")
  case None
  then have "2 ^ 64 \<le> unat a * unat b"
    by (simp add: checked_mul_None_iff)
  then show ?thesis
    using None by (simp add: mul_div_def)
next
  case (Some m)
  then have "unat m = unat a * unat b"
    by (simp add: checked_mul_Some_iff)
  then show ?thesis
    using Some unat_bound [of m] by (simp add: mul_div_def monad_iffs checked_div_Some_iff)
qed

text \<open>
  A proportional deposit never takes more of either side than the depositor allowed, adds
  to the supply exactly what it credits, and takes the proportional amount of each side
  rounded down: what is missing is less than one token.
\<close>

theorem deposit_within_bounds:
  assumes "deposit_proportional supply ra rb max_a max_b = Ok (a, b, user_lp, delta)"
  shows "unat a \<le> unat max_a \<and> unat b \<le> unat max_b \<and> delta = user_lp
    \<and> unat user_lp * unat ra < (unat a + 1) * unat supply
    \<and> unat user_lp * unat rb < (unat b + 1) * unat supply"
proof -
  obtain la lb where l: "mul_div max_a supply (max ra 1) = Ok la" "mul_div max_b supply (max rb 1) = Ok lb"
    "user_lp = min la lb" "delta = min la lb"
    and ab: "mul_div (min la lb) ra supply = Ok a" "mul_div (min la lb) rb supply = Ok b"
    using assms by (auto simp: deposit_proportional_def monad_iffs Let_def)
  have side: "unat x \<le> unat m \<and> unat user_lp * unat r < (unat x + 1) * unat supply"
    if "mul_div m supply (max r 1) = Ok lx" "mul_div user_lp r supply = Ok x" "unat user_lp \<le> unat lx"
    for m r lx x
  proof -
    have s: "0 < unat supply" and x: "unat x = unat user_lp * unat r div unat supply"
      and lx: "unat lx = unat m * unat supply div max (unat r) 1"
      using that(1,2) by (auto simp: mul_div_Ok_iff unat_gt_0)
    have "unat user_lp * unat r \<le> unat lx * max (unat r) 1"
      using that(3) by (intro mult_le_mono) auto
    also have "\<dots> \<le> unat m * unat supply"
      using lx by (simp add: div_times_less_eq_dividend)
    finally have "unat x \<le> unat m"
      using s x by (metis div_le_mono nonzero_mult_div_cancel_right less_numeral_extra(3))
    moreover have "unat user_lp * unat r < (unat x + 1) * unat supply"
      using s x by (metis Suc_eq_plus1 dividend_less_div_times mult.commute mult_Suc add.commute)
    ultimately show ?thesis ..
  qed
  show ?thesis
    using side [OF l(1) ab(1) [folded l(3)]] side [OF l(2) ab(2) [folded l(3)]] l(3,4) by simp
qed

theorem deposit_within_bounds_witness:
  "deposit_proportional 2000 1000 3000 1 2 = Ok (0, 1, 1, 1) \<and> unat (0 :: u64) \<le> unat (1 :: u64)"
proof -
  have run: "deposit_proportional 2000 1000 3000 1 2 = Ok (0, 1, 1, 1)"
    by (simp add: deposit_proportional_def mul_div_def checked_mul_def checked_div_def)
  show ?thesis
    using deposit_within_bounds [OF run] run by simp
qed

text \<open>
  The instruction that the builder makes for a swap can never succeed: it lists the pool
  as read-only, and processing a swap ends by writing the pool. For every window with the
  writability the builder declares, in every context, the program does not return.
\<close>

theorem swap_builder_never_succeeds:
  assumes "swap_env_ok e"
    and "swap_swap e pool source destination reserve_in reserve_out user amount min_out = Ok ix"
    and "map a_is_writable accounts = map am_is_writable (i_accounts ix)"
  shows "fst (swap_process e accounts (i_data ix) c) \<noteq> Ok accounts'"
proof
  assume "fst (swap_process e accounts (i_data ix) c) = Ok accounts'"
  then obtain c' where "swap_process e accounts (i_data ix) c = (Ok accounts', c')"
    by (metis prod.collapse)
  moreover have "decode (sw_instr e) (i_data ix) = Some (Swp_Swap amount min_out)"
    using assms(1,2) by (auto simp: swap_swap_def swap_env_ok_def monad_iffs dest: codec_okD)
  ultimately have run: "swap_process_swap e accounts amount min_out c = (Ok accounts', c')"
    by (simp add: swap_process_def)
  obtain p as1 c1 as2 c2 n m where
    t: "token_cpi (sw_sha e) (sw_token e) accounts [1, 3, 5] [] (Tok_Transfer n) c = (Ok as1, c1)"
      "token_cpi (sw_sha e) (sw_token e) as1 [4, 2, 0] [2] (Tok_Transfer m) c1 = (Ok as2, c2)"
    and w: "write_at (sw_pool e) p as2 0 = Ok accounts'" and len: "6 \<le> length accounts"
    using run by (elim swap_run) blast
  have "same_headers accounts as2"
    using keepsD(2) [OF token_cpi_keeps t(1)] keepsD(2) [OF token_cpi_keeps t(2)] same_headers_trans
    by blast
  then have "a_is_writable (accounts ! 0)"
    using w len by (auto simp: same_headers_def list_all2_conv_all_nth same_header_def monad_iffs)
  moreover have "map a_is_writable accounts ! 0 = False"
    using assms(2,3) by (simp add: swap_swap_def monad_iffs meta_readonly_def)
  ultimately show "False"
    using len by (cases accounts) auto
qed

theorem swap_builder_never_succeeds_witness:
  "fst (swap_process sample_swap_env
      ((sample_swap_window [[0], [0], [1], [2], [3]])[0 := (owned_slot 1 10 [0])\<lparr>a_is_writable := False\<rparr>,
         5 := (signer_slot 5)\<lparr>a_is_writable := False\<rparr>]) [0]
      \<lparr> approved = Map.empty, spent = 0, depth = 0 \<rparr>) \<noteq> Ok (sample_swap_window [[1], [4], [5], [6], [7]])"
proof -
  have ok: "swap_env_ok sample_swap_env"
    by (simp add: swap_env_ok_def token_env_ok_def sample_swap_env_def)
  have ix: "swap_swap sample_swap_env 10 11 12 13 14 5 1000 1800 = Ok
      \<lparr> i_program_id = 77, i_accounts = [meta_readonly 10 False, meta_writable 11 False,
         meta_writable 12 False, meta_writable 13 False, meta_writable 14 False, meta_readonly 5 True],
        i_data = [0] \<rparr>"
    by (simp add: swap_swap_def with_args_def sample_swap_env_def table_codec_def swap_program_def
        from_seed_def)
  from swap_builder_never_succeeds [OF ok ix,
      of "(sample_swap_window [[0], [0], [1], [2], [3]])[0 := (owned_slot 1 10 [0])\<lparr>a_is_writable := False\<rparr>,
         5 := (signer_slot 5)\<lparr>a_is_writable := False\<rparr>]"]
  show ?thesis
    by (simp add: sample_swap_window_def owned_slot_def signer_slot_def new_account_def
        meta_readonly_def meta_writable_def)
qed

end
