(* ===== verification/Oracle_Program.thy ===== *)
theory Oracle_Program
  imports Cpi
begin

text \<open>
  The price oracle, \<open>src/himsha-programs/oracle/src/lib.rs\<close>: feeds with one submission per
  publisher, the median of the fresh ones as the reported price, and the four arms of
  \<open>process\<close>. Account slots below two are in range by the length check at the top.
\<close>

section \<open>State and instructions\<close>

definition MAX_PUBLISHERS :: nat where
  "MAX_PUBLISHERS = 16"

definition BPS :: u128 where
  "BPS = 10000"

record Submission =
  sb_publisher :: Pubkey
  sb_price :: u64
  sb_publish_ts :: u64

record PriceFeed =
  pf_authority :: Pubkey
  pf_price :: u64
  pf_publish_ts :: u64
  pf_is_initialized :: bool
  pf_max_deviation_bps :: u64
  pf_max_submission_age :: u64
  pf_submissions :: "Submission list"

definition default_feed :: PriceFeed where
  "default_feed =
     \<lparr> pf_authority = default_pubkey, pf_price = 0, pf_publish_ts = 0, pf_is_initialized = False,
       pf_max_deviation_bps = 0, pf_max_submission_age = 0, pf_submissions = [] \<rparr>"

definition is_fresh :: "PriceFeed \<Rightarrow> u64 \<Rightarrow> u64 \<Rightarrow> bool" where
  "is_fresh f now max_staleness \<longleftrightarrow>
     pf_price f \<noteq> 0 \<and> saturating_sub now (pf_publish_ts f) \<le> max_staleness"

definition submission_fresh :: "PriceFeed \<Rightarrow> Submission \<Rightarrow> u64 \<Rightarrow> bool" where
  "submission_fresh f s now \<longleftrightarrow> sb_price s \<noteq> 0 \<and>
     (pf_max_submission_age f = 0 \<or> saturating_sub now (sb_publish_ts s) \<le> pf_max_submission_age f)"

definition fresh_count :: "PriceFeed \<Rightarrow> u64 \<Rightarrow> nat" where
  "fresh_count f now = length (filter (\<lambda>s. submission_fresh f s now) (pf_submissions f))"

definition fresh_quorum :: "PriceFeed \<Rightarrow> nat" where
  "fresh_quorum f = (if length (pf_submissions f) \<le> 1 then 1 else 2)"

definition fresh_median :: "PriceFeed \<Rightarrow> u64 \<Rightarrow> u64 option" where
  "fresh_median f now =
     (let prices = map sb_price (filter (\<lambda>s. submission_fresh f s now) (pf_submissions f)) in
      if prices = [] then None
      else let prices = sort prices in Some (prices ! ((length prices - 1) div 2)))"

datatype OracleInstruction =
    Orc_InitFeed u64 u64
  | Orc_UpdatePrice u64
  | Orc_AddPublisher Pubkey
  | Orc_RemovePublisher Pubkey

record oracle_env =
  or_sha :: sha256
  or_instr :: "OracleInstruction codec"
  or_feed :: "PriceFeed codec"

section \<open>Instruction builders\<close>

definition admin_ix :: "oracle_env \<Rightarrow> Pubkey \<Rightarrow> Pubkey \<Rightarrow> OracleInstruction \<Rightarrow> Instruction presult" where
  "admin_ix e feed authority ix =
     with_args (or_instr e) (oracle_program (or_sha e))
       [meta_writable feed False, meta_readonly authority True] ix"

definition init_feed :: "oracle_env \<Rightarrow> Pubkey \<Rightarrow> Pubkey \<Rightarrow> u64 \<Rightarrow> u64 \<Rightarrow> Instruction presult" where
  "init_feed e feed authority max_deviation_bps max_submission_age =
     admin_ix e feed authority (Orc_InitFeed max_deviation_bps max_submission_age)"

definition update_price :: "oracle_env \<Rightarrow> Pubkey \<Rightarrow> Pubkey \<Rightarrow> u64 \<Rightarrow> Instruction presult" where
  "update_price e feed publisher price = admin_ix e feed publisher (Orc_UpdatePrice price)"

definition add_publisher :: "oracle_env \<Rightarrow> Pubkey \<Rightarrow> Pubkey \<Rightarrow> Pubkey \<Rightarrow> Instruction presult" where
  "add_publisher e feed authority publisher = admin_ix e feed authority (Orc_AddPublisher publisher)"

definition remove_publisher :: "oracle_env \<Rightarrow> Pubkey \<Rightarrow> Pubkey \<Rightarrow> Pubkey \<Rightarrow> Instruction presult" where
  "remove_publisher e feed authority publisher =
     admin_ix e feed authority (Orc_RemovePublisher publisher)"

section \<open>Processing\<close>

text \<open>\<open>diff * BPS / old\<close> in \<open>u128\<close>: the division panics for a zero price.\<close>

definition deviation_bps :: "u64 \<Rightarrow> u64 \<Rightarrow> u128 presult" where
  "deviation_bps old new =
     (let o' = (ucast old :: u128); n' = (ucast new :: u128);
          diff = (if o' < n' then n' - o' else o' - n') in
      if o' = 0 then Panic else Ok (diff * BPS div o'))"

definition require_authority :: "PriceFeed \<Rightarrow> accounts \<Rightarrow> unit presult" where
  "require_authority feed accounts =
     rbind (index_at accounts 1) (\<lambda>a.
     rbind (require_signer a) (\<lambda>_.
     if a_key a \<noteq> pf_authority feed then Err Unauthorized else Ok ()))"

text \<open>The first submission of a publisher, overwritten: \<open>iter_mut().find(..)\<close>.\<close>

fun submit :: "Pubkey \<Rightarrow> u64 \<Rightarrow> u64 \<Rightarrow> Submission list \<Rightarrow> Submission list option" where
  "submit publisher price ts [] = None"
| "submit publisher price ts (s # ss) =
     (if sb_publisher s = publisher
      then Some (s\<lparr>sb_price := price, sb_publish_ts := ts\<rparr> # ss)
      else map_option (\<lambda>ss'. s # ss') (submit publisher price ts ss))"

definition orc_process_init_feed :: "oracle_env \<Rightarrow> accounts \<Rightarrow> u64 \<Rightarrow> u64 \<Rightarrow> accounts presult" where
  "orc_process_init_feed e accounts max_deviation_bps max_submission_age =
     rbind (require_signer (accounts ! 1)) (\<lambda>_.
     let authority = a_key (accounts ! 1) in
     rbind (unwrap_or default_feed (read_at (or_feed e) accounts 0)) (\<lambda>feed.
     if pf_is_initialized feed then Err AlreadyInitialized
     else write_at (or_feed e)
       (feed\<lparr>pf_authority := authority, pf_max_deviation_bps := max_deviation_bps,
             pf_max_submission_age := max_submission_age,
             pf_submissions := [\<lparr> sb_publisher = authority, sb_price = 0, sb_publish_ts = 0 \<rparr>],
             pf_is_initialized := True\<rparr>) accounts 0))"

definition orc_process_update_price ::
  "oracle_env \<Rightarrow> accounts \<Rightarrow> u64 \<Rightarrow> u64 \<Rightarrow> accounts presult" where
  "orc_process_update_price e accounts price timestamp =
     rbind (require_signer (accounts ! 1)) (\<lambda>_.
     rbind (read_at (or_feed e) accounts 0) (\<lambda>feed.
     if \<not> pf_is_initialized feed then Err NotInitialized
     else if price = 0 then Err InvalidInstruction
     else
       let publisher = a_key (accounts ! 1) in
       rbind (ok_or (submit publisher price timestamp (pf_submissions feed)) Unauthorized) (\<lambda>subs.
       let feed = feed\<lparr>pf_submissions := subs\<rparr> in
       if fresh_count feed timestamp < fresh_quorum feed then write_at (or_feed e) feed accounts 0
       else rbind (ok_or (fresh_median feed timestamp) StalePrice) (\<lambda>median.
       rbind (if pf_price feed \<noteq> 0 \<and> pf_max_deviation_bps feed \<noteq> 0
              then rbind (deviation_bps (pf_price feed) median) (\<lambda>d.
                   Ok (ucast (pf_max_deviation_bps feed) < d))
              else Ok False) (\<lambda>out_of_bounds.
       if out_of_bounds then Err PriceOutOfBounds
       else write_at (or_feed e) (feed\<lparr>pf_price := median, pf_publish_ts := timestamp\<rparr>)
         accounts 0)))))"

definition orc_process_add_publisher :: "oracle_env \<Rightarrow> accounts \<Rightarrow> Pubkey \<Rightarrow> accounts presult" where
  "orc_process_add_publisher e accounts publisher =
     rbind (read_at (or_feed e) accounts 0) (\<lambda>feed.
     if \<not> pf_is_initialized feed then Err NotInitialized
     else rbind (require_authority feed accounts) (\<lambda>_.
     if list_ex (\<lambda>s. sb_publisher s = publisher) (pf_submissions feed) then Err AlreadyInitialized
     else if MAX_PUBLISHERS \<le> length (pf_submissions feed) then Err InvalidInstruction
     else write_at (or_feed e)
       (feed\<lparr>pf_submissions := pf_submissions feed
          @ [\<lparr> sb_publisher = publisher, sb_price = 0, sb_publish_ts = 0 \<rparr>]\<rparr>) accounts 0))"

definition orc_process_remove_publisher :: "oracle_env \<Rightarrow> accounts \<Rightarrow> Pubkey \<Rightarrow> accounts presult" where
  "orc_process_remove_publisher e accounts publisher =
     rbind (read_at (or_feed e) accounts 0) (\<lambda>feed.
     if \<not> pf_is_initialized feed then Err NotInitialized
     else rbind (require_authority feed accounts) (\<lambda>_.
     if publisher = pf_authority feed then Err InvalidInstruction
     else
       let kept = filter (\<lambda>s. sb_publisher s \<noteq> publisher) (pf_submissions feed) in
       if length kept = length (pf_submissions feed) then Err InvalidAccountData
       else write_at (or_feed e) (feed\<lparr>pf_submissions := kept\<rparr>) accounts 0))"

definition oracle_process :: "oracle_env \<Rightarrow> u64 \<Rightarrow> accounts \<Rightarrow> bytes \<Rightarrow> accounts presult" where
  "oracle_process e timestamp accounts data =
     rbind (ok_or (decode (or_instr e) data) InvalidInstruction) (\<lambda>ix.
     if length accounts < 2 then Err NotEnoughAccounts
     else case ix of
       Orc_InitFeed max_deviation_bps max_submission_age \<Rightarrow>
         orc_process_init_feed e accounts max_deviation_bps max_submission_age
     | Orc_UpdatePrice price \<Rightarrow> orc_process_update_price e accounts price timestamp
     | Orc_AddPublisher publisher \<Rightarrow> orc_process_add_publisher e accounts publisher
     | Orc_RemovePublisher publisher \<Rightarrow> orc_process_remove_publisher e accounts publisher)"

section \<open>The contract\<close>

lemmas oracle_handler_defs =
  orc_process_init_feed_def orc_process_update_price_def orc_process_add_publisher_def
  orc_process_remove_publisher_def

lemma oracle_process_headers: "header_safe accounts (oracle_process e ts accounts data)"
  unfolding oracle_process_def oracle_handler_defs Let_def
  by (intro header_intros) (auto intro!: header_intros split: OracleInstruction.splits)

interpretation orc: himsha_program "pure_program (oracle_process e ts)" for e ts
  by (rule himsha_program_pure) (metis oracle_process_headers header_safeD)

section \<open>The median\<close>

lemma sorted_count_below:
  assumes "sorted ys" "i < length ys" "ys ! i < (lo :: 'a::linorder)"
  shows "i < length (filter (\<lambda>x. x < lo) ys)"
proof -
  have "\<forall>x \<in> set (take (Suc i) ys). x < lo"
    using assms by (auto simp: in_set_conv_nth) (meson le_less_trans less_Suc_eq_le sorted_nth_mono)
  then have "filter (\<lambda>x. x < lo) (take (Suc i) ys) = take (Suc i) ys"
    by (simp add: filter_id_conv)
  moreover have "length (filter (\<lambda>x. x < lo) (take (Suc i) ys @ drop (Suc i) ys)) \<ge>
      length (filter (\<lambda>x. x < lo) (take (Suc i) ys))"
    by (subst filter_append) simp
  ultimately show ?thesis
    using assms(2) by simp
qed

lemma sorted_count_above:
  assumes "sorted ys" "i < length ys" "(hi :: 'a::linorder) < ys ! i"
  shows "length ys - i \<le> length (filter (\<lambda>x. hi < x) ys)"
proof -
  have "\<forall>x \<in> set (drop i ys). hi < x"
    using assms by (auto simp: in_set_conv_nth) (metis add.commute le_add1 less_diff_conv less_le_trans sorted_nth_mono)
  then have "filter (\<lambda>x. hi < x) (drop i ys) = drop i ys"
    by (simp add: filter_id_conv)
  moreover have "length (filter (\<lambda>x. hi < x) (take i ys @ drop i ys)) \<ge>
      length (filter (\<lambda>x. hi < x) (drop i ys))"
    by (subst filter_append) simp
  ultimately show ?thesis
    by simp
qed

lemma length_filter_sort: "length (filter P (sort xs)) = length (filter P xs)"
  by (metis filter_sort length_sort)

lemma lower_median_between:
  fixes xs :: "'a::linorder list"
  assumes "2 * length (filter (\<lambda>x. \<not> (lo \<le> x \<and> x \<le> hi)) xs) < length xs"
  shows "lo \<le> sort xs ! ((length xs - 1) div 2) \<and> sort xs ! ((length xs - 1) div 2) \<le> hi"
proof -
  let ?m = "(length xs - 1) div 2" and ?out = "length (filter (\<lambda>x. \<not> (lo \<le> x \<and> x \<le> hi)) xs)"
  have m: "?m < length (sort xs)"
    using assms by (cases xs) auto
  have below: "length (filter (\<lambda>x. x < lo) (sort xs)) \<le> ?out"
    and above: "length (filter (\<lambda>x. hi < x) (sort xs)) \<le> ?out"
    unfolding length_filter_sort by (induction xs) auto
  have "lo \<le> sort xs ! ?m"
  proof (rule ccontr)
    assume "\<not> lo \<le> sort xs ! ?m"
    then have "?m < length (filter (\<lambda>x. x < lo) (sort xs))"
      using m by (intro sorted_count_below) auto
    then show "False"
      using below assms by linarith
  qed
  moreover have "sort xs ! ?m \<le> hi"
  proof (rule ccontr)
    assume "\<not> sort xs ! ?m \<le> hi"
    then have "length (sort xs) - ?m \<le> length (filter (\<lambda>x. hi < x) (sort xs))"
      using m by (intro sorted_count_above) auto
    then show "False"
      using above assms by simp
  qed
  ultimately show ?thesis ..
qed

text \<open>
  C28. The aggregate is robust against a minority: when less than half of the fresh submissions
  lie outside a price range, the median that the feed reports lies inside it, whatever the
  outliers are. With three fresh publishers no single one can push the price out of the range
  of the other two.
\<close>

theorem oracle_median_robust:
  assumes "fresh_median f now = Some p"
    and "2 * length (filter (\<lambda>s. \<not> (lo \<le> sb_price s \<and> sb_price s \<le> hi))
          (filter (\<lambda>s. submission_fresh f s now) (pf_submissions f))) < fresh_count f now"
  shows "lo \<le> p \<and> p \<le> hi"
proof -
  let ?xs = "map sb_price (filter (\<lambda>s. submission_fresh f s now) (pf_submissions f))"
  have "2 * length (filter (\<lambda>x. \<not> (lo \<le> x \<and> x \<le> hi)) ?xs) < length ?xs"
    using assms(2) by (simp add: fresh_count_def filter_map comp_def)
  then have "lo \<le> sort ?xs ! ((length ?xs - 1) div 2) \<and> sort ?xs ! ((length ?xs - 1) div 2) \<le> hi"
    by (rule lower_median_between)
  then show ?thesis
    using assms(1) by (auto simp: fresh_median_def Let_def split: if_splits)
qed

definition sample_feed :: "u64 \<Rightarrow> u64 list \<Rightarrow> PriceFeed" where
  "sample_feed price ps = default_feed\<lparr>pf_authority := 1, pf_price := price, pf_is_initialized := True,
     pf_max_deviation_bps := 500, pf_submissions :=
       [\<lparr> sb_publisher = 1, sb_price = ps ! 0, sb_publish_ts = 0 \<rparr>,
        \<lparr> sb_publisher = 2, sb_price = ps ! 1, sb_publish_ts = 0 \<rparr>,
        \<lparr> sb_publisher = 3, sb_price = ps ! 2, sb_publish_ts = 0 \<rparr>]\<rparr>"

theorem oracle_median_robust_witness:
  "fresh_median (sample_feed 100 [101, 1000000, 99]) 5 = Some 101 \<and> (99 :: u64) \<le> 101 \<and> (101 :: u64) \<le> 102"
proof -
  have run: "fresh_median (sample_feed 100 [101, 1000000, 99]) 5 = Some 101"
    by (simp add: fresh_median_def sample_feed_def default_feed_def submission_fresh_def Let_def)
  show ?thesis
    using oracle_median_robust [OF run, of 99 102] run
    by (simp add: fresh_count_def sample_feed_def default_feed_def submission_fresh_def)
qed

section \<open>Updates\<close>

definition price_gap :: "u64 \<Rightarrow> u64 \<Rightarrow> nat" where
  "price_gap a b = (if unat a < unat b then unat b - unat a else unat a - unat b)"

lemma deviation_bps_Ok:
  assumes "old \<noteq> 0"
  shows "\<exists>d. deviation_bps old new = Ok d \<and> unat d = price_gap old new * 10000 div unat old"
proof -
  let ?o = "ucast old :: u128" and ?n = "ucast new :: u128"
  let ?diff = "if ?o < ?n then ?n - ?o else ?o - ?n"
  have diff: "unat ?diff = price_gap old new"
    by (auto simp: price_gap_def unat_sub word_le_nat_alt word_less_nat_alt)
  have "price_gap old new < 2 ^ 64"
    using unat_bound [of old] unat_bound [of new] unfolding price_gap_def by auto
  then have "unat ?diff * unat BPS < 2 ^ LENGTH(128)"
    using diff by (simp add: BPS_def)
  then have "unat (?diff * BPS) = price_gap old new * 10000"
    using diff unat_mult_lem [of ?diff BPS] by (simp add: BPS_def)
  moreover have "?o \<noteq> 0"
    using assms by (metis unat_eqI unat_ucast_64_128 unsigned_0)
  ultimately show ?thesis
    by (auto simp: deviation_bps_def Let_def unat_div)
qed

lemma submit_Some:
  "submit k p ts ss = Some ss' \<Longrightarrow> map sb_publisher ss' = map sb_publisher ss \<and> k \<in> set (map sb_publisher ss)"
  by (induction ss arbitrary: ss') (auto split: if_splits)

lemma update_price_Ok:
  assumes "orc_process_update_price e accounts price ts = Ok accounts'"
    and "decode (or_feed e) (a_data (accounts ! 0)) = Some f"
  obtains f' subs where "a_is_signer (accounts ! 1)"
    "submit (a_key (accounts ! 1)) price ts (pf_submissions f) = Some subs"
    "write_at (or_feed e) f' accounts 0 = Ok accounts'" "pf_is_initialized f" "price \<noteq> 0"
    "f' = f\<lparr>pf_submissions := subs\<rparr> \<and> fresh_count f' ts < fresh_quorum f'
     \<or> (\<exists>m. fresh_median (f\<lparr>pf_submissions := subs\<rparr>) ts = Some m
          \<and> f' = f\<lparr>pf_submissions := subs, pf_price := m, pf_publish_ts := ts\<rparr>
          \<and> (pf_price f \<noteq> 0 \<longrightarrow> pf_max_deviation_bps f \<noteq> 0 \<longrightarrow>
               (\<exists>d. deviation_bps (pf_price f) m = Ok d \<and> d \<le> ucast (pf_max_deviation_bps f))))"
proof -
  obtain subs where s: "a_is_signer (accounts ! 1)" "pf_is_initialized f" "price \<noteq> 0"
    "submit (a_key (accounts ! 1)) price ts (pf_submissions f) = Some subs"
    and r: "(let feed = f\<lparr>pf_submissions := subs\<rparr> in
       if fresh_count feed ts < fresh_quorum feed then write_at (or_feed e) feed accounts 0
       else rbind (ok_or (fresh_median feed ts) StalePrice) (\<lambda>median.
       rbind (if pf_price feed \<noteq> 0 \<and> pf_max_deviation_bps feed \<noteq> 0
              then rbind (deviation_bps (pf_price feed) median) (\<lambda>d.
                   Ok (ucast (pf_max_deviation_bps feed) < d))
              else Ok False) (\<lambda>out_of_bounds.
       if out_of_bounds then Err PriceOutOfBounds
       else write_at (or_feed e) (feed\<lparr>pf_price := median, pf_publish_ts := ts\<rparr>)
         accounts 0))) = Ok accounts'"
    using assms unfolding orc_process_update_price_def
    by (auto simp: rbind_Ok_iff require_signer_Ok_iff read_at_Ok_iff ok_or_Ok_iff if_Err_Ok_iff Let_def)
  show thesis
  proof (cases "fresh_count (f\<lparr>pf_submissions := subs\<rparr>) ts < fresh_quorum (f\<lparr>pf_submissions := subs\<rparr>)")
    case True
    then show thesis
      using that [of subs "f\<lparr>pf_submissions := subs\<rparr>"] s r by simp
  next
    case False
    then obtain m where m: "fresh_median (f\<lparr>pf_submissions := subs\<rparr>) ts = Some m"
      and w: "write_at (or_feed e) (f\<lparr>pf_submissions := subs, pf_price := m, pf_publish_ts := ts\<rparr>)
         accounts 0 = Ok accounts'"
      and d: "pf_price f \<noteq> 0 \<longrightarrow> pf_max_deviation_bps f \<noteq> 0 \<longrightarrow>
               (\<exists>d. deviation_bps (pf_price f) m = Ok d \<and> d \<le> ucast (pf_max_deviation_bps f))"
      using r by (auto simp: Let_def rbind_Ok_iff ok_or_Ok_iff if_Err_Ok_iff not_less split: if_splits)
    then show thesis
      using that [of subs "f\<lparr>pf_submissions := subs, pf_price := m, pf_publish_ts := ts\<rparr>"] s by auto
  qed
qed


definition sample_oracle_env :: oracle_env where
  "sample_oracle_env =
     \<lparr> or_sha = (\<lambda>_. 0), or_instr = table_codec [Orc_UpdatePrice 104, Orc_AddPublisher 7],
       or_feed = table_codec [sample_feed 100 [100, 101, 103], (sample_feed 103 [104, 101, 103])
         \<lparr>pf_publish_ts := 9, pf_submissions :=
            (pf_submissions (sample_feed 103 [104, 101, 103]))[0 := \<lparr> sb_publisher = 1, sb_price = 104, sb_publish_ts = 9 \<rparr>]\<rparr>] \<rparr>"

definition sample_feed_window :: "bytes \<Rightarrow> accounts" where
  "sample_feed_window b = [(new_account 20 0 0 0)\<lparr>a_data := b\<rparr>, (new_account 1 0 0 0)\<lparr>a_is_signer := True\<rparr>]"

lemma sample_oracle_run:
  "oracle_process sample_oracle_env 9 (sample_feed_window [0]) [0] = Ok (sample_feed_window [1])"
  by (simp add: oracle_process_def orc_process_update_price_def sample_oracle_env_def table_codec_def
      sample_feed_window_def sample_feed_def default_feed_def new_account_def require_signer_def
      read_at_def read_data_def write_at_def write_data_def fresh_count_def fresh_quorum_def
      fresh_median_def submission_fresh_def deviation_bps_def BPS_def Let_def)


section \<open>The publisher set\<close>

text \<open>
  A well-formed feed: once initialized it has at most the maximum of publishers, no publisher
  twice, and its authority among them.
\<close>

definition feed_wf :: "PriceFeed \<Rightarrow> bool" where
  "feed_wf f \<longleftrightarrow> (pf_is_initialized f \<longrightarrow>
     distinct (map sb_publisher (pf_submissions f))
     \<and> pf_authority f \<in> set (map sb_publisher (pf_submissions f))
     \<and> length (pf_submissions f) \<le> MAX_PUBLISHERS)"

text \<open>What an instruction writes: an initialized, well-formed feed in the first account.\<close>

definition writes_wf :: "oracle_env \<Rightarrow> accounts \<Rightarrow> accounts \<Rightarrow> bool" where
  "writes_wf e accounts accounts' \<longleftrightarrow>
     (\<exists>f. write_at (or_feed e) f accounts 0 = Ok accounts' \<and> pf_is_initialized f \<and> feed_wf f)"

lemma writes_wfI:
  "write_at (or_feed e) f accounts 0 = Ok accounts' \<Longrightarrow> pf_is_initialized f \<Longrightarrow> feed_wf f \<Longrightarrow> writes_wf e accounts accounts'"
  by (auto simp: writes_wf_def)

lemma feed_wf_price [simp]: "feed_wf (f\<lparr>pf_price := m, pf_publish_ts := t\<rparr>) \<longleftrightarrow> feed_wf f"
  by (simp add: feed_wf_def)

lemma feed_wf_submit:
  assumes "submit k p ts (pf_submissions f) = Some subs"
  shows "feed_wf (f\<lparr>pf_submissions := subs\<rparr>) \<longleftrightarrow> feed_wf f"
proof -
  have pubs: "map sb_publisher subs = map sb_publisher (pf_submissions f)"
    using submit_Some [OF assms] by simp
  then show ?thesis
    using map_eq_imp_length_eq [OF pubs] by (simp add: feed_wf_def del: list.set_map)
qed

lemma init_feed_wf:
  assumes "orc_process_init_feed e accounts d a = Ok accounts'"
  shows "writes_wf e accounts accounts'"
proof -
  obtain x where "write_at (or_feed e) (x\<lparr>pf_authority := a_key (accounts ! 1), pf_max_deviation_bps := d,
      pf_max_submission_age := a, pf_submissions := [\<lparr> sb_publisher = a_key (accounts ! 1), sb_price = 0, sb_publish_ts = 0 \<rparr>],
      pf_is_initialized := True\<rparr>) accounts 0 = Ok accounts'"
    using assms by (auto simp: orc_process_init_feed_def rbind_Ok_iff if_Err_Ok_iff Let_def)
  then show ?thesis
    by (rule writes_wfI) (simp_all add: feed_wf_def MAX_PUBLISHERS_def)
qed

lemma update_price_wf:
  assumes "orc_process_update_price e accounts p ts = Ok accounts'"
    and "decode (or_feed e) (a_data (accounts ! 0)) = Some f" "feed_wf f"
  shows "writes_wf e accounts accounts'"
proof -
  obtain f' subs where "write_at (or_feed e) f' accounts 0 = Ok accounts'"
    "submit (a_key (accounts ! 1)) p ts (pf_submissions f) = Some subs" "pf_is_initialized f"
    "f' = f\<lparr>pf_submissions := subs\<rparr> \<or> (\<exists>m. f' = f\<lparr>pf_submissions := subs, pf_price := m, pf_publish_ts := ts\<rparr>)"
    using assms(1,2) by (elim update_price_Ok) blast+
  then show ?thesis
    using assms(3) by (intro writes_wfI [of e f']) (auto simp: feed_wf_submit)
qed

lemma add_publisher_wf:
  assumes "orc_process_add_publisher e accounts k = Ok accounts'"
    and "decode (or_feed e) (a_data (accounts ! 0)) = Some f" "feed_wf f"
  shows "writes_wf e accounts accounts'"
proof -
  have f: "pf_is_initialized f" "\<forall>s \<in> set (pf_submissions f). sb_publisher s \<noteq> k" "length (pf_submissions f) < MAX_PUBLISHERS"
    and w: "write_at (or_feed e) (f\<lparr>pf_submissions := pf_submissions f
        @ [\<lparr> sb_publisher = k, sb_price = 0, sb_publish_ts = 0 \<rparr>]\<rparr>) accounts 0 = Ok accounts'"
    using assms(1,2) by (auto simp: orc_process_add_publisher_def rbind_Ok_iff if_Err_Ok_iff read_at_Ok_iff list_ex_iff not_le)
  show ?thesis
    using w by (rule writes_wfI) (use f assms(3) in \<open>auto simp: feed_wf_def\<close>)
qed

lemma remove_publisher_wf:
  assumes "orc_process_remove_publisher e accounts k = Ok accounts'"
    and "decode (or_feed e) (a_data (accounts ! 0)) = Some f" "feed_wf f"
  shows "writes_wf e accounts accounts'"
proof -
  have f: "pf_is_initialized f" "k \<noteq> pf_authority f"
    and w: "write_at (or_feed e) (f\<lparr>pf_submissions := filter (\<lambda>s. sb_publisher s \<noteq> k) (pf_submissions f)\<rparr>) accounts 0 = Ok accounts'"
    using assms(1,2) by (auto simp: orc_process_remove_publisher_def rbind_Ok_iff if_Err_Ok_iff read_at_Ok_iff Let_def)
  show ?thesis
    using w
    by (rule writes_wfI) (use f assms(3) in \<open>auto simp: feed_wf_def distinct_map_filter intro: le_trans [OF length_filter_le]\<close>)
qed

text \<open>
  C30. No instruction of the oracle breaks the publisher set: whatever the account held before,
  if what it decodes to was well-formed then the feed it holds after a successful instruction
  is initialized and well-formed.
\<close>

theorem oracle_keeps_feed_wf:
  assumes "codec_ok (or_feed e)" "oracle_process e ts accounts data = Ok accounts'"
    and "case decode (or_feed e) (a_data (accounts ! 0)) of Some f \<Rightarrow> feed_wf f | None \<Rightarrow> True"
  shows "\<exists>f'. read_at (or_feed e) accounts' 0 = Ok f' \<and> pf_is_initialized f' \<and> feed_wf f'"
proof -
  obtain ix where ix: "decode (or_instr e) data = Some ix"
    using assms(2) by (auto simp: oracle_process_def monad_iffs)
  have "writes_wf e accounts accounts'"
  proof (cases "\<exists>d a. ix = Orc_InitFeed d a")
    case True
    then show ?thesis
      using assms(2) ix by (auto simp: oracle_process_def if_Err_Ok_iff intro: init_feed_wf)
  next
    case False
    then obtain f where "decode (or_feed e) (a_data (accounts ! 0)) = Some f"
      using assms(2) ix
      by (cases ix) (auto simp: oracle_process_def orc_process_update_price_def orc_process_add_publisher_def
          orc_process_remove_publisher_def rbind_Ok_iff if_Err_Ok_iff read_at_Ok_iff)
    moreover from this have "feed_wf f"
      using assms(3) by simp
    ultimately show ?thesis
      using assms(2) ix False
      by (cases ix) (auto simp: oracle_process_def if_Err_Ok_iff intro: update_price_wf add_publisher_wf remove_publisher_wf)
  qed
  then show ?thesis
    using assms(1) by (auto simp: writes_wf_def monad_iffs dest: codec_okD)
qed

theorem oracle_keeps_feed_wf_witness:
  "\<exists>f'. read_at (or_feed sample_oracle_env) (sample_feed_window [1]) 0 = Ok f'
    \<and> pf_is_initialized f' \<and> feed_wf f'"
proof (rule oracle_keeps_feed_wf [OF _ sample_oracle_run])
  show "codec_ok (or_feed sample_oracle_env)"
    by (simp add: sample_oracle_env_def)
  show "case decode (or_feed sample_oracle_env) (a_data (sample_feed_window [0] ! 0)) of
      None \<Rightarrow> True | Some f \<Rightarrow> feed_wf f"
    by (simp add: sample_oracle_env_def sample_feed_window_def table_codec_def new_account_def
        feed_wf_def sample_feed_def default_feed_def MAX_PUBLISHERS_def)
qed

end
