(* ===== verification/Nft_Program.thy ===== *)
theory Nft_Program
  imports Cpi
begin

text \<open>
  The NFT metadata program, \<open>src/himsha-programs/nft-metadata/src/lib.rs\<close>. A Rust
  \<open>String\<close> is its UTF-8 bytes. The sum of creator shares is a \<open>u16\<close> and wraps.
\<close>

section \<open>State and instructions\<close>

record Creator =
  cr_address :: Pubkey
  cr_share :: u8
  cr_verified :: bool

record Metadata =
  md_mint :: Pubkey
  md_update_authority :: Pubkey
  md_name :: bytes
  md_symbol :: bytes
  md_uri :: bytes
  md_seller_fee_basis_points :: u16
  md_creators :: "Creator list"
  md_is_mutable :: bool

datatype MetadataInstruction =
    Md_Create bytes bytes bytes u16 "Creator list"
  | Md_Update "bytes option" "bytes option" "u16 option"
  | Md_VerifyCreator
  | Md_MakeImmutable

record nft_env =
  nf_sha :: sha256
  nf_instr :: "MetadataInstruction codec"
  nf_meta :: "Metadata codec"

definition create_metadata ::
  "nft_env \<Rightarrow> Pubkey \<Rightarrow> Pubkey \<Rightarrow> Pubkey \<Rightarrow> bytes \<Rightarrow> bytes \<Rightarrow> bytes \<Rightarrow> u16 \<Rightarrow> Creator list
     \<Rightarrow> Instruction presult" where
  "create_metadata e metadata_account mint update_authority name symbol uri fee creators =
     (if 32 < length name \<or> 10 < length symbol \<or> 200 < length uri then Panic
      else with_args (nf_instr e) (nft_metadata_program (nf_sha e))
        [meta_writable metadata_account False, meta_readonly mint False,
         meta_readonly update_authority True]
        (Md_Create name symbol uri fee creators))"

definition update_metadata ::
  "nft_env \<Rightarrow> Pubkey \<Rightarrow> Pubkey \<Rightarrow> bytes option \<Rightarrow> bytes option \<Rightarrow> u16 option \<Rightarrow> Instruction presult" where
  "update_metadata e metadata_account update_authority name uri fee =
     with_args (nf_instr e) (nft_metadata_program (nf_sha e))
       [meta_writable metadata_account False, meta_readonly update_authority True]
       (Md_Update name uri fee)"

section \<open>Processing\<close>

definition creator_share_sum :: "Creator list \<Rightarrow> u16" where
  "creator_share_sum creators = sum_list (map (\<lambda>c. ucast (cr_share c)) creators)"

definition md_process_create ::
  "nft_env \<Rightarrow> accounts \<Rightarrow> bytes \<Rightarrow> bytes \<Rightarrow> bytes \<Rightarrow> u16 \<Rightarrow> Creator list \<Rightarrow> accounts presult" where
  "md_process_create e accounts name symbol uri fee creators =
     rbind (index_at accounts 1) (\<lambda>mint_acc.
     rbind (index_at accounts 2) (\<lambda>authority_acc.
     rbind (index_at accounts 0) (\<lambda>meta_acc.
     if (case decode (nf_meta e) (a_data meta_acc) of Some m \<Rightarrow> md_name m \<noteq> [] | None \<Rightarrow> False)
     then Err AlreadyInitialized
     else if creators \<noteq> [] \<and> creator_share_sum creators \<noteq> 100 then Err InvalidInstruction
     else write_at (nf_meta e)
       \<lparr> md_mint = a_key mint_acc, md_update_authority = a_key authority_acc, md_name = name,
         md_symbol = symbol, md_uri = uri, md_seller_fee_basis_points = fee,
         md_creators = creators, md_is_mutable = True \<rparr> accounts 0)))"

definition md_process_update ::
  "nft_env \<Rightarrow> accounts \<Rightarrow> bytes option \<Rightarrow> bytes option \<Rightarrow> u16 option \<Rightarrow> accounts presult" where
  "md_process_update e accounts name uri fee =
     rbind (read_at (nf_meta e) accounts 0) (\<lambda>meta.
     if \<not> md_is_mutable meta then Err Unauthorized
     else rbind (index_at accounts 1) (\<lambda>auth.
     if a_key auth \<noteq> md_update_authority meta then Err Unauthorized
     else
       let meta = (case name of Some n \<Rightarrow> meta\<lparr>md_name := n\<rparr> | None \<Rightarrow> meta);
           meta = (case uri of Some u \<Rightarrow> meta\<lparr>md_uri := u\<rparr> | None \<Rightarrow> meta);
           meta = (case fee of Some f \<Rightarrow> meta\<lparr>md_seller_fee_basis_points := f\<rparr> | None \<Rightarrow> meta) in
       write_at (nf_meta e) meta accounts 0))"

definition md_process_verify_creator :: "nft_env \<Rightarrow> accounts \<Rightarrow> accounts presult" where
  "md_process_verify_creator e accounts =
     rbind (read_at (nf_meta e) accounts 0) (\<lambda>meta.
     rbind (index_at accounts 1) (\<lambda>signer.
     write_at (nf_meta e)
       (meta\<lparr>md_creators := map (\<lambda>c. if cr_address c = a_key signer then c\<lparr>cr_verified := True\<rparr> else c)
               (md_creators meta)\<rparr>) accounts 0))"

definition md_process_make_immutable :: "nft_env \<Rightarrow> accounts \<Rightarrow> accounts presult" where
  "md_process_make_immutable e accounts =
     rbind (read_at (nf_meta e) accounts 0) (\<lambda>meta.
     rbind (index_at accounts 1) (\<lambda>auth.
     if a_key auth \<noteq> md_update_authority meta then Err Unauthorized
     else write_at (nf_meta e) (meta\<lparr>md_is_mutable := False\<rparr>) accounts 0))"

definition nft_process :: "nft_env \<Rightarrow> accounts \<Rightarrow> bytes \<Rightarrow> accounts presult" where
  "nft_process e accounts data =
     rbind (ok_or (decode (nf_instr e) data) InvalidInstruction) (\<lambda>ix. case ix of
       Md_Create name symbol uri fee creators \<Rightarrow>
         md_process_create e accounts name symbol uri fee creators
     | Md_Update name uri fee \<Rightarrow> md_process_update e accounts name uri fee
     | Md_VerifyCreator \<Rightarrow> md_process_verify_creator e accounts
     | Md_MakeImmutable \<Rightarrow> md_process_make_immutable e accounts)"

section \<open>The contract\<close>

lemmas nft_handler_defs =
  md_process_create_def md_process_update_def md_process_verify_creator_def
  md_process_make_immutable_def

lemma nft_process_headers:
  assumes "nft_process e accounts data = Ok accounts'"
  shows "same_headers accounts accounts'"
proof -
  obtain ix where "decode (nf_instr e) data = Some ix"
    using assms by (auto simp: nft_process_def monad_iffs)
  then show ?thesis
    using assms by (cases ix) (auto simp: nft_process_def nft_handler_defs monad_iffs Let_def
        split: if_splits)
qed

interpretation nft: himsha_program "pure_program (nft_process e)" for e
  by (rule himsha_program_pure) (rule nft_process_headers)

section \<open>Properties\<close>

text \<open>
  Metadata made immutable stays as it is: an update, by anyone and of any field, is
  refused, and an update that goes through was made with the recorded authority's account and
  changed nothing but the name, the link and the fee.
\<close>

theorem nft_update_respects_immutability:
  assumes "codec_ok (nf_meta e)" "decode (nf_instr e) data = Some (Md_Update name uri fee)"
    and "decode (nf_meta e) (a_data (accounts ! 0)) = Some m" "accounts \<noteq> []"
  shows "(\<not> md_is_mutable m \<longrightarrow> nft_process e accounts data = Err Unauthorized)
    \<and> (\<forall>accounts'. nft_process e accounts data = Ok accounts' \<longrightarrow>
         a_key (accounts ! 1) = md_update_authority m
         \<and> (\<exists>m'. read_at (nf_meta e) accounts' 0 = Ok m'
              \<and> m' = m\<lparr>md_name := md_name m', md_uri := md_uri m',
                       md_seller_fee_basis_points := md_seller_fee_basis_points m'\<rparr>))"
proof -
  have run: "nft_process e accounts data = md_process_update e accounts name uri fee"
    using assms(2) by (simp add: nft_process_def)
  have rd: "read_at (nf_meta e) accounts 0 = Ok m"
    using assms(3,4) by (simp add: read_at_def read_data_def)
  have "md_process_update e accounts name uri fee = Err Unauthorized" if "\<not> md_is_mutable m"
    using that rd by (simp add: md_process_update_def)
  moreover have "a_key (accounts ! 1) = md_update_authority m
         \<and> (\<exists>m'. read_at (nf_meta e) accounts' 0 = Ok m'
              \<and> m' = m\<lparr>md_name := md_name m', md_uri := md_uri m',
                       md_seller_fee_basis_points := md_seller_fee_basis_points m'\<rparr>)"
    if upd: "md_process_update e accounts name uri fee = Ok accounts'" for accounts'
  proof -
    obtain m' where m': "write_at (nf_meta e) m' accounts 0 = Ok accounts'"
      "a_key (accounts ! 1) = md_update_authority m"
      "m' = m\<lparr>md_name := md_name m', md_uri := md_uri m',
             md_seller_fee_basis_points := md_seller_fee_basis_points m'\<rparr>"
      using upd rd by (cases name; cases uri; cases fee)
        (auto simp: md_process_update_def rbind_Ok_iff if_Err_Ok_iff index_at_Ok_iff Let_def)
    then have "read_at (nf_meta e) accounts' 0 = Ok m'"
      using assms(1) by (auto simp: monad_iffs dest: codec_okD)
    then show ?thesis
      using m' by blast
  qed
  ultimately show ?thesis
    by (simp add: run)
qed

definition sample_meta :: "bool \<Rightarrow> Metadata" where
  "sample_meta mut = \<lparr> md_mint = 9, md_update_authority = 5, md_name = [65], md_symbol = [66],
     md_uri = [], md_seller_fee_basis_points = 500,
     md_creators = [\<lparr> cr_address = 6, cr_share = 100, cr_verified = False \<rparr>], md_is_mutable = mut \<rparr>"

definition sample_nft_env :: nft_env where
  "sample_nft_env = \<lparr> nf_sha = (\<lambda>_. 0),
     nf_instr = table_codec [Md_Update (Some [67]) None None, Md_VerifyCreator, Md_MakeImmutable],
     nf_meta = table_codec [sample_meta True, sample_meta False, (sample_meta True)\<lparr>md_creators :=
       [\<lparr> cr_address = 6, cr_share = 100, cr_verified = True \<rparr>]\<rparr>] \<rparr>"

lemmas nft_run = nft_process_def nft_handler_defs sample_nft_env_def sample_meta_def table_codec_def
  new_account_def read_at_def read_data_def write_at_def write_data_def index_at_def

theorem nft_update_respects_immutability_witness:
  "nft_process sample_nft_env [(new_account 1 0 0 0)\<lparr>a_data := [1]\<rparr>, new_account 5 0 0 0] [0] = Err Unauthorized"
  using nft_update_respects_immutability [of sample_nft_env "[0]" "Some [67]" None None
      "[(new_account 1 0 0 0)\<lparr>a_data := [1]\<rparr>, new_account 5 0 0 0]" "sample_meta False"]
  by (simp add: nft_run)

text \<open>
  The metadata program never looks at a signature: whatever succeeds with the signatures a
  transaction carries succeeds, with the same effect, when no account signed. Updating,
  freezing and verifying a creator are open to anyone who names the right account.
\<close>

theorem nft_needs_no_signature:
  assumes "nft_process e accounts data = Ok accounts'"
  shows "nft_process e (map (\<lambda>a. a\<lparr>a_is_signer := False\<rparr>) accounts) data =
    Ok (map (\<lambda>a. a\<lparr>a_is_signer := False\<rparr>) accounts')"
proof -
  let ?u = "map (\<lambda>a. a\<lparr>a_is_signer := False\<rparr>)"
  have w: "write_at c v (?u accounts) 0 = Ok (?u accounts')"
    if "write_at c v accounts 0 = Ok accounts'" for c :: "Metadata codec" and v
    using that by (cases accounts) (auto simp: monad_iffs)
  have r: "read_at (nf_meta e) (?u accounts) 0 = read_at (nf_meta e) accounts 0"
    by (cases accounts) (auto simp: read_at_def read_data_def index_at_def)
  have i: "i < length accounts \<Longrightarrow> a_key (?u accounts ! i) = a_key (accounts ! i)
      \<and> a_data (?u accounts ! i) = a_data (accounts ! i)" for i
    by simp
  obtain ix where "decode (nf_instr e) data = Some ix"
    using assms by (auto simp: nft_process_def monad_iffs)
  then show ?thesis
    using assms i
    by (cases ix) (auto simp: nft_process_def nft_handler_defs rbind_Ok_iff if_Err_Ok_iff Let_def
        index_at_def r intro!: w split: if_splits)
qed

theorem nft_needs_no_signature_witness:
  "nft_process sample_nft_env [(new_account 1 0 0 0)\<lparr>a_data := [0]\<rparr>, new_account 6 0 0 0] [1] =
     Ok [(new_account 1 0 0 0)\<lparr>a_data := [2]\<rparr>, new_account 6 0 0 0]"
proof -
  have run: "nft_process sample_nft_env [(new_account 1 0 0 0)\<lparr>a_data := [0]\<rparr>,
      (new_account 6 0 0 0)\<lparr>a_is_signer := True\<rparr>] [1] =
     Ok [(new_account 1 0 0 0)\<lparr>a_data := [2]\<rparr>, (new_account 6 0 0 0)\<lparr>a_is_signer := True\<rparr>]"
    by (simp add: nft_run)
  show ?thesis
    using nft_needs_no_signature [OF run] by (simp add: new_account_def)
qed

end
