(* ===== verification/Runes_Program.thy ===== *)
theory Runes_Program
  imports Cpi
begin

text \<open>
  The Runes program, \<open>src/himsha-programs/runes/src/lib.rs\<close>: etchings with optional
  open-mint terms, per-holder balances, the builders and the five arms of \<open>process\<close>. A Rust
  \<open>String\<close> is its UTF-8 bytes.
\<close>

section \<open>State and instructions\<close>

record MintTerms =
  mt_amount :: u64
  mt_cap :: u64
  mt_mints :: u64
  mt_start :: u64
  mt_end :: u64

record RuneEtching =
  ru_name :: bytes
  ru_symbol :: u32
  ru_divisibility :: u8
  ru_etcher :: Pubkey
  ru_premine :: u64
  ru_terms :: "MintTerms option"
  ru_minted :: u64
  ru_burned :: u64
  ru_is_etched :: bool

record RuneBalance =
  rb_rune :: Pubkey
  rb_owner :: Pubkey
  rb_amount :: u64
  rb_is_initialized :: bool

definition default_rune :: RuneEtching where
  "default_rune =
     \<lparr> ru_name = [], ru_symbol = 0, ru_divisibility = 0, ru_etcher = default_pubkey,
       ru_premine = 0, ru_terms = None, ru_minted = 0, ru_burned = 0, ru_is_etched = False \<rparr>"

definition default_balance :: RuneBalance where
  "default_balance =
     \<lparr> rb_rune = default_pubkey, rb_owner = default_pubkey, rb_amount = 0,
       rb_is_initialized = False \<rparr>"

definition circulating :: "RuneEtching \<Rightarrow> u64" where
  "circulating r = saturating_sub (ru_minted r) (ru_burned r)"

datatype RuneInstruction =
    Rn_Etch bytes u32 u8 u64 "MintTerms option"
  | Rn_Mint
  | Rn_Transfer u64
  | Rn_Burn u64
  | Rn_InitBalance

definition MAX_DIVISIBILITY :: u8 where
  "MAX_DIVISIBILITY = 38"

record runes_env =
  rn_sha :: sha256
  rn_instr :: "RuneInstruction codec"
  rn_rune :: "RuneEtching codec"
  rn_balance :: "RuneBalance codec"

definition runes_env_ok :: "runes_env \<Rightarrow> bool" where
  "runes_env_ok e \<longleftrightarrow> codec_ok (rn_instr e) \<and> codec_ok (rn_rune e) \<and> codec_ok (rn_balance e)"

section \<open>Instruction builders\<close>

definition runes_etch ::
  "runes_env \<Rightarrow> Pubkey \<Rightarrow> Pubkey \<Rightarrow> Pubkey \<Rightarrow> bytes \<Rightarrow> u32 \<Rightarrow> u8 \<Rightarrow> u64 \<Rightarrow> MintTerms option
     \<Rightarrow> Instruction presult" where
  "runes_etch e rune etcher_balance etcher name symbol divisibility premine terms =
     with_args (rn_instr e) (runes_program (rn_sha e))
       [meta_writable rune False, meta_writable etcher_balance False, meta_readonly etcher True]
       (Rn_Etch name symbol divisibility premine terms)"

definition runes_mint :: "runes_env \<Rightarrow> Pubkey \<Rightarrow> Pubkey \<Rightarrow> Pubkey \<Rightarrow> Instruction presult" where
  "runes_mint e rune destination minter =
     with_args (rn_instr e) (runes_program (rn_sha e))
       [meta_writable rune False, meta_writable destination False, meta_readonly minter True] Rn_Mint"

definition runes_transfer :: "runes_env \<Rightarrow> Pubkey \<Rightarrow> Pubkey \<Rightarrow> Pubkey \<Rightarrow> u64 \<Rightarrow> Instruction presult" where
  "runes_transfer e source destination owner amount =
     with_args (rn_instr e) (runes_program (rn_sha e))
       [meta_writable source False, meta_writable destination False, meta_readonly owner True]
       (Rn_Transfer amount)"

definition runes_burn :: "runes_env \<Rightarrow> Pubkey \<Rightarrow> Pubkey \<Rightarrow> Pubkey \<Rightarrow> u64 \<Rightarrow> Instruction presult" where
  "runes_burn e rune source owner amount =
     with_args (rn_instr e) (runes_program (rn_sha e))
       [meta_writable rune False, meta_writable source False, meta_readonly owner True]
       (Rn_Burn amount)"

definition runes_init_balance :: "runes_env \<Rightarrow> Pubkey \<Rightarrow> Pubkey \<Rightarrow> Instruction presult" where
  "runes_init_balance e balance owner =
     with_args (rn_instr e) (runes_program (rn_sha e))
       [meta_writable balance False, meta_readonly owner False] Rn_InitBalance"

section \<open>Processing\<close>

definition rn_process_etch ::
  "runes_env \<Rightarrow> accounts \<Rightarrow> bytes \<Rightarrow> u32 \<Rightarrow> u8 \<Rightarrow> u64 \<Rightarrow> MintTerms option \<Rightarrow> accounts presult" where
  "rn_process_etch e accounts name symbol divisibility premine terms =
     (if length accounts < 3 then Err NotEnoughAccounts
      else rbind (require_signer (accounts ! 2)) (\<lambda>_.
      if name = [] then Err InvalidInstruction
      else if MAX_DIVISIBILITY < divisibility then Err InvalidInstruction
      else
        let rune_key = a_key (accounts ! 0); etcher = a_key (accounts ! 2) in
        rbind (unwrap_or default_rune (read_at (rn_rune e) accounts 0)) (\<lambda>rune.
        if ru_is_etched rune then Err AlreadyInitialized
        else rbind (write_at (rn_rune e)
          (rune\<lparr>ru_name := name, ru_symbol := symbol, ru_divisibility := divisibility,
                ru_etcher := etcher, ru_premine := premine, ru_terms := terms,
                ru_minted := premine, ru_burned := 0, ru_is_etched := True\<rparr>) accounts 0) (\<lambda>accounts.
        if 0 < premine then
          rbind (unwrap_or default_balance (read_at (rn_balance e) accounts 1)) (\<lambda>bal.
          rbind (ok_or (checked_add (rb_amount bal) premine) Overflow) (\<lambda>amount.
          write_at (rn_balance e)
            (bal\<lparr>rb_rune := rune_key, rb_owner := etcher, rb_amount := amount,
                 rb_is_initialized := True\<rparr>) accounts 1))
        else Ok accounts))))"

definition rn_process_mint :: "runes_env \<Rightarrow> accounts \<Rightarrow> u64 \<Rightarrow> accounts presult" where
  "rn_process_mint e accounts timestamp =
     (if length accounts < 3 then Err NotEnoughAccounts
      else rbind (require_signer (accounts ! 2)) (\<lambda>_.
      let rune_key = a_key (accounts ! 0) in
      rbind (read_at (rn_rune e) accounts 0) (\<lambda>rune.
      if \<not> ru_is_etched rune then Err NotInitialized
      else rbind (ok_or (ru_terms rune) Unauthorized) (\<lambda>terms.
      if mt_cap terms \<noteq> 0 \<and> mt_cap terms \<le> mt_mints terms then Err Unauthorized
      else if mt_start terms \<noteq> 0 \<and> timestamp < mt_start terms then Err Unauthorized
      else if mt_end terms \<noteq> 0 \<and> mt_end terms < timestamp then Err LoanExpired
      else
        let amount = mt_amount terms in
        rbind (ok_or (checked_add (mt_mints terms) 1) Overflow) (\<lambda>mints.
        rbind (ok_or (checked_add (ru_minted rune) amount) Overflow) (\<lambda>minted.
        rbind (write_at (rn_rune e)
          (rune\<lparr>ru_terms := Some (terms\<lparr>mt_mints := mints\<rparr>), ru_minted := minted\<rparr>) accounts 0) (\<lambda>accounts.
        rbind (unwrap_or default_balance (read_at (rn_balance e) accounts 1)) (\<lambda>bal.
        let bal = bal\<lparr>rb_rune := rune_key\<rparr>;
            bal = (if rb_owner bal = default_pubkey then bal\<lparr>rb_owner := a_key (accounts ! 2)\<rparr> else bal) in
        rbind (ok_or (checked_add (rb_amount bal) amount) Overflow) (\<lambda>total.
        write_at (rn_balance e) (bal\<lparr>rb_amount := total, rb_is_initialized := True\<rparr>) accounts 1)))))))))"

definition rn_process_transfer :: "runes_env \<Rightarrow> accounts \<Rightarrow> u64 \<Rightarrow> accounts presult" where
  "rn_process_transfer e accounts amount =
     (if length accounts < 3 then Err NotEnoughAccounts
      else rbind (require_signer (accounts ! 2)) (\<lambda>_.
      rbind (read_at (rn_balance e) accounts 0) (\<lambda>src.
      if \<not> rb_is_initialized src then Err NotInitialized
      else rbind (unwrap_or default_balance (read_at (rn_balance e) accounts 1)) (\<lambda>dst.
      if rb_is_initialized dst \<and> rb_rune dst \<noteq> rb_rune src then Err InvalidAccountData
      else rbind (ok_or (checked_sub (rb_amount src) amount) InsufficientFunds) (\<lambda>left.
      let dst = dst\<lparr>rb_rune := rb_rune src\<rparr>;
          dst = (if rb_owner dst = default_pubkey then dst\<lparr>rb_owner := a_key (accounts ! 1)\<rparr> else dst) in
      rbind (ok_or (checked_add (rb_amount dst) amount) Overflow) (\<lambda>total.
      rbind (write_at (rn_balance e) (src\<lparr>rb_amount := left\<rparr>) accounts 0) (\<lambda>accounts.
      write_at (rn_balance e) (dst\<lparr>rb_amount := total, rb_is_initialized := True\<rparr>) accounts 1)))))))"

definition rn_process_burn :: "runes_env \<Rightarrow> accounts \<Rightarrow> u64 \<Rightarrow> accounts presult" where
  "rn_process_burn e accounts amount =
     (if length accounts < 3 then Err NotEnoughAccounts
      else rbind (require_signer (accounts ! 2)) (\<lambda>_.
      rbind (read_at (rn_rune e) accounts 0) (\<lambda>rune.
      rbind (read_at (rn_balance e) accounts 1) (\<lambda>src.
      if \<not> rb_is_initialized src then Err NotInitialized
      else rbind (ok_or (checked_sub (rb_amount src) amount) InsufficientFunds) (\<lambda>left.
      rbind (ok_or (checked_add (ru_burned rune) amount) Overflow) (\<lambda>burned.
      rbind (write_at (rn_rune e) (rune\<lparr>ru_burned := burned\<rparr>) accounts 0) (\<lambda>accounts.
      write_at (rn_balance e) (src\<lparr>rb_amount := left\<rparr>) accounts 1)))))))"

definition rn_process_init_balance :: "runes_env \<Rightarrow> accounts \<Rightarrow> accounts presult" where
  "rn_process_init_balance e accounts =
     (if length accounts < 2 then Err NotEnoughAccounts
      else
        let owner = a_key (accounts ! 1) in
        rbind (unwrap_or default_balance (read_at (rn_balance e) accounts 0)) (\<lambda>bal.
        if rb_is_initialized bal then Err AlreadyInitialized
        else write_at (rn_balance e) (bal\<lparr>rb_owner := owner, rb_is_initialized := True\<rparr>) accounts 0))"

definition runes_process :: "runes_env \<Rightarrow> u64 \<Rightarrow> accounts \<Rightarrow> bytes \<Rightarrow> accounts presult" where
  "runes_process e timestamp accounts data =
     rbind (ok_or (decode (rn_instr e) data) InvalidInstruction) (\<lambda>ix. case ix of
       Rn_Etch name symbol divisibility premine terms \<Rightarrow>
         rn_process_etch e accounts name symbol divisibility premine terms
     | Rn_Mint \<Rightarrow> rn_process_mint e accounts timestamp
     | Rn_Transfer amount \<Rightarrow> rn_process_transfer e accounts amount
     | Rn_Burn amount \<Rightarrow> rn_process_burn e accounts amount
     | Rn_InitBalance \<Rightarrow> rn_process_init_balance e accounts)"

section \<open>The contract\<close>

lemmas runes_handler_defs =
  rn_process_etch_def rn_process_mint_def rn_process_transfer_def rn_process_burn_def
  rn_process_init_balance_def

lemma runes_handlers_headers:
  "header_safe accounts (rn_process_etch e accounts n s d p t)"
  "header_safe accounts (rn_process_mint e accounts ts)"
  "header_safe accounts (rn_process_transfer e accounts a)"
  "header_safe accounts (rn_process_burn e accounts a)"
  "header_safe accounts (rn_process_init_balance e accounts)"
  unfolding runes_handler_defs Let_def
  by (intro write_at_rbind_headers header_intros same_headers_refl; assumption)+

lemma runes_process_headers: "header_safe accounts (runes_process e ts accounts data)"
  unfolding runes_process_def
  by (intro header_intros) (auto intro: runes_handlers_headers split: RuneInstruction.splits)

interpretation rns: himsha_program "pure_program (runes_process e ts)" for e ts
  by (rule himsha_program_pure) (metis runes_process_headers header_safeD)

section \<open>Effects\<close>

text \<open>\<open>read_data().unwrap_or_default()\<close> of a balance slot.\<close>

definition balance_at :: "runes_env \<Rightarrow> accounts \<Rightarrow> nat \<Rightarrow> RuneBalance" where
  "balance_at e accounts i = (case decode (rn_balance e) (a_data (accounts ! i)) of
     Some b \<Rightarrow> b | None \<Rightarrow> default_balance)"

lemma unwrap_or_balance:
  "i < length accounts \<Longrightarrow>
   unwrap_or default_balance (read_at (rn_balance e) accounts i) = Ok (balance_at e accounts i)"
  by (auto simp: balance_at_def read_at_def read_data_def split: option.splits)

lemma write_pair_Ok:
  assumes "rbind (write_at c v accounts 0) (\<lambda>as. write_at d w as (Suc 0)) = Ok accounts'"
    "2 < length accounts" "codec_ok c" "codec_ok d"
  shows "read_at c accounts' 0 = Ok v \<and> read_at d accounts' 1 = Ok w
    \<and> (\<forall>i. 1 < i \<longrightarrow> accounts' ! i = accounts ! i)
    \<and> total_lamports accounts' = total_lamports accounts"
  using assms by (elim length_gt_2E) (auto simp: monad_iffs total_lamports_def nth_Cons'
      dest!: codec_okD)


definition sample_balance :: "Pubkey \<Rightarrow> u64 \<Rightarrow> RuneBalance" where
  "sample_balance rune amount =
     \<lparr> rb_rune = rune, rb_owner = 5, rb_amount = amount, rb_is_initialized = True \<rparr>"

definition sample_rune :: "u64 \<Rightarrow> u64 \<Rightarrow> RuneEtching" where
  "sample_rune mints minted = default_rune\<lparr>ru_is_etched := True, ru_minted := minted, ru_terms :=
     Some \<lparr> mt_amount = 10, mt_cap = 3, mt_mints = mints, mt_start = 0, mt_end = 100 \<rparr>\<rparr>"

definition sample_runes_env :: runes_env where
  "sample_runes_env =
     \<lparr> rn_sha = (\<lambda>_. 0), rn_instr = table_codec [Rn_Transfer 30, Rn_Mint, Rn_InitBalance],
       rn_rune = table_codec [sample_rune 2 20, sample_rune 3 30],
       rn_balance = table_codec [sample_balance 9 40, sample_balance 9 1, sample_balance 9 10,
         sample_balance 9 31, sample_balance 8 50, sample_balance 0 0] \<rparr>"

lemma sample_runes_env_ok: "runes_env_ok sample_runes_env"
  by (simp add: runes_env_ok_def sample_runes_env_def)

definition rune_slot :: "Pubkey \<Rightarrow> bytes \<Rightarrow> AccountInfo" where
  "rune_slot key data = (new_account key 0 0 0)\<lparr>a_data := data\<rparr>"

definition rune_signer :: AccountInfo where
  "rune_signer = (new_account 5 0 0 0)\<lparr>a_is_signer := True\<rparr>"

lemmas runes_run = runes_process_def runes_handler_defs sample_runes_env_def table_codec_def
  sample_balance_def sample_rune_def default_rune_def default_balance_def rune_slot_def
  rune_signer_def new_account_def read_at_def write_at_def read_data_def write_data_def
  index_at_def checked_add_def checked_sub_def default_pubkey_def require_signer_def Let_def


text \<open>
  An open mint obeys the terms of the rune: it happens inside the time window, the number
  of mints stays within a non-zero cap, and total minted and the destination's amount grow by
  exactly the term's amount. The destination is not required to hold that rune: whatever rune
  its old amount was of, the whole balance is of the minted rune afterwards.
\<close>

theorem runes_mint_obeys_terms:
  assumes "runes_env_ok e" "decode (rn_instr e) data = Some Rn_Mint"
    and "runes_process e ts accounts data = Ok accounts'"
  shows "\<exists>r r' t b'. read_at (rn_rune e) accounts 0 = Ok r \<and> ru_terms r = Some t
    \<and> read_at (rn_rune e) accounts' 0 = Ok r' \<and> read_at (rn_balance e) accounts' 1 = Ok b'
    \<and> (mt_start t = 0 \<or> mt_start t \<le> ts) \<and> (mt_end t = 0 \<or> ts \<le> mt_end t)
    \<and> ru_terms r' = Some (t\<lparr>mt_mints := mt_mints t + 1\<rparr>)
    \<and> (mt_cap t = 0 \<or> mt_mints t + 1 \<le> mt_cap t)
    \<and> unat (ru_minted r') = unat (ru_minted r) + unat (mt_amount t)
    \<and> unat (rb_amount b') = unat (rb_amount (balance_at e accounts 1)) + unat (mt_amount t)
    \<and> rb_rune b' = a_key (accounts ! 0)"
proof -
  have run: "rn_process_mint e accounts ts = Ok accounts'"
    using assms(2,3) by (simp add: runes_process_def)
  then have len: "2 < length accounts"
    by (auto simp: rn_process_mint_def not_less split: if_splits)
  define b where "b = balance_at e accounts 1"
  define b0 where "b0 = (if rb_owner b = default_pubkey
    then b\<lparr>rb_rune := a_key (accounts ! 0), rb_owner := a_key (accounts ! 2)\<rparr>
    else b\<lparr>rb_rune := a_key (accounts ! 0)\<rparr>)"
  have after: "balance_at e (accounts[0 := a]) (Suc 0) = b" "accounts[0 := a] ! 2 = accounts ! 2" for a
    by (simp_all add: b_def balance_at_def)
  obtain r t mints minted total where r: "decode (rn_rune e) (a_data (accounts ! 0)) = Some r"
    "ru_terms r = Some t" "mt_cap t = 0 \<or> mt_mints t < mt_cap t"
    "mt_start t = 0 \<or> mt_start t \<le> ts" "mt_end t = 0 \<or> ts \<le> mt_end t"
    "checked_add (mt_mints t) 1 = Some mints" "checked_add (ru_minted r) (mt_amount t) = Some minted"
    "checked_add (rb_amount b) (mt_amount t) = Some total"
    and w: "rbind (write_at (rn_rune e) (r\<lparr>ru_terms := Some (t\<lparr>mt_mints := mints\<rparr>), ru_minted := minted\<rparr>) accounts 0)
      (\<lambda>as. write_at (rn_balance e) (b0\<lparr>rb_amount := total, rb_is_initialized := True\<rparr>) as (Suc 0)) = Ok accounts'"
    using run len unfolding rn_process_mint_def
    by (auto simp: unwrap_or_balance rbind_Ok_iff if_Err_Ok_iff ok_or_Ok_iff read_at_Ok_iff Let_def
        write_at_Ok_iff after b0_def not_less not_le split: if_splits)
  note post = write_pair_Ok [OF w len]
  have mints: "mints = mt_mints t + 1"
    using r(6) by (auto simp: checked_add_def split: if_splits)
  have cap: "mt_cap t = 0 \<or> mt_mints t + 1 \<le> mt_cap t"
    using r(3) inc_le by auto
  show ?thesis
    by (rule exI [of _ r], rule exI [of _ "r\<lparr>ru_terms := Some (t\<lparr>mt_mints := mints\<rparr>), ru_minted := minted\<rparr>"],
        rule exI [of _ t], rule exI [of _ "b0\<lparr>rb_amount := total, rb_is_initialized := True\<rparr>"])
      (use assms(1) post r len mints cap in \<open>auto simp: runes_env_ok_def arith_iffs read_at_Ok_iff b_def b0_def\<close>)
qed

theorem runes_mint_obeys_terms_witness:
  "\<exists>b'. read_at (rn_balance sample_runes_env) [rune_slot 8 [1], rune_slot 2 [4], rune_signer] 1 = Ok b'
    \<and> rb_rune b' = 8 \<and> unat (rb_amount b') = 50
    \<and> rb_rune (balance_at sample_runes_env [rune_slot 8 [0], rune_slot 2 [0], rune_signer] 1) = 9"
proof -
  have run: "runes_process sample_runes_env 50 [rune_slot 8 [0], rune_slot 2 [0], rune_signer] [1] =
      Ok [rune_slot 8 [1], rune_slot 2 [4], rune_signer]"
    by (simp add: runes_run)
  have ix: "decode (rn_instr sample_runes_env) [1] = Some Rn_Mint"
    by (simp add: runes_run)
  have "rb_rune (balance_at sample_runes_env [rune_slot 8 [0], rune_slot 2 [0], rune_signer] 1) = 9"
    by (simp add: balance_at_def runes_run)
  moreover have "unat (rb_amount (sample_balance 8 50)) = 50"
    "read_at (rn_balance sample_runes_env) [rune_slot 8 [1], rune_slot 2 [4], rune_signer] 1 = Ok (sample_balance 8 50)"
    by (simp_all add: runes_run)
  ultimately show ?thesis
    using runes_mint_obeys_terms [OF sample_runes_env_ok ix run] by (auto simp: rune_slot_def new_account_def)
qed

text \<open>
  A balance account prepared with InitBalance cannot receive a transfer: on an account
  with no balance yet the instruction marks the balance initialized for the all-zero rune, and
  a transfer of any other rune to it is then refused.
\<close>

theorem runes_init_balance_blocks_transfers:
  assumes "runes_env_ok e" "decode (rn_instr e) data = Some Rn_InitBalance"
    and "runes_process e ts accounts data = Ok accounts'"
    and "decode (rn_balance e) (a_data (accounts ! 0)) = None"
    and "decode (rn_instr e) data' = Some (Rn_Transfer n)"
    and "2 < length window" "a_is_signer (window ! 2)" "window ! 1 = accounts' ! 0"
    and "read_at (rn_balance e) window 0 = Ok s" "rb_is_initialized s" "rb_rune s \<noteq> default_pubkey"
  shows "runes_process e ts' window data' = Err InvalidAccountData"
proof -
  have "rn_process_init_balance e accounts = Ok accounts'"
    using assms(2,3) by (simp add: runes_process_def)
  then obtain b k where "encode (rn_balance e) (default_balance\<lparr>rb_owner := k, rb_is_initialized := True\<rparr>) = Some b"
    "a_data (accounts' ! 0) = b"
    using assms(4) by (auto simp: rn_process_init_balance_def read_at_def read_data_def monad_iffs Let_def
        index_at_def split: if_splits)
  then have "decode (rn_balance e) (a_data (window ! 1)) =
      Some (default_balance\<lparr>rb_owner := k, rb_is_initialized := True\<rparr>)"
    using assms(1,8) by (auto simp: runes_env_ok_def dest: codec_okD)
  then have "balance_at e window 1 = default_balance\<lparr>rb_owner := k, rb_is_initialized := True\<rparr>"
    by (simp add: balance_at_def)
  then show ?thesis
    using assms(5-7,9-11) unwrap_or_balance [of 1 window e]
    by (simp add: runes_process_def rn_process_transfer_def require_signer_def default_balance_def)
qed

theorem runes_init_balance_blocks_transfers_witness:
  "runes_process sample_runes_env 60 [rune_slot 1 [0], rune_slot 2 [5], rune_signer] [0] = Err InvalidAccountData"
proof -
  have run: "runes_process sample_runes_env 50 [rune_slot 2 [], rune_signer] [2] =
      Ok [rune_slot 2 [5], rune_signer]"
    by (simp add: runes_run)
  show ?thesis
    by (rule runes_init_balance_blocks_transfers [OF sample_runes_env_ok _ run, where n = 30
        and s = "sample_balance 9 40"]) (simp_all add: runes_run)
qed

end
