(* ===== verification/Text.thy ===== *)
theory Text
  imports Pubkeys
begin

text \<open>
  Rust's text operations that the node and the command line use on UTF-8 strings, modelled on their
  bytes: trimming of Unicode white space, splitting, prefixes, ASCII case, and decimal numbers read
  by \<open>parse\<close> and printed by \<open>to_string\<close>. The locales \<open>byte_form\<close> and \<open>exact_form\<close> state what
  a printed form promises: that it reads back, and that nothing else reads as the same value.
\<close>

section \<open>Printed forms\<close>

locale byte_form =
  fixes print :: "'a \<Rightarrow> bytes" and parse :: "bytes \<Rightarrow> 'a option"
  assumes parse_print: "parse (print x) = Some x"
begin

lemma print_inj: "print x = print y \<longleftrightarrow> x = y"
  by (metis parse_print option.inject)

end

locale exact_form = byte_form +
  assumes print_parse: "parse b = Some x \<Longrightarrow> b = print x"
begin

lemma parse_iff: "parse b = Some x \<longleftrightarrow> b = print x"
  by (metis parse_print print_parse)

lemma parse_None_iff: "parse b = None \<longleftrightarrow> b \<notin> range print"
  using parse_iff by (metis not_None_eq rangeE rangeI)

end

section \<open>Prefixes and white space\<close>

definition starts_with :: "bytes \<Rightarrow> bytes \<Rightarrow> bool" where
  "starts_with r p \<longleftrightarrow> take (length p) r = p"

definition ends_with :: "bytes \<Rightarrow> bytes \<Rightarrow> bool" where
  "ends_with r p \<longleftrightarrow> starts_with (rev r) (rev p)"

text \<open>The UTF-8 encodings of the characters with the property \<open>White_Space\<close>.\<close>

definition WHITE_SPACE :: "bytes list" where
  "WHITE_SPACE = [[9], [10], [11], [12], [13], [32], [0xC2, 0x85], [0xC2, 0xA0], [0xE1, 0x9A, 0x80]]
     @ map (\<lambda>b. [0xE2, 0x80, b]) [0x80, 0x81, 0x82, 0x83, 0x84, 0x85, 0x86, 0x87, 0x88, 0x89, 0x8A, 0xA8, 0xA9, 0xAF]
     @ [[0xE2, 0x81, 0x9F], [0xE3, 0x80, 0x80]]"

definition white_prefix :: "bytes \<Rightarrow> nat" where
  "white_prefix r = (case filter (starts_with r) WHITE_SPACE of [] \<Rightarrow> 0 | w # _ \<Rightarrow> length w)"

definition white_suffix :: "bytes \<Rightarrow> nat" where
  "white_suffix r = (case filter (ends_with r) WHITE_SPACE of [] \<Rightarrow> 0 | w # _ \<Rightarrow> length w)"

function trim_start :: "bytes \<Rightarrow> bytes" where
  "trim_start r = (if white_prefix r = 0 \<or> r = [] then r else trim_start (drop (white_prefix r) r))"
  by auto
termination
  by (relation "measure length") auto

function trim_end :: "bytes \<Rightarrow> bytes" where
  "trim_end r = (if white_suffix r = 0 \<or> r = [] then r else trim_end (take (length r - white_suffix r) r))"
  by auto
termination
  by (relation "measure length") auto

declare trim_start.simps [simp del] trim_end.simps [simp del]

definition trim :: "bytes \<Rightarrow> bytes" where
  "trim r = trim_end (trim_start r)"

definition to_ascii_lowercase :: "bytes \<Rightarrow> bytes" where
  "to_ascii_lowercase r = map (\<lambda>b. if 65 \<le> b \<and> b \<le> 90 then b + 32 else b) r"

text \<open>\<open>split_once\<close> at the first occurrence of a one-byte separator.\<close>

definition split_once :: "u8 \<Rightarrow> bytes \<Rightarrow> (bytes \<times> bytes) option" where
  "split_once sep r =
     (if sep \<in> set r then Some (takeWhile (\<lambda>b. b \<noteq> sep) r, tl (dropWhile (\<lambda>b. b \<noteq> sep) r)) else None)"

lemma split_once_Some_iff:
  "split_once sep r = Some (a, b) \<longleftrightarrow> r = a @ sep # b \<and> sep \<notin> set a"
proof
  assume "split_once sep r = Some (a, b)"
  then have in_r: "sep \<in> set r" and a: "a = takeWhile (\<lambda>b. b \<noteq> sep) r" and b: "b = tl (dropWhile (\<lambda>b. b \<noteq> sep) r)"
    by (auto simp: split_once_def split: if_splits)
  have "dropWhile (\<lambda>b. b \<noteq> sep) r \<noteq> []"
    using in_r by (simp add: dropWhile_eq_Nil_conv)
  then have "dropWhile (\<lambda>b. b \<noteq> sep) r = sep # b"
    using hd_dropWhile [of "\<lambda>b. b \<noteq> sep" r] b by (metis list.collapse)
  then show "r = a @ sep # b \<and> sep \<notin> set a"
    using a by (metis set_takeWhileD takeWhile_dropWhile_id)
next
  assume "r = a @ sep # b \<and> sep \<notin> set a"
  then show "split_once sep r = Some (a, b)"
    by (auto simp: split_once_def takeWhile_append dropWhile_append)
qed

section \<open>Decimal numbers\<close>

definition is_digit :: "u8 \<Rightarrow> bool" where
  "is_digit b \<longleftrightarrow> 48 \<le> b \<and> b \<le> 57"

fun digits_value :: "nat \<Rightarrow> nat \<Rightarrow> bytes \<Rightarrow> nat option" where
  "digits_value limit acc [] = Some acc"
| "digits_value limit acc (b # bs) =
     (if \<not> is_digit b then None
      else let acc = 10 * acc + (unat b - 48) in if acc < limit then digits_value limit acc bs else None)"

text \<open>\<open>str::parse\<close> of an unsigned integer below the limit: an optional plus sign, then digits.\<close>

definition parse_uint :: "nat \<Rightarrow> bytes \<Rightarrow> nat option" where
  "parse_uint limit r =
     (case r of
        [] \<Rightarrow> None
      | b # bs \<Rightarrow> if b = 43 then (if bs = [] then None else digits_value limit 0 bs) else digits_value limit 0 r)"

text \<open>\<open>to_string\<close> of an unsigned integer.\<close>

fun decimal :: "nat \<Rightarrow> bytes" where
  "decimal n = (if n < 10 then [48 + word_of_nat n] else decimal (n div 10) @ [48 + word_of_nat (n mod 10)])"

declare decimal.simps [simp del]

lemma digits_value_append:
  "digits_value limit acc (xs @ ys) = Option.bind (digits_value limit acc xs) (\<lambda>a. digits_value limit a ys)"
  by (induction xs arbitrary: acc) (auto simp: Let_def)

lemma unat_digit: "d < 10 \<Longrightarrow> unat (48 + word_of_nat d :: u8) = 48 + d"
  by (simp add: unat_word_ariths unat_of_nat take_bit_nat_eq_self)

lemma is_digit_of: "d < 10 \<Longrightarrow> is_digit (48 + word_of_nat d)"
  by (simp add: is_digit_def word_le_nat_alt unat_digit)

lemma decimal_digits: "decimal n \<noteq> [] \<and> list_all is_digit (decimal n)"
proof (induction n rule: decimal.induct)
  case (1 n)
  then show ?case
    by (subst (1 2) decimal.simps) (simp add: is_digit_of)
qed

lemma digits_value_decimal: "n < limit \<Longrightarrow> digits_value limit 0 (decimal n) = Some n"
proof (induction n rule: decimal.induct)
  case (1 n)
  show ?case
  proof (cases "n < 10")
    case True
    then show ?thesis
      using 1 unat_digit [OF True] is_digit_of [OF True] by (subst decimal.simps) simp
  next
    case False
    have d: "n mod 10 < 10" "10 * (n div 10) + n mod 10 = n"
      by simp_all
    have "digits_value limit 0 (decimal (n div 10)) = Some (n div 10)"
      using 1 False by simp
    then show ?thesis
      using 1(2) False d unat_digit [OF d(1)] is_digit_of [OF d(1)]
      by (subst decimal.simps) (simp add: digits_value_append)
  qed
qed

lemma parse_uint_decimal: "n < limit \<Longrightarrow> parse_uint limit (decimal n) = Some n"
proof -
  assume n: "n < limit"
  obtain b bs where d: "decimal n = b # bs" "is_digit b"
    using decimal_digits [of n] by (cases "decimal n") auto
  then have "b \<noteq> 43"
    by (auto simp: is_digit_def)
  then show ?thesis
    using digits_value_decimal [OF n] d by (simp add: parse_uint_def)
qed

section \<open>Trimming a number\<close>

lemma white_no_digit: "w \<in> set WHITE_SPACE \<Longrightarrow> w \<noteq> [] \<and> \<not> is_digit (hd w) \<and> \<not> is_digit (last w)"
  by (auto simp: WHITE_SPACE_def is_digit_def)

lemma starts_with_hd: "starts_with r w \<Longrightarrow> w \<noteq> [] \<Longrightarrow> r \<noteq> [] \<and> hd r = hd w"
  by (cases r; cases w) (auto simp: starts_with_def)

lemma white_prefix_digit:
  assumes "is_digit b"
  shows "white_prefix (b # bs) = 0"
proof -
  have "filter (starts_with (b # bs)) WHITE_SPACE = []"
    using assms starts_with_hd [of "b # bs"] white_no_digit by (fastforce simp: filter_empty_conv)
  then show ?thesis
    by (simp add: white_prefix_def)
qed

lemma white_suffix_digit:
  assumes "is_digit b"
  shows "white_suffix (bs @ [b]) = 0"
proof -
  have "\<not> ends_with (bs @ [b]) w" if "w \<in> set WHITE_SPACE" for w
    using assms starts_with_hd [of "rev (bs @ [b])" "rev w"] white_no_digit [OF that] by (auto simp: ends_with_def hd_rev)
  then have "filter (ends_with (bs @ [b])) WHITE_SPACE = []"
    by (simp add: filter_empty_conv)
  then show ?thesis
    by (simp add: white_suffix_def)
qed

lemma trim_start_spaces: "trim_start (replicate n 32 @ r) = trim_start r"
proof (induction n)
  case (Suc n)
  have "white_prefix (32 # xs) = 1" for xs
    by (simp add: white_prefix_def WHITE_SPACE_def starts_with_def)
  then show ?case
    using Suc by (subst trim_start.simps) simp
qed simp

lemma trim_end_spaces: "trim_end (r @ replicate n 32) = trim_end r"
proof (induction n)
  case (Suc n)
  have "white_suffix (xs @ [32]) = 1" for xs
    by (simp add: white_suffix_def WHITE_SPACE_def ends_with_def starts_with_def)
  from this [of "r @ replicate n 32"] have "trim_end ((r @ replicate n 32) @ [32]) = trim_end (r @ replicate n 32)"
    by (subst trim_end.simps) (simp del: append_assoc)
  then show ?case
    using Suc by (simp add: replicate_append_same)
qed simp

lemma trim_number:
  assumes "r \<noteq> []" "list_all is_digit r"
  shows "trim (replicate m 32 @ r @ replicate n 32) = r"
proof -
  obtain b bs where hd: "r = b # bs"
    using assms(1) by (cases r) auto
  obtain cs c where last: "r = cs @ [c]"
    using assms(1) by (cases r rule: rev_cases) auto
  have "trim_start (r @ replicate n 32) = r @ replicate n 32"
    using hd assms(2) white_prefix_digit [of b] by (subst trim_start.simps) simp
  moreover have "trim_end r = r"
    using last assms(2) white_suffix_digit [of c cs] by (subst trim_end.simps) simp
  ultimately show ?thesis
    by (simp add: trim_def trim_start_spaces trim_end_spaces)
qed

section \<open>Words read from bytes\<close>

text \<open>\<open>u64::from_le_bytes\<close>, and the array \<open>[u8; 32]\<close> that holds given bytes.\<close>

definition from_le_bytes :: "bytes \<Rightarrow> u64" where
  "from_le_bytes b = word_of_int (horner_sum uint 256 b)"

definition bytes_to_word :: "bytes \<Rightarrow> bytes32" where
  "bytes_to_word b = word_of_int (horner_sum uint 256 (rev b))"

lemma bit_horner_bytes:
  "bit (word_of_int (horner_sum uint 256 b) :: 'a::len word) k \<longleftrightarrow>
     k < LENGTH('a) \<and> k div 8 < length b \<and> bit (b ! (k div 8)) (k mod 8)" for b :: bytes
  using bit_horner_sum_uint_exp_iff [of b k] by (simp add: bit_word_of_int_iff)

lemma from_le_bytes_to [simp]: "from_le_bytes (to_le_bytes w) = w"
proof (intro bit_word_eqI)
  fix k assume "k < LENGTH(64)"
  then show "bit (from_le_bytes (to_le_bytes w)) k = bit w k"
    using to_le_bytes_bit [of k w] by (simp add: from_le_bytes_def bit_horner_bytes less_mult_imp_div_less)
qed

lemma bytes_to_word_be_bytes [simp]: "bytes_to_word (be_bytes w) = w"
proof (intro bit_word_eqI)
  fix k assume k: "k < LENGTH(256)"
  then have "k div 8 < 32"
    by (simp add: less_mult_imp_div_less)
  then show "bit (bytes_to_word (be_bytes w)) k = bit w k"
    using k be_bytes_bit [of k w] by (simp add: bytes_to_word_def bit_horner_bytes rev_nth)
qed

lemma bytes_eqI:
  assumes "length a = length b" "\<And>i j. i < length a \<Longrightarrow> j < 8 \<Longrightarrow> bit (a ! i) j = bit (b ! i) j"
  shows "a = (b :: bytes)"
  using assms by (intro nth_equalityI bit_word_eqI) auto

lemma to_le_bytes_from: "length b = 8 \<Longrightarrow> to_le_bytes (from_le_bytes b) = b"
  by (intro bytes_eqI)
    (auto simp: to_le_bytes_def from_le_bytes_def bit_ucast_iff bit_drop_bit_eq bit_horner_bytes simp del: upt_rec_numeral)

lemma be_bytes_bytes_to_word: "length b = 32 \<Longrightarrow> be_bytes (bytes_to_word b) = b"
  by (intro bytes_eqI)
    (auto simp: be_bytes_def bytes_to_word_def bit_ucast_iff bit_drop_bit_eq bit_horner_bytes rev_nth simp del: upt_rec_numeral)

text \<open>Arrays of a fixed size are exact; decimal numbers read back, but a sign or zeros may precede them.\<close>

interpretation le: exact_form to_le_bytes "\<lambda>b. if length b = 8 then Some (from_le_bytes b) else None"
  by unfold_locales (auto simp: to_le_bytes_from split: if_splits)

interpretation be: exact_form be_bytes "\<lambda>b. if length b = 32 then Some (bytes_to_word b) else None"
  by unfold_locales (auto simp: be_bytes_bytes_to_word split: if_splits)

interpretation dec: byte_form "\<lambda>w :: 'a::len word. decimal (unat w)"
    "\<lambda>b. map_option word_of_nat (parse_uint (2 ^ LENGTH('a)) b)"
  by unfold_locales (simp add: parse_uint_decimal [OF unat_bound])

end
