(* ===== verification/Lending_Program.thy ===== *)
theory Lending_Program
  imports Cpi Text
begin

text \<open>
  Ordinals lending, \<open>src/himsha-programs/lending/src/lib.rs\<close>: collections with open bids and
  active loans, the settlement queue, the builders and the six arms of \<open>process\<close>. A
  \<open>HashMap\<close> is a partial map; the order in which it iterates is unspecified, so the
  enumeration of its keys is the parameter \<open>le_order\<close>. The hex encoding of a transaction id
  comes from a third-party crate and is the parameter \<open>le_hex\<close>. A \<open>String\<close> is its bytes.
\<close>

section \<open>State and instructions\<close>

datatype SettlementKind = ReturnInscription | SeizeInscription | Repayment

record Settlement =
  se_kind :: SettlementKind
  se_inscription_id :: bytes
  se_utxo :: UtxoMeta
  se_recipient :: bytes
  se_amount :: u64

record Bid =
  bd_utxo :: UtxoMeta
  bd_loan_value :: u64
  bd_loan_period :: u64
  bd_interest_rate_bps :: u64
  bd_lender_ordinals_address :: bytes
  bd_lender_payments_address :: bytes

record Loan =
  ln_inscription_id :: bytes
  ln_inscription_utxo :: UtxoMeta
  ln_loan_value :: u64
  ln_loan_period :: u64
  ln_interest_rate_bps :: u64
  ln_lender_ordinals_address :: bytes
  ln_lender_payments_address :: bytes
  ln_borrower_ordinals_address :: bytes
  ln_borrower_payments_address :: bytes
  ln_started_at :: u64
  ln_repaid :: u64

record CollectionAccount =
  cl_name :: bytes
  cl_bids :: "bytes \<Rightarrow> Bid option"
  cl_active_loans :: "bytes \<Rightarrow> Loan option"
  cl_pending_settlements :: "Settlement list"

definition take_settlements :: "CollectionAccount \<Rightarrow> Settlement list \<times> CollectionAccount" where
  "take_settlements c = (cl_pending_settlements c, c\<lparr>cl_pending_settlements := []\<rparr>)"

definition LEND_BPS :: u64 where
  "LEND_BPS = 10000"

definition repayment_due :: "Loan \<Rightarrow> u64" where
  "repayment_due l =
     ln_loan_value l + saturating_mul (ln_loan_value l) (ln_interest_rate_bps l) div LEND_BPS"

datatype LendingInstruction =
    Ln_InitCollection bytes
  | Ln_PlaceBid UtxoMeta u64 u64 u64 bytes bytes
  | Ln_CancelBid UtxoMeta
  | Ln_AcceptBid bytes UtxoMeta bytes bytes
  | Ln_RepayLoan bytes UtxoMeta u64
  | Ln_ClaimDefault bytes

record lending_env =
  le_sha :: sha256
  le_instr :: "LendingInstruction codec"
  le_collection :: "CollectionAccount codec"
  le_hex :: "bytes32 \<Rightarrow> bytes"
  le_order :: "bytes set \<Rightarrow> bytes list"

section \<open>Instruction builders\<close>

definition init_collection :: "lending_env \<Rightarrow> Pubkey \<Rightarrow> Pubkey \<Rightarrow> bytes \<Rightarrow> Instruction presult" where
  "init_collection e collection payer name =
     with_args (le_instr e) (lending_program (le_sha e))
       [meta_writable collection False, meta_writable payer True] (Ln_InitCollection name)"

definition place_bid ::
  "lending_env \<Rightarrow> Pubkey \<Rightarrow> Pubkey \<Rightarrow> UtxoMeta \<Rightarrow> u64 \<Rightarrow> u64 \<Rightarrow> u64 \<Rightarrow> bytes \<Rightarrow> bytes
     \<Rightarrow> Instruction presult" where
  "place_bid e collection lender bid_utxo loan_value loan_period interest_rate_bps ordinals payments =
     with_args (le_instr e) (lending_program (le_sha e))
       [meta_writable collection False, meta_readonly lender True]
       (Ln_PlaceBid bid_utxo loan_value loan_period interest_rate_bps ordinals payments)"

definition cancel_bid :: "lending_env \<Rightarrow> Pubkey \<Rightarrow> Pubkey \<Rightarrow> UtxoMeta \<Rightarrow> Instruction presult" where
  "cancel_bid e collection lender bid_utxo =
     with_args (le_instr e) (lending_program (le_sha e))
       [meta_writable collection False, meta_readonly lender True] (Ln_CancelBid bid_utxo)"

definition accept_bid ::
  "lending_env \<Rightarrow> Pubkey \<Rightarrow> Pubkey \<Rightarrow> bytes \<Rightarrow> UtxoMeta \<Rightarrow> bytes \<Rightarrow> bytes \<Rightarrow> Instruction presult" where
  "accept_bid e collection borrower inscription_id inscription_utxo ordinals payments =
     with_args (le_instr e) (lending_program (le_sha e))
       [meta_writable collection False, meta_readonly borrower True]
       (Ln_AcceptBid inscription_id inscription_utxo ordinals payments)"

definition repay_loan ::
  "lending_env \<Rightarrow> Pubkey \<Rightarrow> Pubkey \<Rightarrow> bytes \<Rightarrow> UtxoMeta \<Rightarrow> u64 \<Rightarrow> Instruction presult" where
  "repay_loan e collection borrower inscription_id repayment_utxo amount =
     with_args (le_instr e) (lending_program (le_sha e))
       [meta_writable collection False, meta_readonly borrower True]
       (Ln_RepayLoan inscription_id repayment_utxo amount)"

definition claim_default :: "lending_env \<Rightarrow> Pubkey \<Rightarrow> Pubkey \<Rightarrow> bytes \<Rightarrow> Instruction presult" where
  "claim_default e collection lender inscription_id =
     with_args (le_instr e) (lending_program (le_sha e))
       [meta_writable collection False, meta_readonly lender True] (Ln_ClaimDefault inscription_id)"

section \<open>Processing\<close>

text \<open>\<open>format!("{}:{}", hex::encode(txid), vout)\<close>: the output index in decimal.\<close>

definition bid_key :: "lending_env \<Rightarrow> UtxoMeta \<Rightarrow> bytes" where
  "bid_key e u = le_hex e (u_txid u) @ ascii '':'' @ decimal (unat (u_vout u))"

text \<open>\<open>Iterator::max_by_key\<close>: the last of the maximal elements.\<close>

fun max_by_key :: "('a \<Rightarrow> u64) \<Rightarrow> 'a list \<Rightarrow> 'a option" where
  "max_by_key f [] = None"
| "max_by_key f (x # xs) = (case max_by_key f xs of
       None \<Rightarrow> Some x
     | Some y \<Rightarrow> Some (if f y < f x then x else y))"

definition ln_process_init_collection :: "lending_env \<Rightarrow> accounts \<Rightarrow> bytes \<Rightarrow> accounts presult" where
  "ln_process_init_collection e accounts name =
     (if (case decode (le_collection e) (a_data (accounts ! 0)) of
            Some c \<Rightarrow> cl_name c \<noteq> [] | None \<Rightarrow> False) then Err AlreadyInitialized
      else write_at (le_collection e)
        \<lparr> cl_name = name, cl_bids = Map.empty, cl_active_loans = Map.empty,
          cl_pending_settlements = [] \<rparr> accounts 0)"

definition ln_process_place_bid ::
  "lending_env \<Rightarrow> accounts \<Rightarrow> UtxoMeta \<Rightarrow> u64 \<Rightarrow> u64 \<Rightarrow> u64 \<Rightarrow> bytes \<Rightarrow> bytes \<Rightarrow> accounts presult" where
  "ln_process_place_bid e accounts bid_utxo loan_value loan_period interest_rate_bps ordinals payments =
     rbind (read_at (le_collection e) accounts 0) (\<lambda>c.
     let key = bid_key e bid_utxo in
     if cl_bids c key \<noteq> None then Err AlreadyInitialized
     else write_at (le_collection e)
       (c\<lparr>cl_bids := (cl_bids c)(key \<mapsto>
          \<lparr> bd_utxo = bid_utxo, bd_loan_value = loan_value, bd_loan_period = loan_period,
            bd_interest_rate_bps = interest_rate_bps, bd_lender_ordinals_address = ordinals,
            bd_lender_payments_address = payments \<rparr>)\<rparr>) accounts 0)"

definition ln_process_cancel_bid :: "lending_env \<Rightarrow> accounts \<Rightarrow> UtxoMeta \<Rightarrow> accounts presult" where
  "ln_process_cancel_bid e accounts bid_utxo =
     rbind (read_at (le_collection e) accounts 0) (\<lambda>c.
     let key = bid_key e bid_utxo in
     rbind (ok_or (cl_bids c key) NotInitialized) (\<lambda>_.
     write_at (le_collection e) (c\<lparr>cl_bids := (cl_bids c)(key := None)\<rparr>) accounts 0))"

definition ln_process_accept_bid ::
  "lending_env \<Rightarrow> accounts \<Rightarrow> bytes \<Rightarrow> UtxoMeta \<Rightarrow> bytes \<Rightarrow> bytes \<Rightarrow> u64 \<Rightarrow> accounts presult" where
  "ln_process_accept_bid e accounts inscription_id inscription_utxo ordinals payments timestamp =
     rbind (read_at (le_collection e) accounts 0) (\<lambda>c.
     if dom (cl_bids c) = {} then Err NotInitialized
     else if cl_active_loans c inscription_id \<noteq> None then Err AlreadyInitialized
     else
       let keys = le_order e (dom (cl_bids c));
           value = (\<lambda>k. case cl_bids c k of Some b \<Rightarrow> bd_loan_value b | None \<Rightarrow> 0) in
       rbind (ok_or (max_by_key value keys) NotInitialized) (\<lambda>best_key.
       case cl_bids c best_key of
         None \<Rightarrow> Panic
       | Some bid \<Rightarrow>
           write_at (le_collection e)
             (c\<lparr>cl_bids := (cl_bids c)(best_key := None),
                cl_active_loans := (cl_active_loans c)(inscription_id \<mapsto>
                  \<lparr> ln_inscription_id = inscription_id, ln_inscription_utxo = inscription_utxo,
                    ln_loan_value = bd_loan_value bid, ln_loan_period = bd_loan_period bid,
                    ln_interest_rate_bps = bd_interest_rate_bps bid,
                    ln_lender_ordinals_address = bd_lender_ordinals_address bid,
                    ln_lender_payments_address = bd_lender_payments_address bid,
                    ln_borrower_ordinals_address = ordinals,
                    ln_borrower_payments_address = payments,
                    ln_started_at = timestamp, ln_repaid = 0 \<rparr>)\<rparr>) accounts 0))"

text \<open>An expired repayment writes the unchanged collection back and then fails.\<close>

definition ln_process_repay_loan ::
  "lending_env \<Rightarrow> accounts \<Rightarrow> bytes \<Rightarrow> UtxoMeta \<Rightarrow> u64 \<Rightarrow> u64 \<Rightarrow> accounts presult" where
  "ln_process_repay_loan e accounts inscription_id repayment_utxo amount timestamp =
     rbind (read_at (le_collection e) accounts 0) (\<lambda>c.
     rbind (ok_or (cl_active_loans c inscription_id) NotInitialized) (\<lambda>loan.
     let removed = c\<lparr>cl_active_loans := (cl_active_loans c)(inscription_id := None)\<rparr>;
         elapsed = saturating_sub timestamp (ln_started_at loan) in
     if ln_loan_period loan < elapsed then
       rbind (write_at (le_collection e)
         (removed\<lparr>cl_active_loans := (cl_active_loans removed)(inscription_id \<mapsto> loan)\<rparr>) accounts 0) (\<lambda>_.
       Err LoanExpired)
     else if amount = 0 then Err InvalidInstruction
     else
       let loan = loan\<lparr>ln_repaid := saturating_add (ln_repaid loan) amount\<rparr>;
           paid = removed\<lparr>cl_pending_settlements := cl_pending_settlements removed
             @ [\<lparr> se_kind = Repayment, se_inscription_id = inscription_id, se_utxo = repayment_utxo,
                  se_recipient = ln_lender_payments_address loan, se_amount = amount \<rparr>]\<rparr>;
           final = (if repayment_due loan \<le> ln_repaid loan
             then paid\<lparr>cl_pending_settlements := cl_pending_settlements paid
               @ [\<lparr> se_kind = ReturnInscription, se_inscription_id = inscription_id,
                    se_utxo = ln_inscription_utxo loan,
                    se_recipient = ln_borrower_ordinals_address loan, se_amount = 0 \<rparr>]\<rparr>
             else paid\<lparr>cl_active_loans := (cl_active_loans paid)(inscription_id \<mapsto> loan)\<rparr>) in
       write_at (le_collection e) final accounts 0))"

definition ln_process_claim_default ::
  "lending_env \<Rightarrow> accounts \<Rightarrow> bytes \<Rightarrow> u64 \<Rightarrow> accounts presult" where
  "ln_process_claim_default e accounts inscription_id timestamp =
     rbind (read_at (le_collection e) accounts 0) (\<lambda>c.
     rbind (ok_or (cl_active_loans c inscription_id) NotInitialized) (\<lambda>loan.
     let elapsed = saturating_sub timestamp (ln_started_at loan) in
     if elapsed \<le> ln_loan_period loan then Err LoanNotExpired
     else write_at (le_collection e)
       (c\<lparr>cl_active_loans := (cl_active_loans c)(inscription_id := None),
          cl_pending_settlements := cl_pending_settlements c
            @ [\<lparr> se_kind = SeizeInscription, se_inscription_id = inscription_id,
                 se_utxo = ln_inscription_utxo loan,
                 se_recipient = ln_lender_ordinals_address loan, se_amount = 0 \<rparr>]\<rparr>) accounts 0))"

definition lending_process :: "lending_env \<Rightarrow> u64 \<Rightarrow> accounts \<Rightarrow> bytes \<Rightarrow> accounts presult" where
  "lending_process e timestamp accounts data =
     rbind (ok_or (decode (le_instr e) data) InvalidInstruction) (\<lambda>ix.
     if length accounts < 2 \<or> \<not> a_is_signer (accounts ! 1) then Err MissingSigner
     else case ix of
       Ln_InitCollection name \<Rightarrow> ln_process_init_collection e accounts name
     | Ln_PlaceBid bid_utxo loan_value loan_period interest_rate_bps ordinals payments \<Rightarrow>
         ln_process_place_bid e accounts bid_utxo loan_value loan_period interest_rate_bps ordinals payments
     | Ln_CancelBid bid_utxo \<Rightarrow> ln_process_cancel_bid e accounts bid_utxo
     | Ln_AcceptBid inscription_id inscription_utxo ordinals payments \<Rightarrow>
         ln_process_accept_bid e accounts inscription_id inscription_utxo ordinals payments timestamp
     | Ln_RepayLoan inscription_id repayment_utxo amount \<Rightarrow>
         ln_process_repay_loan e accounts inscription_id repayment_utxo amount timestamp
     | Ln_ClaimDefault inscription_id \<Rightarrow> ln_process_claim_default e accounts inscription_id timestamp)"

section \<open>The contract\<close>

lemmas lending_handler_defs =
  ln_process_init_collection_def ln_process_place_bid_def ln_process_cancel_bid_def
  ln_process_accept_bid_def ln_process_repay_loan_def ln_process_claim_default_def

lemma lending_handlers_headers:
  "header_safe accounts (ln_process_init_collection e accounts n)"
  "header_safe accounts (ln_process_place_bid e accounts u v p i o' q)"
  "header_safe accounts (ln_process_cancel_bid e accounts u)"
  "header_safe accounts (ln_process_accept_bid e accounts n u o' q ts)"
  "header_safe accounts (ln_process_repay_loan e accounts n u v ts)"
  "header_safe accounts (ln_process_claim_default e accounts n ts)"
  unfolding lending_handler_defs Let_def
  by (intro header_intros same_headers_refl)+

lemma lending_process_headers: "header_safe accounts (lending_process e ts accounts data)"
  unfolding lending_process_def
  by (intro header_intros) (auto intro: lending_handlers_headers split: LendingInstruction.splits)

interpretation len: himsha_program "pure_program (lending_process e ts)" for e ts
  by (rule himsha_program_pure) (metis lending_process_headers header_safeD)

section \<open>Bids\<close>

lemma max_by_key_None: "max_by_key f xs = None \<longleftrightarrow> xs = []"
  by (cases xs) (auto split: option.splits)

lemma max_by_key_Some:
  "max_by_key f xs = Some x \<Longrightarrow> x \<in> set xs \<and> (\<forall>y \<in> set xs. f y \<le> f x)"
proof (induction xs arbitrary: x)
  case (Cons a xs)
  show ?case
  proof (cases "max_by_key f xs")
    case None
    then show ?thesis
      using Cons.prems by (simp add: max_by_key_None)
  next
    case (Some y)
    have "y \<in> set xs \<and> (\<forall>z \<in> set xs. f z \<le> f y)"
      by (rule Cons.IH [OF Some])
    then show ?thesis
      using Cons.prems Some by (auto split: if_splits)
  qed
qed simp

lemma write_collection_back:
  "codec_ok c \<Longrightarrow> write_at c v accounts 0 = Ok accounts' \<Longrightarrow> read_at c accounts' 0 = Ok v"
  by (auto simp: monad_iffs dest: codec_okD)

lemma lending_signed:
  "lending_process e ts accounts data = Ok accounts' \<Longrightarrow> 1 < length accounts \<and> a_is_signer (accounts ! 1)"
  by (auto simp: lending_process_def monad_iffs split: if_splits)

text \<open>
  Accepting a bid opens a loan on the terms of a best bid: no open bid offers more, that
  bid and no other leaves the book, the new loan carries its value, period, interest and
  addresses with nothing repaid, and no other loan changes. The enumeration of the bids may
  be any that lists exactly the keys of the map.
\<close>

theorem lending_accepts_best_bid:
  assumes "codec_ok (le_collection e)"
    and "decode (le_instr e) data = Some (Ln_AcceptBid inscription utxo ordinals payments)"
    and "lending_process e ts accounts data = Ok accounts'"
    and "read_at (le_collection e) accounts 0 = Ok c"
    and "set (le_order e (dom (cl_bids c))) = dom (cl_bids c)"
  shows "\<exists>c' key bid loan. read_at (le_collection e) accounts' 0 = Ok c'
    \<and> cl_bids c key = Some bid \<and> (\<forall>b \<in> ran (cl_bids c). bd_loan_value b \<le> bd_loan_value bid)
    \<and> cl_bids c' = (cl_bids c)(key := None)
    \<and> cl_active_loans c inscription = None
    \<and> cl_active_loans c' = (cl_active_loans c)(inscription \<mapsto> loan)
    \<and> ln_loan_value loan = bd_loan_value bid \<and> ln_loan_period loan = bd_loan_period bid
    \<and> ln_interest_rate_bps loan = bd_interest_rate_bps bid
    \<and> ln_lender_payments_address loan = bd_lender_payments_address bid
    \<and> ln_started_at loan = ts \<and> ln_repaid loan = 0"
proof -
  define val where "val = (\<lambda>k. case cl_bids c k of Some b \<Rightarrow> bd_loan_value b | None \<Rightarrow> 0)"
  have "ln_process_accept_bid e accounts inscription utxo ordinals payments ts = Ok accounts'"
    using assms(2,3) by (auto simp: lending_process_def split: if_splits)
  then obtain key bid where k: "max_by_key val (le_order e (dom (cl_bids c))) = Some key"
    "cl_bids c key = Some bid" "cl_active_loans c inscription = None"
    and w: "write_at (le_collection e)
      (c\<lparr>cl_bids := (cl_bids c)(key := None), cl_active_loans := (cl_active_loans c)(inscription \<mapsto>
         \<lparr> ln_inscription_id = inscription, ln_inscription_utxo = utxo,
           ln_loan_value = bd_loan_value bid, ln_loan_period = bd_loan_period bid,
           ln_interest_rate_bps = bd_interest_rate_bps bid,
           ln_lender_ordinals_address = bd_lender_ordinals_address bid,
           ln_lender_payments_address = bd_lender_payments_address bid,
           ln_borrower_ordinals_address = ordinals, ln_borrower_payments_address = payments,
           ln_started_at = ts, ln_repaid = 0 \<rparr>)\<rparr>) accounts 0 = Ok accounts'"
    using assms(4) unfolding ln_process_accept_bid_def val_def
    by (auto simp: rbind_Ok_iff if_Err_Ok_iff ok_or_Ok_iff Let_def split: option.splits)
  have best: "bd_loan_value b \<le> bd_loan_value bid" if b: "b \<in> ran (cl_bids c)" for b
  proof -
    obtain k' where "cl_bids c k' = Some b"
      using b by (auto simp: ran_def)
    then show ?thesis
      using max_by_key_Some [OF k(1)] assms(5) k(2) by (force simp: val_def)
  qed
  show ?thesis
    using write_collection_back [OF assms(1) w] k best
    by (intro exI conjI) (assumption | rule refl | simp)+
qed

definition sample_bid :: "u64 \<Rightarrow> Bid" where
  "sample_bid v = \<lparr> bd_utxo = \<lparr> u_txid = 1, u_vout = 0 \<rparr>, bd_loan_value = v, bd_loan_period = 100,
     bd_interest_rate_bps = 500, bd_lender_ordinals_address = [1], bd_lender_payments_address = [2] \<rparr>"

definition sample_loan :: "u64 \<Rightarrow> Loan" where
  "sample_loan repaid = \<lparr> ln_inscription_id = [7], ln_inscription_utxo = \<lparr> u_txid = 3, u_vout = 1 \<rparr>,
     ln_loan_value = 1000, ln_loan_period = 100, ln_interest_rate_bps = 500,
     ln_lender_ordinals_address = [1], ln_lender_payments_address = [2],
     ln_borrower_ordinals_address = [3], ln_borrower_payments_address = [4],
     ln_started_at = 50, ln_repaid = repaid \<rparr>"

definition sample_market :: "(bytes \<Rightarrow> Bid option) \<Rightarrow> (bytes \<Rightarrow> Loan option) \<Rightarrow> Settlement list \<Rightarrow> CollectionAccount" where
  "sample_market bids loans queue =
     \<lparr> cl_name = [9], cl_bids = bids, cl_active_loans = loans, cl_pending_settlements = queue \<rparr>"

definition sample_paid :: "Settlement list" where
  "sample_paid = [\<lparr> se_kind = Repayment, se_inscription_id = [7], se_utxo = \<lparr> u_txid = 8, u_vout = 0 \<rparr>,
       se_recipient = [2], se_amount = 1050 \<rparr>,
     \<lparr> se_kind = ReturnInscription, se_inscription_id = [7], se_utxo = \<lparr> u_txid = 3, u_vout = 1 \<rparr>,
       se_recipient = [3], se_amount = 0 \<rparr>]"

definition sample_lending_env :: "CollectionAccount \<Rightarrow> CollectionAccount \<Rightarrow> lending_env" where
  "sample_lending_env out inp =
     \<lparr> le_sha = (\<lambda>_. 0),
       le_instr = table_codec [Ln_AcceptBid [7] \<lparr> u_txid = 3, u_vout = 1 \<rparr> [3] [4],
         Ln_RepayLoan [7] \<lparr> u_txid = 8, u_vout = 0 \<rparr> 1050, Ln_ClaimDefault [7]],
       le_collection = table_codec [out, inp], le_hex = (\<lambda>_. []), le_order = (\<lambda>_. [[1]]) \<rparr>"

definition market_slot :: "bytes \<Rightarrow> accounts" where
  "market_slot b = [(new_account 20 0 0 0)\<lparr>a_data := b\<rparr>, (new_account 5 0 0 0)\<lparr>a_is_signer := True\<rparr>]"

lemmas lending_run = lending_process_def lending_handler_defs sample_lending_env_def table_codec_def
  sample_bid_def sample_loan_def sample_market_def sample_paid_def market_slot_def new_account_def
  read_at_def write_at_def read_data_def write_data_def index_at_def Let_def

theorem lending_accepts_best_bid_witness:
  "\<exists>key bid. [[1] \<mapsto> sample_bid 1000] key = Some bid
    \<and> (\<forall>b \<in> ran [[1] \<mapsto> sample_bid 1000]. bd_loan_value b \<le> bd_loan_value bid)"
proof -
  let ?in = "sample_market [[1] \<mapsto> sample_bid 1000] Map.empty []"
  let ?out = "sample_market Map.empty [[7] \<mapsto> sample_loan 0] []"
  let ?e = "sample_lending_env ?out ?in"
  have run: "lending_process ?e 50 (market_slot [1]) [0] = Ok (market_slot [0])"
    by (simp add: lending_run)
  have ok: "codec_ok (le_collection ?e)"
    by (simp add: sample_lending_env_def)
  have ix: "decode (le_instr ?e) [0] = Some (Ln_AcceptBid [7] \<lparr> u_txid = 3, u_vout = 1 \<rparr> [3] [4])"
    by (simp add: lending_run)
  have rd: "read_at (le_collection ?e) (market_slot [1]) 0 = Ok ?in"
    by (simp add: lending_run)
  have ord: "set (le_order ?e (dom (cl_bids ?in))) = dom (cl_bids ?in)"
    by (simp add: sample_lending_env_def sample_market_def)
  show ?thesis
    using lending_accepts_best_bid [OF ok ix run rd ord] by (auto simp: sample_market_def)
qed

section \<open>Outcomes\<close>


text \<open>
  Seizing an inscription is possible only after the loan's period is over, which is when a
  repayment is no longer possible: no timestamp admits both for the same loan. The claim closes
  the loan and queues exactly the transfer of the inscription to the lender.
\<close>

theorem lending_seize_outcome:
  assumes "codec_ok (le_collection e)"
    and "decode (le_instr e) data = Some (Ln_ClaimDefault inscription)"
    and "lending_process e ts accounts data = Ok accounts'"
    and "read_at (le_collection e) accounts 0 = Ok c"
  shows "\<exists>c' loan. read_at (le_collection e) accounts' 0 = Ok c'
    \<and> cl_active_loans c inscription = Some loan
    \<and> unat (ln_started_at loan) + unat (ln_loan_period loan) < unat ts
    \<and> c' = c\<lparr>cl_active_loans := (cl_active_loans c)(inscription := None),
          cl_pending_settlements := cl_pending_settlements c
            @ [\<lparr> se_kind = SeizeInscription, se_inscription_id = inscription,
                 se_utxo = ln_inscription_utxo loan, se_recipient = ln_lender_ordinals_address loan,
                 se_amount = 0 \<rparr>]\<rparr>
    \<and> (\<forall>data' utxo amount accounts''.
         decode (le_instr e) data' = Some (Ln_RepayLoan inscription utxo amount) \<longrightarrow>
         lending_process e ts accounts data' \<noteq> Ok accounts'')"
proof -
  have "ln_process_claim_default e accounts inscription ts = Ok accounts'"
    using assms(2,3) by (auto simp: lending_process_def split: if_splits)
  then obtain loan where l: "cl_active_loans c inscription = Some loan"
    "\<not> saturating_sub ts (ln_started_at loan) \<le> ln_loan_period loan"
    and w: "write_at (le_collection e) (c\<lparr>cl_active_loans := (cl_active_loans c)(inscription := None),
          cl_pending_settlements := cl_pending_settlements c
            @ [\<lparr> se_kind = SeizeInscription, se_inscription_id = inscription,
                 se_utxo = ln_inscription_utxo loan,
                 se_recipient = ln_lender_ordinals_address loan, se_amount = 0 \<rparr>]\<rparr>) accounts 0
         = Ok accounts'"
    using assms(4) by (auto simp: ln_process_claim_default_def Let_def rbind_Ok_iff ok_or_Ok_iff if_Err_Ok_iff)
  have "unat (ln_started_at loan) + unat (ln_loan_period loan) < unat ts"
    using l(2) by (simp add: not_le word_less_nat_alt)
  moreover have "lending_process e ts accounts data' \<noteq> Ok accounts''"
    if "decode (le_instr e) data' = Some (Ln_RepayLoan inscription utxo amount)" for data' utxo amount accounts''
    using l assms(4) that by (auto simp: lending_process_def ln_process_repay_loan_def Let_def rbind_Ok_iff
        not_le split: if_splits)
  ultimately show ?thesis
    using l(1) write_collection_back [OF assms(1) w] by blast
qed


theorem lending_seize_outcome_witness:
  "\<exists>loan. [[7 :: u8] \<mapsto> sample_loan 0] [7] = Some loan
    \<and> unat (ln_started_at loan) + unat (ln_loan_period loan) < 151"
proof -
  let ?out = "sample_market Map.empty Map.empty
       [\<lparr> se_kind = SeizeInscription, se_inscription_id = [7], se_utxo = \<lparr> u_txid = 3, u_vout = 1 \<rparr>,
          se_recipient = [1], se_amount = 0 \<rparr>]"
  let ?e = "sample_lending_env ?out (sample_market Map.empty [[7] \<mapsto> sample_loan 0] [])"
  have run: "lending_process ?e 151 (market_slot [1]) [2] = Ok (market_slot [0])"
    by (simp add: lending_run saturating_sub_def checked_sub_def)
  have ok: "codec_ok (le_collection ?e)"
    by (simp add: sample_lending_env_def)
  have ix: "decode (le_instr ?e) [2] = Some (Ln_ClaimDefault [7])"
    by (simp add: lending_run)
  have rd: "read_at (le_collection ?e) (market_slot [1]) 0 = Ok (sample_market Map.empty [[7] \<mapsto> sample_loan 0] [])"
    by (simp add: lending_run)
  show ?thesis
    using lending_seize_outcome [OF ok ix run rd] by (auto simp: sample_market_def)
qed

end
