(* ===== verification/Market_State.thy ===== *)
theory Market_State
  imports Oracle_Program Token_Program
begin

text \<open>
  The state and the arithmetic of the money market,
  \<open>src/himsha-programs/money-market/src/lib.rs\<close>: health, liquidation, the kinked interest
  model, accrual and lender shares, at the widths of the source (\<open>u64\<close> state, \<open>u128\<close>
  intermediates, wrapping operators, narrowing casts). A division by zero and an inverted
  \<open>clamp\<close> panic.
\<close>

section \<open>State\<close>

definition PRICE_SCALE :: u128 where
  "PRICE_SCALE = 1000000"

definition MM_BPS :: u128 where
  "MM_BPS = 10000"

definition INDEX_SCALE :: u128 where
  "INDEX_SCALE = 1000000000000"

definition SECONDS_PER_YEAR :: u128 where
  "SECONDS_PER_YEAR = 31536000"

record MarketState =
  mk_collateral_mint :: Pubkey
  mk_borrow_mint :: Pubkey
  mk_collateral_vault :: Pubkey
  mk_borrow_vault :: Pubkey
  mk_collateral_factor_bps :: u64
  mk_liquidation_threshold_bps :: u64
  mk_liquidation_bonus_bps :: u64
  mk_close_factor_bps :: u64
  mk_price :: u64
  mk_oracle_feed :: Pubkey
  mk_price_updated_at :: u64
  mk_max_price_staleness :: u64
  mk_total_collateral :: u64
  mk_total_borrows :: u64
  mk_total_cash :: u64
  mk_total_lender_shares :: u64
  mk_base_rate_bps :: u64
  mk_slope_bps :: u64
  mk_kink_utilization_bps :: u64
  mk_jump_slope_bps :: u64
  mk_borrow_index :: u128
  mk_last_accrual_ts :: u64
  mk_is_initialized :: bool

record Position =
  ps_owner :: Pubkey
  ps_market :: Pubkey
  ps_collateral :: u64
  ps_debt :: u64
  ps_borrow_index_snapshot :: u128
  ps_is_initialized :: bool

record LenderPosition =
  lp_owner :: Pubkey
  lp_market :: Pubkey
  lp_shares :: u64
  lp_is_initialized :: bool

definition default_market :: MarketState where
  "default_market =
     \<lparr> mk_collateral_mint = default_pubkey, mk_borrow_mint = default_pubkey,
       mk_collateral_vault = default_pubkey, mk_borrow_vault = default_pubkey,
       mk_collateral_factor_bps = 0, mk_liquidation_threshold_bps = 0,
       mk_liquidation_bonus_bps = 0, mk_close_factor_bps = 0, mk_price = 0,
       mk_oracle_feed = default_pubkey, mk_price_updated_at = 0, mk_max_price_staleness = 0,
       mk_total_collateral = 0, mk_total_borrows = 0, mk_total_cash = 0,
       mk_total_lender_shares = 0, mk_base_rate_bps = 0, mk_slope_bps = 0,
       mk_kink_utilization_bps = 0, mk_jump_slope_bps = 0, mk_borrow_index = 0,
       mk_last_accrual_ts = 0, mk_is_initialized = False \<rparr>"

definition default_position :: Position where
  "default_position =
     \<lparr> ps_owner = default_pubkey, ps_market = default_pubkey, ps_collateral = 0, ps_debt = 0,
       ps_borrow_index_snapshot = 0, ps_is_initialized = False \<rparr>"

definition default_lender :: LenderPosition where
  "default_lender =
     \<lparr> lp_owner = default_pubkey, lp_market = default_pubkey, lp_shares = 0,
       lp_is_initialized = False \<rparr>"

section \<open>Health and liquidation\<close>

definition max_borrow :: "MarketState \<Rightarrow> u64 \<Rightarrow> u128" where
  "max_borrow market collateral =
     (let value = as_u128 collateral * as_u128 (mk_price market) div PRICE_SCALE in
      value * as_u128 (mk_collateral_factor_bps market) div MM_BPS)"

definition is_healthy :: "MarketState \<Rightarrow> u64 \<Rightarrow> u64 \<Rightarrow> bool" where
  "is_healthy market collateral debt \<longleftrightarrow> as_u128 debt \<le> max_borrow market collateral"

definition is_liquidatable :: "MarketState \<Rightarrow> u64 \<Rightarrow> u64 \<Rightarrow> bool" where
  "is_liquidatable market collateral debt \<longleftrightarrow>
     (let value = as_u128 collateral * as_u128 (mk_price market) div PRICE_SCALE;
          max_debt = value * as_u128 (mk_liquidation_threshold_bps market) div MM_BPS in
      max_debt < as_u128 debt)"

definition seize_collateral :: "MarketState \<Rightarrow> u64 \<Rightarrow> u128 presult" where
  "seize_collateral market repay_amount =
     (if mk_price market = 0 then Panic
      else let base = as_u128 repay_amount * PRICE_SCALE div as_u128 (mk_price market) in
        Ok (base * (MM_BPS + as_u128 (mk_liquidation_bonus_bps market)) div MM_BPS))"

definition max_liquidation_repay :: "MarketState \<Rightarrow> u64 \<Rightarrow> u64 presult" where
  "max_liquidation_repay market debt =
     (let cf = as_u128 (mk_close_factor_bps market) in
      if cf = 0 \<or> MM_BPS \<le> cf then Ok debt
      else let capped = as_u64 (div_ceil (as_u128 debt * cf) MM_BPS) in
        if debt < 1 then Panic else Ok (min (max capped 1) debt))"

definition ensure_fresh_price :: "MarketState \<Rightarrow> u64 \<Rightarrow> unit presult" where
  "ensure_fresh_price market now =
     (if mk_price market = 0
         \<or> mk_max_price_staleness market < saturating_sub now (mk_price_updated_at market)
      then Err StalePrice else Ok ())"

section \<open>Interest\<close>

definition utilization_bps :: "MarketState \<Rightarrow> u128" where
  "utilization_bps market =
     (let denom = as_u128 (mk_total_borrows market) + as_u128 (mk_total_cash market) in
      case checked_div (as_u128 (mk_total_borrows market) * MM_BPS) denom of
        Some u \<Rightarrow> u | None \<Rightarrow> 0)"

definition borrow_rate_bps :: "MarketState \<Rightarrow> u128" where
  "borrow_rate_bps market =
     (let util = utilization_bps market;
          rate = as_u128 (mk_base_rate_bps market) + as_u128 (mk_slope_bps market) * util div MM_BPS;
          kink = as_u128 (mk_kink_utilization_bps market) in
      if kink \<noteq> 0 \<and> kink < util
      then rate + as_u128 (mk_jump_slope_bps market) * (util - kink) div MM_BPS
      else rate)"

definition accrue_market :: "MarketState \<Rightarrow> u64 \<Rightarrow> MarketState" where
  "accrue_market market now =
     (if now \<le> mk_last_accrual_ts market then
        (if mk_last_accrual_ts market = 0 then market\<lparr>mk_last_accrual_ts := now\<rparr> else market)
      else
        let elapsed = as_u128 (now - mk_last_accrual_ts market);
            market = market\<lparr>mk_last_accrual_ts := now\<rparr> in
        if mk_total_borrows market = 0 then market
        else
          let annual_bps = borrow_rate_bps market in
          if annual_bps = 0 then market
          else
            let den = MM_BPS * SECONDS_PER_YEAR;
                num = den + annual_bps * elapsed in
            market\<lparr>mk_borrow_index := saturating_mul (mk_borrow_index market) num div den,
                   mk_total_borrows := as_u64 (as_u128 (mk_total_borrows market) * num div den)\<rparr>)"

definition accrue_position :: "Position \<Rightarrow> u128 \<Rightarrow> Position" where
  "accrue_position pos borrow_index =
     (if ps_borrow_index_snapshot pos = 0 then pos\<lparr>ps_borrow_index_snapshot := borrow_index\<rparr>
      else if 0 < ps_debt pos \<and> ps_borrow_index_snapshot pos < borrow_index then
        pos\<lparr>ps_debt := as_u64 (as_u128 (ps_debt pos) * borrow_index div ps_borrow_index_snapshot pos),
            ps_borrow_index_snapshot := borrow_index\<rparr>
      else pos\<lparr>ps_borrow_index_snapshot := borrow_index\<rparr>)"

section \<open>Lender shares\<close>

definition pool_value :: "MarketState \<Rightarrow> u128" where
  "pool_value market = as_u128 (mk_total_cash market) + as_u128 (mk_total_borrows market)"

definition lender_share_value :: "MarketState \<Rightarrow> u64 \<Rightarrow> u64" where
  "lender_share_value market shares =
     (if mk_total_lender_shares market = 0 then 0
      else as_u64 (as_u128 shares * pool_value market div as_u128 (mk_total_lender_shares market)))"

definition shares_for_deposit :: "MarketState \<Rightarrow> u64 \<Rightarrow> u64" where
  "shares_for_deposit market amount =
     (let pool = pool_value market in
      if mk_total_lender_shares market = 0 \<or> pool = 0 then amount
      else as_u64 (as_u128 amount * as_u128 (mk_total_lender_shares market) div pool))"

definition shares_for_withdraw :: "MarketState \<Rightarrow> u64 \<Rightarrow> u64" where
  "shares_for_withdraw market amount =
     (let pool = pool_value market in
      if pool = 0 then 0
      else as_u64 (div_ceil (as_u128 amount * as_u128 (mk_total_lender_shares market)) pool))"

section \<open>Arithmetic at its width\<close>

text \<open>The product of two \<open>u64\<close> values never wraps in \<open>u128\<close>.\<close>

lemma u64_product_bound: "unat (a :: u64) * unat (b :: u64) < 2 ^ 128"
proof -
  have "unat a * unat b < 2 ^ 64 * 2 ^ 64"
    using unat_bound [of a] unat_bound [of b] by (intro mult_strict_mono) auto
  then show ?thesis
    by simp
qed

lemma unat_product_128 [simp]: "unat (as_u128 a * as_u128 b) = unat a * unat b"
  using u64_product_bound [of a b] unat_mult_lem [of "as_u128 a" "as_u128 b"] by simp

lemma unat_sum_128 [simp]: "unat (as_u128 a + as_u128 b) = unat a + unat b"
  using unat_bound [of a] unat_bound [of b] unat_add_lem [of "as_u128 a" "as_u128 b"] by simp

lemma unat_MM_BPS [simp]: "unat MM_BPS = 10000" "unat (as_u64 MM_BPS) = 10000" "MM_BPS \<noteq> 0"
  by (simp_all add: MM_BPS_def)

lemma unat_PRICE_SCALE [simp]: "unat PRICE_SCALE = 1000000" "PRICE_SCALE \<noteq> 0"
  by (simp_all add: PRICE_SCALE_def)

text \<open>The parameters \<open>InitMarket\<close> accepts.\<close>

definition market_wf :: "MarketState \<Rightarrow> bool" where
  "market_wf m \<longleftrightarrow> mk_is_initialized m \<and> mk_price m \<noteq> 0
     \<and> unat (mk_collateral_factor_bps m) \<le> unat (mk_liquidation_threshold_bps m)
     \<and> unat (mk_liquidation_threshold_bps m) \<le> 10000
     \<and> unat (mk_kink_utilization_bps m) \<le> 10000 \<and> unat (mk_close_factor_bps m) \<le> 10000"

text \<open>The value of collateral and a share of it, in exact arithmetic.\<close>

definition collateral_value :: "MarketState \<Rightarrow> nat \<Rightarrow> nat" where
  "collateral_value m c = c * unat (mk_price m) div 1000000"

lemma unat_value_share:
  assumes "unat bps \<le> 10000"
  shows "unat (as_u128 c * as_u128 p div PRICE_SCALE * as_u128 bps div MM_BPS)
    = unat c * unat p div 1000000 * unat bps div 10000"
proof -
  have "unat c * unat p div 1000000 * 1000000 < 2 ^ 128"
    using u64_product_bound [of c p] div_times_less_eq_dividend le_less_trans by blast
  moreover have "unat c * unat p div 1000000 * unat bps \<le> unat c * unat p div 1000000 * 1000000"
    using assms by simp
  ultimately have "unat c * unat p div 1000000 * unat bps < 2 ^ 128"
    by linarith
  then have "unat (as_u128 c * as_u128 p div PRICE_SCALE * as_u128 bps) =
      unat c * unat p div 1000000 * unat bps"
    using unat_mult_lem [of "as_u128 c * as_u128 p div PRICE_SCALE" "as_u128 bps"]
    by (simp add: unat_div)
  then show ?thesis
    by (simp add: unat_div)
qed

lemma is_healthy_iff:
  assumes "market_wf m"
  shows "is_healthy m c d \<longleftrightarrow>
    unat d \<le> collateral_value m (unat c) * unat (mk_collateral_factor_bps m) div 10000"
  using assms unat_value_share [of "mk_collateral_factor_bps m" c "mk_price m"]
  by (simp add: is_healthy_def max_borrow_def market_wf_def word_le_nat_alt collateral_value_def)

lemma is_liquidatable_iff:
  assumes "market_wf m"
  shows "is_liquidatable m c d \<longleftrightarrow>
    collateral_value m (unat c) * unat (mk_liquidation_threshold_bps m) div 10000 < unat d"
  using assms unat_value_share [of "mk_liquidation_threshold_bps m" c "mk_price m"]
  by (simp add: is_liquidatable_def market_wf_def word_less_nat_alt collateral_value_def)

lemma healthy_not_liquidatable:
  assumes "market_wf m" "is_healthy m c d"
  shows "\<not> is_liquidatable m c d"
proof -
  have "collateral_value m (unat c) * unat (mk_collateral_factor_bps m) div 10000
      \<le> collateral_value m (unat c) * unat (mk_liquidation_threshold_bps m) div 10000"
    using assms(1) by (intro div_le_mono mult_le_mono) (auto simp: market_wf_def)
  then show ?thesis
    using assms by (simp add: is_healthy_iff is_liquidatable_iff)
qed

text \<open>
  The cap on one liquidation: with a close factor strictly between zero and one it is that
  share of the debt rounded up; the clamp cannot panic, since only positive debt is
  liquidatable.
\<close>

lemma max_liquidation_repay_Ok:
  assumes "market_wf m" "d \<noteq> 0"
  obtains cap where "max_liquidation_repay m d = Ok cap" "1 \<le> unat cap" "unat cap \<le> unat d"
    "mk_close_factor_bps m \<noteq> 0 \<Longrightarrow>
       unat cap = (unat d * unat (mk_close_factor_bps m) + 9999) div 10000"
proof (cases "mk_close_factor_bps m = 0 \<or> unat (mk_close_factor_bps m) = 10000")
  case True
  have "as_u128 (mk_close_factor_bps m) = 0 \<or> MM_BPS \<le> as_u128 (mk_close_factor_bps m)"
    using True by (auto simp: word_le_nat_alt)
  then have "max_liquidation_repay m d = Ok d"
    by (auto simp: max_liquidation_repay_def Let_def)
  moreover have "1 \<le> unat d"
    using assms(2) by (simp add: Suc_le_eq unat_gt_0)
  ultimately show thesis
    using that True by auto
next
  case False
  let ?cf = "mk_close_factor_bps m"
  define w where "w = div_ceil (as_u128 d * as_u128 ?cf) MM_BPS"
  have cf: "0 < unat ?cf" "unat ?cf < 10000"
    using False assms(1) by (auto simp: market_wf_def unat_gt_0)
  have w: "unat w = (unat d * unat ?cf + 9999) div 10000"
    by (simp add: w_def unat_div_ceil)
  have d: "1 \<le> unat d"
    using assms(2) by (simp add: Suc_le_eq unat_gt_0)
  have "unat d * unat ?cf \<le> unat d * 9999"
    using cf by simp
  then have "unat d * unat ?cf + 9999 < (unat d + 1) * 10000"
    unfolding distrib_right by linarith
  then have le: "unat w \<le> unat d"
    unfolding w using less_mult_imp_div_less by fastforce
  have "1 \<le> unat d * unat ?cf"
    using d cf(1) by (simp add: Suc_le_eq)
  then have pos: "1 \<le> unat w"
    unfolding w by (simp add: Suc_le_eq div_greater_zero_iff)
  have u: "unat (as_u64 w) = unat w"
    using le unat_bound [of d] by (intro unat_ucast_128_64) simp
  have "max_liquidation_repay m d = Ok (min (max (as_u64 w) 1) d)"
  proof -
    have "as_u128 ?cf \<noteq> 0" "\<not> MM_BPS \<le> as_u128 ?cf"
      using cf by (auto simp: word_le_nat_alt dest: arg_cong [of _ _ unat])
    moreover have "\<not> d < 1"
      using d by (simp add: word_less_nat_alt)
    ultimately show ?thesis
      by (simp add: max_liquidation_repay_def Let_def w_def)
  qed
  then show thesis
    by (rule that) (use u le pos w d in auto)
qed

section \<open>Lender shares are rounded against the caller\<close>

lemma unat_pool_value [simp]:
  "unat (pool_value m) = unat (mk_total_cash m) + unat (mk_total_borrows m)"
  by (simp add: pool_value_def)

lemma as_u64_le: "unat (as_u64 a) \<le> unat a"
  by (simp add: unsigned_ucast_eq take_bit_nat_less_eq_self)

lemma shares_for_deposit_bound:
  assumes "mk_total_lender_shares m \<noteq> 0"
  shows "unat (shares_for_deposit m n) * unat (pool_value m) \<le> unat n * unat (mk_total_lender_shares m)"
proof (cases "pool_value m = 0")
  case False
  let ?q = "as_u128 n * as_u128 (mk_total_lender_shares m) div pool_value m"
  have "unat (shares_for_deposit m n) \<le> unat ?q"
    using False assms as_u64_le [of ?q] by (simp add: shares_for_deposit_def Let_def)
  then have "unat (shares_for_deposit m n) * unat (pool_value m) \<le> unat ?q * unat (pool_value m)"
    by (rule mult_le_mono1)
  also have "\<dots> \<le> unat n * unat (mk_total_lender_shares m)"
    by (simp add: unat_div div_times_less_eq_dividend)
  finally show ?thesis .
qed (metis mult_0_right unsigned_0 zero_le)

lemma ceil_div_bounds:
  fixes a p :: nat
  assumes "0 < p"
  shows "a \<le> (a + p - 1) div p * p" "a \<le> t * p \<Longrightarrow> (a + p - 1) div p \<le> t"
proof -
  have "a + p - 1 < (a + p - 1) div p * p + p"
    using dividend_less_div_times [OF assms, of "a + p - 1"] by simp
  then show "a \<le> (a + p - 1) div p * p"
    using assms by linarith
  assume "a \<le> t * p"
  then have "a + p - 1 < (t + 1) * p"
    using assms unfolding distrib_right by linarith
  then have "(a + p - 1) div p < t + 1"
    by (rule less_mult_imp_div_less)
  then show "(a + p - 1) div p \<le> t"
    by linarith
qed

lemma shares_for_withdraw_bound:
  assumes "0 < unat n" "unat n \<le> unat (pool_value m)"
  shows "unat n * unat (mk_total_lender_shares m) \<le> unat (shares_for_withdraw m n) * unat (pool_value m)"
    "unat (shares_for_withdraw m n) \<le> unat (mk_total_lender_shares m)"
proof -
  let ?t = "mk_total_lender_shares m"
  let ?q = "div_ceil (as_u128 n * as_u128 ?t) (pool_value m)"
  have p: "0 < unat (pool_value m)" "pool_value m \<noteq> 0"
    using assms by (auto simp del: unat_pool_value)
  have q: "unat ?q = (unat n * unat ?t + unat (pool_value m) - 1) div unat (pool_value m)"
    using p(2) by (simp add: unat_div_ceil)
  have "unat n * unat ?t \<le> unat ?t * unat (pool_value m)"
    using assms(2) by (simp add: mult.commute mult_le_mono2 del: unat_pool_value)
  then have le: "unat ?q \<le> unat ?t" and ge: "unat n * unat ?t \<le> unat ?q * unat (pool_value m)"
    using ceil_div_bounds [OF p(1)] q by simp_all
  have "unat (as_u64 ?q) = unat ?q"
    using le unat_bound [of ?t] by (intro unat_ucast_128_64) simp
  then have "unat (shares_for_withdraw m n) = unat ?q"
    using p(2) by (simp add: shares_for_withdraw_def Let_def)
  then show "unat n * unat ?t \<le> unat (shares_for_withdraw m n) * unat (pool_value m)"
    "unat (shares_for_withdraw m n) \<le> unat ?t"
    using le ge by simp_all
qed

section \<open>Accrual\<close>

lemma accrue_market_frame [simp]:
  "mk_total_cash (accrue_market m t) = mk_total_cash m"
  "mk_total_collateral (accrue_market m t) = mk_total_collateral m"
  "mk_total_lender_shares (accrue_market m t) = mk_total_lender_shares m"
  "mk_price (accrue_market m t) = mk_price m"
  "market_wf (accrue_market m t) = market_wf m"
  by (simp_all add: accrue_market_def market_wf_def Let_def)

lemma accrue_position_frame [simp]:
  "ps_collateral (accrue_position p i) = ps_collateral p" "ps_owner (accrue_position p i) = ps_owner p"
  "ps_market (accrue_position p i) = ps_market p"
  "ps_is_initialized (accrue_position p i) = ps_is_initialized p"
  by (simp_all add: accrue_position_def)

lemma grow_le: "0 < (d :: nat) \<Longrightarrow> x \<le> x * (d + g) div d"
  by (simp add: less_eq_div_iff_mult_less_eq)

lemma borrow_rate_clock: "borrow_rate_bps (m\<lparr>mk_last_accrual_ts := t\<rparr>) = borrow_rate_bps m"
  by (simp add: borrow_rate_bps_def utilization_bps_def Let_def)

lemma accrue_market_clock: "mk_last_accrual_ts m < now \<Longrightarrow> mk_last_accrual_ts (accrue_market m now) = now"
  by (auto simp: accrue_market_def Let_def)

lemma accrue_market_run:
  assumes "mk_last_accrual_ts m < now" "mk_total_borrows m \<noteq> 0" "borrow_rate_bps m \<noteq> 0"
  shows "accrue_market m now =
    (let den = MM_BPS * SECONDS_PER_YEAR;
         num = den + borrow_rate_bps m * as_u128 (now - mk_last_accrual_ts m) in
     m\<lparr>mk_last_accrual_ts := now,
       mk_borrow_index := saturating_mul (mk_borrow_index m) num div den,
       mk_total_borrows := as_u64 (as_u128 (mk_total_borrows m) * num div den)\<rparr>)"
  using assms borrow_rate_clock [of now m] by (simp add: accrue_market_def Let_def)

lemma saturating_mul_exact:
  "unat (a :: 'a::len word) * unat b < 2 ^ LENGTH('a) \<Longrightarrow> saturating_mul a b = a * b"
  by (simp add: saturating_mul_def checked_mul_def)

lemma unat_mul_div:
  "unat (a :: 'a::len word) * unat b < 2 ^ LENGTH('a) \<Longrightarrow> unat (a * b div d) = unat a * unat b div unat d"
  by (simp add: unat_div unat_mult_lem [THEN iffD1])

text \<open>
  Interest accrues by the same factor on the index and on the total debt: over a period of
  \<open>elapsed\<close> seconds at \<open>rate\<close> basis points a year both are multiplied by
  \<open>1 + rate * elapsed / (10000 * 31536000)\<close> and rounded down, so neither falls and lenders
  are never diluted by an accrual. The bounds are those of the integers involved.
\<close>

theorem market_accrual_exact:
  assumes "mk_last_accrual_ts m < now" "mk_total_borrows m \<noteq> 0"
    and "factor = 315360000000 + unat (borrow_rate_bps m) * (unat now - unat (mk_last_accrual_ts m))"
    and "factor < 2 ^ 64" "unat (mk_borrow_index m) * factor < 2 ^ 128"
    and "unat (mk_total_borrows m) * factor < 2 ^ 64 * 315360000000"
  shows "unat (mk_borrow_index (accrue_market m now)) = unat (mk_borrow_index m) * factor div 315360000000
    \<and> unat (mk_total_borrows (accrue_market m now)) = unat (mk_total_borrows m) * factor div 315360000000
    \<and> unat (mk_borrow_index m) \<le> unat (mk_borrow_index (accrue_market m now))
    \<and> unat (pool_value m) \<le> unat (pool_value (accrue_market m now))
    \<and> mk_last_accrual_ts (accrue_market m now) = now"
proof -
  let ?m = "m\<lparr>mk_last_accrual_ts := now\<rparr>"
  let ?el = "as_u128 (now - mk_last_accrual_ts m)"
  have rate: "borrow_rate_bps ?m = borrow_rate_bps m"
    by (rule borrow_rate_clock)
  have den: "unat (MM_BPS * SECONDS_PER_YEAR) = 315360000000" "MM_BPS * SECONDS_PER_YEAR \<noteq> 0"
    by (simp_all add: MM_BPS_def SECONDS_PER_YEAR_def)
  define num where "num = MM_BPS * SECONDS_PER_YEAR + borrow_rate_bps m * ?el"
  have el: "unat ?el = unat now - unat (mk_last_accrual_ts m)"
    using assms(1) by (simp add: unat_sub word_less_nat_alt word_le_nat_alt)
  have small: "unat (borrow_rate_bps m) * unat ?el < 2 ^ 128"
    using assms(3,4) el by simp
  have prod: "unat (borrow_rate_bps m * ?el) = unat (borrow_rate_bps m) * unat ?el"
    using small unat_mult_lem [of "borrow_rate_bps m" ?el] by simp
  have num: "unat num = factor"
    using prod el assms(3,4) den(1) unat_add_lem [of "MM_BPS * SECONDS_PER_YEAR" "borrow_rate_bps m * ?el"]
    by (simp add: num_def)
  have idx: "unat (saturating_mul (mk_borrow_index m) num div (MM_BPS * SECONDS_PER_YEAR))
      = unat (mk_borrow_index m) * factor div 315360000000"
    using assms(5) num den(1) by (simp add: saturating_mul_exact unat_mul_div)
  have "unat (mk_total_borrows m) * factor div 315360000000 < 2 ^ 64"
    "unat (mk_total_borrows m) * factor < 2 ^ 128"
    using assms(6) by (simp_all add: less_mult_imp_div_less)
  then have bor: "unat (as_u64 (as_u128 (mk_total_borrows m) * num div (MM_BPS * SECONDS_PER_YEAR)))
      = unat (mk_total_borrows m) * factor div 315360000000"
    using num den(1) by (simp add: unat_ucast_128_64 unat_mul_div)
  have run: "unat (mk_borrow_index (accrue_market m now)) = unat (mk_borrow_index m) * factor div 315360000000"
    "unat (mk_total_borrows (accrue_market m now)) = unat (mk_total_borrows m) * factor div 315360000000"
  proof -
    have "mk_borrow_index (accrue_market m now) = saturating_mul (mk_borrow_index m) num div (MM_BPS * SECONDS_PER_YEAR)
        \<and> mk_total_borrows (accrue_market m now) =
            as_u64 (as_u128 (mk_total_borrows m) * num div (MM_BPS * SECONDS_PER_YEAR))"
      if "borrow_rate_bps m \<noteq> 0"
      using accrue_market_run [OF assms(1,2) that] by (simp add: num_def Let_def)
    moreover have "factor = 315360000000 \<and> accrue_market m now = ?m" if "borrow_rate_bps m = 0"
      using that assms(1-3) rate by (simp add: accrue_market_def Let_def)
    ultimately show "unat (mk_borrow_index (accrue_market m now)) = unat (mk_borrow_index m) * factor div 315360000000"
      "unat (mk_total_borrows (accrue_market m now)) = unat (mk_total_borrows m) * factor div 315360000000"
      using idx bor by (cases "borrow_rate_bps m = 0"; simp)+
  qed
  then show ?thesis
    using grow_le [of 315360000000] assms(1,3) by (simp add: accrue_market_clock)
qed

definition sample_mm :: MarketState where
  "sample_mm = default_market\<lparr>mk_collateral_factor_bps := 7500, mk_liquidation_threshold_bps := 8000,
     mk_liquidation_bonus_bps := 500, mk_close_factor_bps := 5000, mk_price := 2000000,
     mk_max_price_staleness := 60, mk_base_rate_bps := 200, mk_slope_bps := 1000,
     mk_kink_utilization_bps := 8000, mk_jump_slope_bps := 10000, mk_borrow_index := INDEX_SCALE,
     mk_last_accrual_ts := 100, mk_price_updated_at := 100, mk_is_initialized := True\<rparr>"

theorem market_accrual_exact_witness:
  "let m = sample_mm\<lparr>mk_total_borrows := 5000000000, mk_total_cash := 5000000000\<rparr>;
       m' = accrue_market m 31536100 in
   unat (mk_total_borrows m') = 5350000000 \<and> unat (mk_borrow_index m') = 1070000000000"
proof -
  let ?m = "sample_mm\<lparr>mk_total_borrows := 5000000000, mk_total_cash := 5000000000\<rparr>"
  have rate: "borrow_rate_bps ?m = 700"
    by (simp add: sample_mm_def default_market_def borrow_rate_bps_def utilization_bps_def checked_div_def
        MM_BPS_def Let_def)
  have "337435200000 = 315360000000 + unat (borrow_rate_bps ?m) * (unat (31536100 :: u64) - unat (mk_last_accrual_ts ?m))"
    unfolding rate by (simp add: sample_mm_def)
  from market_accrual_exact [OF _ _ this] show ?thesis
    by (simp add: Let_def sample_mm_def INDEX_SCALE_def)
qed

end
