(* ===== verification/Money_Market.thy ===== *)
theory Money_Market
  imports Market_State
begin

text \<open>
  The instructions of the money market, \<open>src/himsha-programs/money-market/src/lib.rs\<close>: the
  builders and the nine arms of \<open>process\<close>, which move tokens by cross-program calls. The ten
  parameters of \<open>InitMarket\<close> are the record \<open>init_params\<close>.
\<close>

section \<open>Instructions\<close>

record init_params =
  ip_collateral_factor_bps :: u64
  ip_liquidation_threshold_bps :: u64
  ip_liquidation_bonus_bps :: u64
  ip_close_factor_bps :: u64
  ip_price :: u64
  ip_base_rate_bps :: u64
  ip_slope_bps :: u64
  ip_kink_utilization_bps :: u64
  ip_jump_slope_bps :: u64
  ip_max_price_staleness :: u64

datatype MoneyMarketInstruction =
    Mm_InitMarket init_params
  | Mm_AddLiquidity u64
  | Mm_RemoveLiquidity u64
  | Mm_Supply u64
  | Mm_Withdraw u64
  | Mm_Borrow u64
  | Mm_Repay u64
  | Mm_Liquidate u64
  | Mm_SyncPrice

record market_env =
  mm_sha :: sha256
  mm_instr :: "MoneyMarketInstruction codec"
  mm_market :: "MarketState codec"
  mm_position :: "Position codec"
  mm_lender :: "LenderPosition codec"
  mm_feed :: "PriceFeed codec"
  mm_token :: token_env

definition market_env_ok :: "market_env \<Rightarrow> bool" where
  "market_env_ok e \<longleftrightarrow> codec_ok (mm_instr e) \<and> codec_ok (mm_market e) \<and> codec_ok (mm_position e)
     \<and> codec_ok (mm_lender e) \<and> codec_ok (mm_feed e) \<and> token_env_ok (mm_token e)"

section \<open>Instruction builders\<close>

definition init_market ::
  "market_env \<Rightarrow> Pubkey \<Rightarrow> Pubkey \<Rightarrow> Pubkey \<Rightarrow> Pubkey \<Rightarrow> Pubkey \<Rightarrow> Pubkey \<Rightarrow> Pubkey \<Rightarrow> init_params
     \<Rightarrow> Instruction presult" where
  "init_market e market collateral_mint borrow_mint collateral_vault borrow_vault admin oracle_feed params =
     with_args (mm_instr e) (money_market_program (mm_sha e))
       [meta_writable market False, meta_readonly collateral_mint False,
        meta_readonly borrow_mint False, meta_writable collateral_vault False,
        meta_writable borrow_vault False, meta_readonly admin True, meta_readonly oracle_feed False]
       (Mm_InitMarket params)"

definition sync_price :: "market_env \<Rightarrow> Pubkey \<Rightarrow> Pubkey \<Rightarrow> Instruction presult" where
  "sync_price e market oracle_feed =
     with_args (mm_instr e) (money_market_program (mm_sha e))
       [meta_writable market False, meta_readonly oracle_feed False] Mm_SyncPrice"

definition liquidity_ix ::
  "market_env \<Rightarrow> MoneyMarketInstruction \<Rightarrow> Pubkey \<Rightarrow> Pubkey \<Rightarrow> Pubkey \<Rightarrow> Pubkey \<Rightarrow> Pubkey
     \<Rightarrow> Instruction presult" where
  "liquidity_ix e tag market lender_position provider_borrow borrow_vault provider =
     with_args (mm_instr e) (money_market_program (mm_sha e))
       [meta_writable market False, meta_writable lender_position False,
        meta_writable provider_borrow False, meta_writable borrow_vault False,
        meta_readonly provider True] tag"

definition add_liquidity ::
  "market_env \<Rightarrow> Pubkey \<Rightarrow> Pubkey \<Rightarrow> Pubkey \<Rightarrow> Pubkey \<Rightarrow> Pubkey \<Rightarrow> u64 \<Rightarrow> Instruction presult" where
  "add_liquidity e market lender_position provider_borrow borrow_vault provider amount =
     liquidity_ix e (Mm_AddLiquidity amount) market lender_position provider_borrow borrow_vault provider"

definition remove_liquidity ::
  "market_env \<Rightarrow> Pubkey \<Rightarrow> Pubkey \<Rightarrow> Pubkey \<Rightarrow> Pubkey \<Rightarrow> Pubkey \<Rightarrow> u64 \<Rightarrow> Instruction presult" where
  "remove_liquidity e market lender_position provider_borrow borrow_vault provider amount =
     liquidity_ix e (Mm_RemoveLiquidity amount) market lender_position provider_borrow borrow_vault provider"

definition vault_ix ::
  "market_env \<Rightarrow> MoneyMarketInstruction \<Rightarrow> Pubkey \<Rightarrow> Pubkey \<Rightarrow> Pubkey \<Rightarrow> Pubkey \<Rightarrow> Pubkey
     \<Rightarrow> Instruction presult" where
  "vault_ix e tag market position user_token vault user =
     with_args (mm_instr e) (money_market_program (mm_sha e))
       [meta_writable market False, meta_writable position False, meta_writable user_token False,
        meta_writable vault False, meta_readonly user True] tag"

definition market_supply ::
  "market_env \<Rightarrow> Pubkey \<Rightarrow> Pubkey \<Rightarrow> Pubkey \<Rightarrow> Pubkey \<Rightarrow> Pubkey \<Rightarrow> u64 \<Rightarrow> Instruction presult" where
  "market_supply e market position user_collateral collateral_vault user amount =
     vault_ix e (Mm_Supply amount) market position user_collateral collateral_vault user"

definition market_withdraw ::
  "market_env \<Rightarrow> Pubkey \<Rightarrow> Pubkey \<Rightarrow> Pubkey \<Rightarrow> Pubkey \<Rightarrow> Pubkey \<Rightarrow> u64 \<Rightarrow> Instruction presult" where
  "market_withdraw e market position user_collateral collateral_vault user amount =
     vault_ix e (Mm_Withdraw amount) market position user_collateral collateral_vault user"

definition market_borrow ::
  "market_env \<Rightarrow> Pubkey \<Rightarrow> Pubkey \<Rightarrow> Pubkey \<Rightarrow> Pubkey \<Rightarrow> Pubkey \<Rightarrow> u64 \<Rightarrow> Instruction presult" where
  "market_borrow e market position user_borrow borrow_vault user amount =
     vault_ix e (Mm_Borrow amount) market position user_borrow borrow_vault user"

definition market_repay ::
  "market_env \<Rightarrow> Pubkey \<Rightarrow> Pubkey \<Rightarrow> Pubkey \<Rightarrow> Pubkey \<Rightarrow> Pubkey \<Rightarrow> u64 \<Rightarrow> Instruction presult" where
  "market_repay e market position user_borrow borrow_vault user amount =
     vault_ix e (Mm_Repay amount) market position user_borrow borrow_vault user"

definition market_liquidate ::
  "market_env \<Rightarrow> Pubkey \<Rightarrow> Pubkey \<Rightarrow> Pubkey \<Rightarrow> Pubkey \<Rightarrow> Pubkey \<Rightarrow> Pubkey \<Rightarrow> Pubkey \<Rightarrow> u64
     \<Rightarrow> Instruction presult" where
  "market_liquidate e market position liquidator_borrow borrow_vault liquidator_collateral
       collateral_vault liquidator repay_amount =
     with_args (mm_instr e) (money_market_program (mm_sha e))
       [meta_writable market False, meta_writable position False,
        meta_writable liquidator_borrow False, meta_writable borrow_vault False,
        meta_writable liquidator_collateral False, meta_writable collateral_vault False,
        meta_readonly liquidator True] (Mm_Liquidate repay_amount)"

section \<open>Helpers\<close>

definition mm_transfer :: "market_env \<Rightarrow> accounts \<Rightarrow> nat \<Rightarrow> nat \<Rightarrow> nat \<Rightarrow> u64 \<Rightarrow> accounts pexec" where
  "mm_transfer e accounts src dst owner amount =
     token_cpi (mm_sha e) (mm_token e) accounts [src, dst, owner] [] (Tok_Transfer amount)"

definition mm_transfer_signed :: "market_env \<Rightarrow> accounts \<Rightarrow> nat \<Rightarrow> nat \<Rightarrow> nat \<Rightarrow> u64 \<Rightarrow> accounts pexec" where
  "mm_transfer_signed e accounts src dst owner amount =
     token_cpi (mm_sha e) (mm_token e) accounts [src, dst, owner] [2] (Tok_Transfer amount)"

definition load_position :: "market_env \<Rightarrow> AccountInfo \<Rightarrow> Pubkey \<Rightarrow> Pubkey \<Rightarrow> Position presult" where
  "load_position e acc market_key owner =
     rbind (unwrap_or default_position (read_data (mm_position e) acc)) (\<lambda>pos.
     if \<not> ps_is_initialized pos then
       Ok (pos\<lparr>ps_owner := owner, ps_market := market_key, ps_is_initialized := True\<rparr>)
     else if ps_market pos \<noteq> market_key then Err InvalidAccountData
     else Ok pos)"

definition load_lender_position ::
  "market_env \<Rightarrow> AccountInfo \<Rightarrow> Pubkey \<Rightarrow> Pubkey \<Rightarrow> LenderPosition presult" where
  "load_lender_position e acc market_key owner =
     rbind (unwrap_or default_lender (read_data (mm_lender e) acc)) (\<lambda>pos.
     if \<not> lp_is_initialized pos then
       Ok (pos\<lparr>lp_owner := owner, lp_market := market_key, lp_is_initialized := True\<rparr>)
     else if lp_market pos \<noteq> market_key \<or> lp_owner pos \<noteq> owner then Err InvalidAccountData
     else Ok pos)"

text \<open>The last two statements of most arms: the market, then the position, are written.\<close>

definition write_both ::
  "'a codec \<Rightarrow> 'a \<Rightarrow> 'b codec \<Rightarrow> 'b \<Rightarrow> accounts \<Rightarrow> accounts presult" where
  "write_both c v d w accounts = rbind (write_at c v accounts 0) (\<lambda>accounts. write_at d w accounts 1)"

section \<open>Processing\<close>

definition mm_process_init_market :: "market_env \<Rightarrow> accounts \<Rightarrow> init_params \<Rightarrow> u64 \<Rightarrow> accounts presult" where
  "mm_process_init_market e accounts p timestamp =
     (if length accounts < 7 then Err NotEnoughAccounts
      else rbind (require_signer (accounts ! 5)) (\<lambda>_.
      if as_u64 MM_BPS < ip_collateral_factor_bps p \<or> as_u64 MM_BPS < ip_liquidation_threshold_bps p
        then Err InvalidInstruction
      else if as_u64 MM_BPS < ip_kink_utilization_bps p \<or> as_u64 MM_BPS < ip_close_factor_bps p
        then Err InvalidInstruction
      else if ip_liquidation_threshold_bps p < ip_collateral_factor_bps p then Err InvalidInstruction
      else if ip_price p = 0 then Err InvalidInstruction
      else rbind (unwrap_or default_market (read_at (mm_market e) accounts 0)) (\<lambda>market.
      if mk_is_initialized market then Err AlreadyInitialized
      else write_at (mm_market e)
        (market\<lparr>mk_collateral_mint := a_key (accounts ! 1), mk_borrow_mint := a_key (accounts ! 2),
           mk_collateral_vault := a_key (accounts ! 3), mk_borrow_vault := a_key (accounts ! 4),
           mk_oracle_feed := a_key (accounts ! 6),
           mk_collateral_factor_bps := ip_collateral_factor_bps p,
           mk_liquidation_threshold_bps := ip_liquidation_threshold_bps p,
           mk_liquidation_bonus_bps := ip_liquidation_bonus_bps p,
           mk_close_factor_bps := ip_close_factor_bps p, mk_price := ip_price p,
           mk_price_updated_at := timestamp, mk_max_price_staleness := ip_max_price_staleness p,
           mk_base_rate_bps := ip_base_rate_bps p, mk_slope_bps := ip_slope_bps p,
           mk_kink_utilization_bps := ip_kink_utilization_bps p,
           mk_jump_slope_bps := ip_jump_slope_bps p, mk_borrow_index := INDEX_SCALE,
           mk_last_accrual_ts := timestamp, mk_is_initialized := True\<rparr>) accounts 0)))"

definition mm_process_sync_price :: "market_env \<Rightarrow> accounts \<Rightarrow> accounts presult" where
  "mm_process_sync_price e accounts =
     (if length accounts < 2 then Err NotEnoughAccounts
      else rbind (read_at (mm_market e) accounts 0) (\<lambda>market.
      if \<not> mk_is_initialized market then Err NotInitialized
      else if a_key (accounts ! 1) \<noteq> mk_oracle_feed market then Err InvalidAccountData
      else rbind (read_at (mm_feed e) accounts 1) (\<lambda>feed.
      if \<not> pf_is_initialized feed \<or> pf_price feed = 0 then Err StalePrice
      else write_at (mm_market e)
        (market\<lparr>mk_price := pf_price feed, mk_price_updated_at := pf_publish_ts feed\<rparr>) accounts 0)))"

text \<open>The common head of the arms on five accounts: signature, market, accrual.\<close>

definition open_market :: "market_env \<Rightarrow> accounts \<Rightarrow> u64 \<Rightarrow> MarketState presult" where
  "open_market e accounts timestamp =
     rbind (read_at (mm_market e) accounts 0) (\<lambda>market.
     if \<not> mk_is_initialized market then Err NotInitialized
     else Ok (accrue_market market timestamp))"

definition mm_process_add_liquidity :: "market_env \<Rightarrow> accounts \<Rightarrow> u64 \<Rightarrow> u64 \<Rightarrow> accounts pexec" where
  "mm_process_add_liquidity e accounts amount timestamp =
     (if length accounts < 5 then xlift (Err NotEnoughAccounts)
      else
        let market_key = a_key (accounts ! 0); provider = a_key (accounts ! 4) in
        xbind (xlift (require_signer (accounts ! 4))) (\<lambda>_.
        if amount = 0 then xlift (Err InvalidInstruction)
        else xbind (xlift (open_market e accounts timestamp)) (\<lambda>market.
        xbind (xlift (load_lender_position e (accounts ! 1) market_key provider)) (\<lambda>lender.
        let shares = shares_for_deposit market amount in
        xbind (mm_transfer e accounts 2 3 4 amount) (\<lambda>accounts.
        xbind (xlift (ok_or (checked_add (mk_total_cash market) amount) Overflow)) (\<lambda>cash.
        xbind (xlift (ok_or (checked_add (mk_total_lender_shares market) shares) Overflow)) (\<lambda>total.
        xbind (xlift (ok_or (checked_add (lp_shares lender) shares) Overflow)) (\<lambda>held.
        xlift (write_both (mm_market e)
          (market\<lparr>mk_total_cash := cash, mk_total_lender_shares := total\<rparr>)
          (mm_lender e) (lender\<lparr>lp_shares := held\<rparr>) accounts)))))))))"

definition mm_process_remove_liquidity :: "market_env \<Rightarrow> accounts \<Rightarrow> u64 \<Rightarrow> u64 \<Rightarrow> accounts pexec" where
  "mm_process_remove_liquidity e accounts amount timestamp =
     (if length accounts < 5 then xlift (Err NotEnoughAccounts)
      else
        let market_key = a_key (accounts ! 0); provider = a_key (accounts ! 4) in
        xbind (xlift (require_signer (accounts ! 4))) (\<lambda>_.
        if amount = 0 then xlift (Err InvalidInstruction)
        else xbind (xlift (open_market e accounts timestamp)) (\<lambda>market.
        xbind (xlift (load_lender_position e (accounts ! 1) market_key provider)) (\<lambda>lender.
        let burn = shares_for_withdraw market amount in
        if lp_shares lender < burn then xlift (Err InsufficientFunds)
        else if mk_total_cash market < amount then xlift (Err InsufficientLiquidity)
        else xbind (mm_transfer_signed e accounts 3 2 0 amount) (\<lambda>accounts.
        xbind (xlift (ok_or (checked_sub (mk_total_cash market) amount) InsufficientLiquidity)) (\<lambda>cash.
        xbind (xlift (ok_or (checked_sub (mk_total_lender_shares market) burn) Overflow)) (\<lambda>total.
        xbind (xlift (ok_or (checked_sub (lp_shares lender) burn) InsufficientFunds)) (\<lambda>held.
        xlift (write_both (mm_market e)
          (market\<lparr>mk_total_cash := cash, mk_total_lender_shares := total\<rparr>)
          (mm_lender e) (lender\<lparr>lp_shares := held\<rparr>) accounts)))))))))"

definition mm_process_supply :: "market_env \<Rightarrow> accounts \<Rightarrow> u64 \<Rightarrow> u64 \<Rightarrow> accounts pexec" where
  "mm_process_supply e accounts amount timestamp =
     (if length accounts < 5 then xlift (Err NotEnoughAccounts)
      else
        let market_key = a_key (accounts ! 0); user = a_key (accounts ! 4) in
        xbind (xlift (require_signer (accounts ! 4))) (\<lambda>_.
        xbind (xlift (open_market e accounts timestamp)) (\<lambda>market.
        xbind (xlift (load_position e (accounts ! 1) market_key user)) (\<lambda>pos.
        let pos = accrue_position pos (mk_borrow_index market) in
        xbind (mm_transfer e accounts 2 3 4 amount) (\<lambda>accounts.
        xbind (xlift (ok_or (checked_add (ps_collateral pos) amount) Overflow)) (\<lambda>collateral.
        xbind (xlift (ok_or (checked_add (mk_total_collateral market) amount) Overflow)) (\<lambda>total.
        xlift (write_both (mm_market e) (market\<lparr>mk_total_collateral := total\<rparr>)
          (mm_position e) (pos\<lparr>ps_collateral := collateral\<rparr>) accounts))))))))"

definition mm_process_withdraw :: "market_env \<Rightarrow> accounts \<Rightarrow> u64 \<Rightarrow> u64 \<Rightarrow> accounts pexec" where
  "mm_process_withdraw e accounts amount timestamp =
     (if length accounts < 5 then xlift (Err NotEnoughAccounts)
      else
        let market_key = a_key (accounts ! 0); user = a_key (accounts ! 4) in
        xbind (xlift (require_signer (accounts ! 4))) (\<lambda>_.
        xbind (xlift (open_market e accounts timestamp)) (\<lambda>market.
        xbind (xlift (load_position e (accounts ! 1) market_key user)) (\<lambda>pos.
        if ps_owner pos \<noteq> user then xlift (Err Unauthorized)
        else
          let pos = accrue_position pos (mk_borrow_index market) in
          xbind (xlift (ensure_fresh_price market timestamp)) (\<lambda>_.
          xbind (xlift (ok_or (checked_sub (ps_collateral pos) amount) InsufficientFunds)) (\<lambda>remaining.
          if \<not> is_healthy market remaining (ps_debt pos) then xlift (Err Undercollateralized)
          else xbind (mm_transfer_signed e accounts 3 2 0 amount) (\<lambda>accounts.
          xbind (xlift (ok_or (checked_sub (mk_total_collateral market) amount) Overflow)) (\<lambda>total.
          xlift (write_both (mm_market e) (market\<lparr>mk_total_collateral := total\<rparr>)
            (mm_position e) (pos\<lparr>ps_collateral := remaining\<rparr>) accounts)))))))))"

definition mm_process_borrow :: "market_env \<Rightarrow> accounts \<Rightarrow> u64 \<Rightarrow> u64 \<Rightarrow> accounts pexec" where
  "mm_process_borrow e accounts amount timestamp =
     (if length accounts < 5 then xlift (Err NotEnoughAccounts)
      else
        let market_key = a_key (accounts ! 0); user = a_key (accounts ! 4) in
        xbind (xlift (require_signer (accounts ! 4))) (\<lambda>_.
        xbind (xlift (open_market e accounts timestamp)) (\<lambda>market.
        xbind (xlift (load_position e (accounts ! 1) market_key user)) (\<lambda>pos.
        if ps_owner pos \<noteq> user then xlift (Err Unauthorized)
        else
          let pos = accrue_position pos (mk_borrow_index market) in
          xbind (xlift (ensure_fresh_price market timestamp)) (\<lambda>_.
          xbind (xlift (ok_or (checked_add (ps_debt pos) amount) Overflow)) (\<lambda>new_debt.
          if \<not> is_healthy market (ps_collateral pos) new_debt then xlift (Err Undercollateralized)
          else xbind (xlift (ok_or (checked_sub (mk_total_cash market) amount) InsufficientLiquidity)) (\<lambda>new_cash.
          xbind (xmap_err (\<lambda>err. if err = InsufficientFunds then InsufficientLiquidity else err)
                   (mm_transfer_signed e accounts 3 2 0 amount)) (\<lambda>accounts.
          xbind (xlift (ok_or (checked_add (mk_total_borrows market) amount) Overflow)) (\<lambda>total.
          xlift (write_both (mm_market e)
            (market\<lparr>mk_total_cash := new_cash, mk_total_borrows := total\<rparr>)
            (mm_position e) (pos\<lparr>ps_debt := new_debt\<rparr>) accounts))))))))))"

definition mm_process_repay :: "market_env \<Rightarrow> accounts \<Rightarrow> u64 \<Rightarrow> u64 \<Rightarrow> accounts pexec" where
  "mm_process_repay e accounts amount timestamp =
     (if length accounts < 5 then xlift (Err NotEnoughAccounts)
      else
        let market_key = a_key (accounts ! 0); user = a_key (accounts ! 4) in
        xbind (xlift (require_signer (accounts ! 4))) (\<lambda>_.
        xbind (xlift (open_market e accounts timestamp)) (\<lambda>market.
        xbind (xlift (load_position e (accounts ! 1) market_key user)) (\<lambda>pos.
        let pos = accrue_position pos (mk_borrow_index market);
            repay_amount = min amount (ps_debt pos) in
        xbind (mm_transfer e accounts 2 3 4 repay_amount) (\<lambda>accounts.
        xbind (xlift (ok_or (checked_add (mk_total_cash market) repay_amount) Overflow)) (\<lambda>cash.
        xlift (write_both (mm_market e)
          (market\<lparr>mk_total_cash := cash,
                  mk_total_borrows := saturating_sub (mk_total_borrows market) repay_amount\<rparr>)
          (mm_position e) (pos\<lparr>ps_debt := ps_debt pos - repay_amount\<rparr>) accounts)))))))"

definition mm_process_liquidate :: "market_env \<Rightarrow> accounts \<Rightarrow> u64 \<Rightarrow> u64 \<Rightarrow> accounts pexec" where
  "mm_process_liquidate e accounts repay_amount timestamp =
     (if length accounts < 7 then xlift (Err NotEnoughAccounts)
      else xbind (xlift (require_signer (accounts ! 6))) (\<lambda>_.
        let market_key = a_key (accounts ! 0) in
        xbind (xlift (open_market e accounts timestamp)) (\<lambda>market.
        xbind (xlift (read_at (mm_position e) accounts 1)) (\<lambda>pos.
        if \<not> ps_is_initialized pos \<or> ps_market pos \<noteq> market_key then xlift (Err InvalidAccountData)
        else
          let pos = accrue_position pos (mk_borrow_index market) in
          xbind (xlift (ensure_fresh_price market timestamp)) (\<lambda>_.
          if \<not> is_liquidatable market (ps_collateral pos) (ps_debt pos) then xlift (Err Unauthorized)
          else xbind (xlift (max_liquidation_repay market (ps_debt pos))) (\<lambda>cap.
          let repaid = min repay_amount cap in
          if repaid = 0 then xlift (Err InvalidInstruction)
          else xbind (xlift (seize_collateral market repaid)) (\<lambda>seize.
          let seized = min (as_u64 seize) (ps_collateral pos) in
          xbind (mm_transfer e accounts 2 3 6 repaid) (\<lambda>accounts.
          xbind (mm_transfer_signed e accounts 5 4 0 seized) (\<lambda>accounts.
          xbind (xlift (ok_or (checked_add (mk_total_cash market) repaid) Overflow)) (\<lambda>cash.
          xlift (write_both (mm_market e)
            (market\<lparr>mk_total_borrows := saturating_sub (mk_total_borrows market) repaid,
                    mk_total_cash := cash,
                    mk_total_collateral := saturating_sub (mk_total_collateral market) seized\<rparr>)
            (mm_position e)
            (pos\<lparr>ps_debt := ps_debt pos - repaid, ps_collateral := ps_collateral pos - seized\<rparr>)
            accounts)))))))))))"

definition money_market_process :: "market_env \<Rightarrow> u64 \<Rightarrow> process" where
  "money_market_process e timestamp accounts data =
     xbind (xlift (ok_or (decode (mm_instr e) data) InvalidInstruction)) (\<lambda>ix. case ix of
       Mm_InitMarket p \<Rightarrow> xlift (mm_process_init_market e accounts p timestamp)
     | Mm_SyncPrice \<Rightarrow> xlift (mm_process_sync_price e accounts)
     | Mm_AddLiquidity amount \<Rightarrow> mm_process_add_liquidity e accounts amount timestamp
     | Mm_RemoveLiquidity amount \<Rightarrow> mm_process_remove_liquidity e accounts amount timestamp
     | Mm_Supply amount \<Rightarrow> mm_process_supply e accounts amount timestamp
     | Mm_Withdraw amount \<Rightarrow> mm_process_withdraw e accounts amount timestamp
     | Mm_Borrow amount \<Rightarrow> mm_process_borrow e accounts amount timestamp
     | Mm_Repay amount \<Rightarrow> mm_process_repay e accounts amount timestamp
     | Mm_Liquidate repay_amount \<Rightarrow> mm_process_liquidate e accounts repay_amount timestamp)"

section \<open>The contract\<close>

lemmas mm_transfer_defs = mm_transfer_def mm_transfer_signed_def

lemma write_both_headers: "write_both c v d w as = Ok as' \<Longrightarrow> same_headers as as'"
  unfolding write_both_def rbind_Ok_iff by (blast intro: same_headers_trans write_at_headers)

lemma keeps_write_both:
  "same_headers accounts as \<Longrightarrow> keeps (xlift (write_both c v d w as)) (same_headers accounts)"
  by (simp add: keeps_xlift_iff) (blast intro: same_headers_trans write_both_headers)

lemma keeps_xbind_token_cpi_err:
  assumes "same_headers accounts as" "\<And>as'. same_headers accounts as' \<Longrightarrow> keeps (f as') P"
  shows "keeps (xbind (xmap_err g (token_cpi sha e as is ws ix)) f) P"
  by (rule keeps_xbind [OF keeps_xmap_err [OF token_cpi_keeps]]) (use assms same_headers_trans in blast)

lemmas mm_contract_rules =
  keeps_write_both keeps_xbind_token_cpi keeps_xbind_token_cpi_err

lemma mm_process_init_market_headers:
  "mm_process_init_market e accounts p ts = Ok as \<Longrightarrow> same_headers accounts as"
  unfolding mm_process_init_market_def by (auto simp: rbind_Ok_iff if_Err_Ok_iff)

lemma mm_process_sync_price_headers:
  "mm_process_sync_price e accounts = Ok as \<Longrightarrow> same_headers accounts as"
  unfolding mm_process_sync_price_def by (auto simp: rbind_Ok_iff if_Err_Ok_iff)

lemma mm_liquidity_keeps:
  "keeps (mm_process_add_liquidity e accounts n ts) (same_headers accounts)"
  "keeps (mm_process_remove_liquidity e accounts n ts) (same_headers accounts)"
  unfolding mm_process_add_liquidity_def mm_process_remove_liquidity_def mm_transfer_defs Let_def
  by (auto intro!: mm_contract_rules [where accounts = accounts])

lemma mm_collateral_keeps:
  "keeps (mm_process_supply e accounts n ts) (same_headers accounts)"
  "keeps (mm_process_withdraw e accounts n ts) (same_headers accounts)"
  unfolding mm_process_supply_def mm_process_withdraw_def mm_transfer_defs Let_def
  by (auto intro!: mm_contract_rules [where accounts = accounts])

lemma mm_debt_keeps:
  "keeps (mm_process_borrow e accounts n ts) (same_headers accounts)"
  "keeps (mm_process_repay e accounts n ts) (same_headers accounts)"
  "keeps (mm_process_liquidate e accounts n ts) (same_headers accounts)"
  unfolding mm_process_borrow_def mm_process_repay_def mm_process_liquidate_def mm_transfer_defs Let_def
  by (auto intro!: mm_contract_rules [where accounts = accounts])

lemma money_market_keeps: "keeps (money_market_process e ts accounts data) (same_headers accounts)"
  using mm_liquidity_keeps mm_collateral_keeps mm_debt_keeps
  by (auto simp: money_market_process_def keeps_xlift_iff dest: mm_process_init_market_headers
      mm_process_sync_price_headers split: MoneyMarketInstruction.splits)

interpretation mmk: himsha_program "money_market_process e ts" for e ts
  by unfold_locales (rule money_market_keeps)

section \<open>What each arm did when it returned\<close>

lemma write_both_reads:
  assumes "codec_ok c" "codec_ok d" "write_both c v d w as = Ok as'"
  shows "read_at c as' 0 = Ok v" "read_at d as' 1 = Ok w" "length as' = length as"
    "1 < l \<Longrightarrow> as' ! l = as ! l"
  using assms by (auto simp: write_both_def monad_iffs dest: codec_okD)

lemma write_market_back:
  "write_at c v accounts i = Ok accounts' \<Longrightarrow> codec_ok c \<longrightarrow> read_at c accounts' i = Ok v"
  by (auto simp: monad_iffs dest: codec_okD)

lemma add_liquidity_run:
  assumes "mm_process_add_liquidity e accounts n ts c = (Ok accounts', c')"
  obtains m lender as1 c1 cash total held where "open_market e accounts ts = Ok m" "n \<noteq> 0"
    "a_is_signer (accounts ! 4)"
    "mm_transfer e accounts 2 3 4 n c = (Ok as1, c1)"
    "checked_add (mk_total_cash m) n = Some cash"
    "checked_add (mk_total_lender_shares m) (shares_for_deposit m n) = Some total"
    "write_both (mm_market e) (m\<lparr>mk_total_cash := cash, mk_total_lender_shares := total\<rparr>)
       (mm_lender e) (lender\<lparr>lp_shares := held\<rparr>) as1 = Ok accounts'"
  using assms unfolding mm_process_add_liquidity_def Let_def
  by (auto simp: monad_iffs simp del: read_at_Ok_iff split: if_splits)

lemma remove_liquidity_run:
  assumes "mm_process_remove_liquidity e accounts n ts c = (Ok accounts', c')"
  obtains m lender as1 c1 cash total held where "open_market e accounts ts = Ok m" "n \<noteq> 0"
    "a_is_signer (accounts ! 4)"
    "mm_transfer_signed e accounts 3 2 0 n c = (Ok as1, c1)"
    "checked_sub (mk_total_cash m) n = Some cash"
    "checked_sub (mk_total_lender_shares m) (shares_for_withdraw m n) = Some total"
    "write_both (mm_market e) (m\<lparr>mk_total_cash := cash, mk_total_lender_shares := total\<rparr>)
       (mm_lender e) (lender\<lparr>lp_shares := held\<rparr>) as1 = Ok accounts'"
  using assms unfolding mm_process_remove_liquidity_def Let_def
  by (auto simp: monad_iffs simp del: read_at_Ok_iff split: if_splits)

lemma supply_run:
  assumes "mm_process_supply e accounts n ts c = (Ok accounts', c')"
  obtains m pos as1 c1 collateral total where "open_market e accounts ts = Ok m"
    "a_is_signer (accounts ! 4)"
    "mm_transfer e accounts 2 3 4 n c = (Ok as1, c1)"
    "checked_add (mk_total_collateral m) n = Some total"
    "write_both (mm_market e) (m\<lparr>mk_total_collateral := total\<rparr>)
       (mm_position e) (pos\<lparr>ps_collateral := collateral\<rparr>) as1 = Ok accounts'"
  using assms unfolding mm_process_supply_def Let_def
  by (auto simp: monad_iffs simp del: read_at_Ok_iff split: if_splits)

lemma withdraw_run:
  assumes "mm_process_withdraw e accounts n ts c = (Ok accounts', c')"
  obtains m pos0 pos remaining total as1 c1 where "open_market e accounts ts = Ok m"
    "a_is_signer (accounts ! 4)"
    "load_position e (accounts ! 1) (a_key (accounts ! 0)) (a_key (accounts ! 4)) = Ok pos0"
    "pos = accrue_position pos0 (mk_borrow_index m)" "ps_owner pos = a_key (accounts ! 4)"
    "ensure_fresh_price m ts = Ok ()" "checked_sub (ps_collateral pos) n = Some remaining"
    "is_healthy m remaining (ps_debt pos)"
    "mm_transfer_signed e accounts 3 2 0 n c = (Ok as1, c1)"
    "checked_sub (mk_total_collateral m) n = Some total"
    "write_both (mm_market e) (m\<lparr>mk_total_collateral := total\<rparr>)
       (mm_position e) (pos\<lparr>ps_collateral := remaining\<rparr>) as1 = Ok accounts'"
  using assms unfolding mm_process_withdraw_def Let_def
  by (auto simp: monad_iffs simp del: read_at_Ok_iff split: if_splits)

lemma borrow_run:
  assumes "mm_process_borrow e accounts n ts c = (Ok accounts', c')"
  obtains m pos0 pos debt cash total as1 c1 where "open_market e accounts ts = Ok m"
    "a_is_signer (accounts ! 4)"
    "load_position e (accounts ! 1) (a_key (accounts ! 0)) (a_key (accounts ! 4)) = Ok pos0"
    "pos = accrue_position pos0 (mk_borrow_index m)" "ps_owner pos = a_key (accounts ! 4)"
    "ensure_fresh_price m ts = Ok ()" "checked_add (ps_debt pos) n = Some debt"
    "is_healthy m (ps_collateral pos) debt"
    "checked_sub (mk_total_cash m) n = Some cash"
    "mm_transfer_signed e accounts 3 2 0 n c = (Ok as1, c1)"
    "checked_add (mk_total_borrows m) n = Some total"
    "write_both (mm_market e) (m\<lparr>mk_total_cash := cash, mk_total_borrows := total\<rparr>)
       (mm_position e) (pos\<lparr>ps_debt := debt\<rparr>) as1 = Ok accounts'"
  using assms unfolding mm_process_borrow_def Let_def
  by (auto simp: monad_iffs simp del: read_at_Ok_iff split: if_splits)

lemma repay_run:
  assumes "mm_process_repay e accounts n ts c = (Ok accounts', c')"
  obtains m pos repaid cash as1 c1 where "open_market e accounts ts = Ok m"
    "a_is_signer (accounts ! 4)"
    "repaid = min n (ps_debt pos)" "mm_transfer e accounts 2 3 4 repaid c = (Ok as1, c1)"
    "checked_add (mk_total_cash m) repaid = Some cash"
    "write_both (mm_market e)
       (m\<lparr>mk_total_cash := cash, mk_total_borrows := saturating_sub (mk_total_borrows m) repaid\<rparr>)
       (mm_position e) (pos\<lparr>ps_debt := ps_debt pos - repaid\<rparr>) as1 = Ok accounts'"
  using assms unfolding mm_process_repay_def Let_def
  by (auto simp: monad_iffs simp del: read_at_Ok_iff split: if_splits)

lemma liquidate_run:
  assumes "mm_process_liquidate e accounts n ts c = (Ok accounts', c')"
  obtains m pos0 pos cap repaid seize seized as1 c1 as2 c2 cash where "open_market e accounts ts = Ok m"
    "a_is_signer (accounts ! 6)"
    "read_at (mm_position e) accounts 1 = Ok pos0" "ps_market pos0 = a_key (accounts ! 0)"
    "pos = accrue_position pos0 (mk_borrow_index m)"
    "ensure_fresh_price m ts = Ok ()" "is_liquidatable m (ps_collateral pos) (ps_debt pos)"
    "max_liquidation_repay m (ps_debt pos) = Ok cap" "repaid = min n cap" "repaid \<noteq> 0"
    "seize_collateral m repaid = Ok seize" "seized = min (as_u64 seize) (ps_collateral pos)"
    "mm_transfer e accounts 2 3 6 repaid c = (Ok as1, c1)"
    "mm_transfer_signed e as1 5 4 0 seized c1 = (Ok as2, c2)"
    "checked_add (mk_total_cash m) repaid = Some cash"
    "write_both (mm_market e)
       (m\<lparr>mk_total_borrows := saturating_sub (mk_total_borrows m) repaid, mk_total_cash := cash,
          mk_total_collateral := saturating_sub (mk_total_collateral m) seized\<rparr>)
       (mm_position e)
       (pos\<lparr>ps_debt := ps_debt pos - repaid, ps_collateral := ps_collateral pos - seized\<rparr>)
       as2 = Ok accounts'"
  using assms unfolding mm_process_liquidate_def Let_def
  by (auto simp: monad_iffs simp del: read_at_Ok_iff split: if_splits)

lemma open_market_Ok:
  assumes "open_market e accounts ts = Ok m"
  obtains m0 where "read_at (mm_market e) accounts 0 = Ok m0" "mk_is_initialized m0" "m = accrue_market m0 ts"
  using assms by (auto simp: open_market_def rbind_Ok_iff if_Err_Ok_iff)

section \<open>Vault movements\<close>

text \<open>The balance of the token account at index \<open>i\<close>; an unreadable account holds nothing.\<close>

definition token_balance :: "market_env \<Rightarrow> accounts \<Rightarrow> nat \<Rightarrow> nat" where
  "token_balance e accounts i =
     (case read_at (tk_account (mm_token e)) accounts i of Ok t \<Rightarrow> unat (t_amount t) | _ \<Rightarrow> 0)"

lemma token_balance_cong: "length as' = length as \<Longrightarrow> as' ! i = as ! i \<Longrightarrow> token_balance e as' i = token_balance e as i"
  by (simp add: token_balance_def read_at_def index_at_def)

lemma transfer_balances:
  assumes "market_env_ok e" "distinct [i, j, k]"
    and "mm_transfer e as i j k n c = (Ok as', c') \<or> mm_transfer_signed e as i j k n c = (Ok as', c')"
  shows "token_balance e as i = unat n + token_balance e as' i"
    "token_balance e as' j = token_balance e as j + unat n" "length as' = length as"
    "l \<noteq> i \<Longrightarrow> l \<noteq> j \<Longrightarrow> as' ! l = as ! l"
proof -
  obtain ws where run: "token_cpi (mm_sha e) (mm_token e) as [i, j, k] ws (Tok_Transfer n) c = (Ok as', c')"
    using assms(3) by (auto simp: mm_transfer_defs)
  have env: "token_env_ok (mm_token e)"
    using assms(1) by (simp add: market_env_ok_def)
  show "token_balance e as i = unat n + token_balance e as' i"
    "token_balance e as' j = token_balance e as j + unat n" "length as' = length as"
    "l \<noteq> i \<Longrightarrow> l \<noteq> j \<Longrightarrow> as' ! l = as ! l"
    by (rule token_cpi_transfer [OF env assms(2) run], simp add: token_balance_def read_at_def)+
qed


text \<open>
  C19. Credit is always covered: after a borrow or a withdrawal the stored debt is within the
  collateral factor's share of the collateral at the market's price, computed without
  rounding up and without overflow, the price was fresh, the position belongs to the signer,
  and the position cannot be liquidated at that state.
\<close>

theorem market_credit_is_covered:
  assumes "market_env_ok e"
    and "decode (mm_instr e) data \<in> {Some (Mm_Borrow n), Some (Mm_Withdraw n)}"
    and "money_market_process e ts accounts data c = (Ok accounts', c')"
    and "open_market e accounts ts = Ok m" "market_wf m"
  shows "\<exists>pos m'. read_at (mm_position e) accounts' 1 = Ok pos \<and> read_at (mm_market e) accounts' 0 = Ok m'
    \<and> a_is_signer (accounts ! 4) \<and> ps_owner pos = a_key (accounts ! 4)
    \<and> unat (ps_debt pos) * 10000 \<le> collateral_value m (unat (ps_collateral pos)) * unat (mk_collateral_factor_bps m)
    \<and> unat ts - unat (mk_price_updated_at m) \<le> unat (mk_max_price_staleness m)
    \<and> \<not> is_liquidatable m' (ps_collateral pos) (ps_debt pos)"
proof -
  have ok: "codec_ok (mm_market e)" "codec_ok (mm_position e)"
    using assms(1) by (simp_all add: market_env_ok_def)
  have "mm_process_borrow e accounts n ts c = (Ok accounts', c') \<or>
      mm_process_withdraw e accounts n ts c = (Ok accounts', c')"
    using assms(2,3) by (auto simp: money_market_process_def)
  then obtain pos m' as1 where run: "a_is_signer (accounts ! 4)" "ps_owner pos = a_key (accounts ! 4)"
    "ensure_fresh_price m ts = Ok ()" "is_healthy m (ps_collateral pos) (ps_debt pos)"
    and m': "is_liquidatable m' = is_liquidatable m"
    and w: "write_both (mm_market e) m' (mm_position e) pos as1 = Ok accounts'"
  proof (elim disjE)
    assume *: "mm_process_borrow e accounts n ts c = (Ok accounts', c')"
    show thesis
      by (rule borrow_run [OF *], rule that, use assms(4) in \<open>auto simp: is_liquidatable_def fun_eq_iff\<close>)
  next
    assume *: "mm_process_withdraw e accounts n ts c = (Ok accounts', c')"
    show thesis
      by (rule withdraw_run [OF *], rule that, use assms(4) in \<open>auto simp: is_liquidatable_def fun_eq_iff\<close>)
  qed
  have "unat (ps_debt pos) \<le> collateral_value m (unat (ps_collateral pos)) * unat (mk_collateral_factor_bps m) div 10000"
    using run(4) is_healthy_iff [OF assms(5)] by simp
  then have "unat (ps_debt pos) * 10000 \<le> collateral_value m (unat (ps_collateral pos)) * unat (mk_collateral_factor_bps m)"
    by (simp add: less_eq_div_iff_mult_less_eq)
  moreover have "unat ts - unat (mk_price_updated_at m) \<le> unat (mk_max_price_staleness m)"
    using run(3) by (simp add: ensure_fresh_price_def word_less_nat_alt split: if_splits)
  ultimately show ?thesis
    using run write_both_reads(1,2) [OF ok w] healthy_not_liquidatable [OF assms(5) run(4)] m' by auto
qed

text \<open>
  C20. Lenders are never diluted: once shares exist, adding or removing liquidity does not lower
  the pool's value per lender share. Deposits round the minted shares down and withdrawals
  round the burned shares up, against the caller both times.
\<close>

theorem market_lenders_never_diluted:
  assumes "market_env_ok e"
    and "decode (mm_instr e) data \<in> {Some (Mm_AddLiquidity n), Some (Mm_RemoveLiquidity n)}"
    and "money_market_process e ts accounts data c = (Ok accounts', c')"
    and "open_market e accounts ts = Ok m" "mk_total_lender_shares m \<noteq> 0"
  shows "\<exists>m'. read_at (mm_market e) accounts' 0 = Ok m' \<and> n \<noteq> 0
    \<and> unat (pool_value m) * unat (mk_total_lender_shares m')
      \<le> unat (pool_value m') * unat (mk_total_lender_shares m)"
proof -
  have ok: "codec_ok (mm_market e)" "codec_ok (mm_lender e)"
    using assms(1) by (simp_all add: market_env_ok_def)
  have "mm_process_add_liquidity e accounts n ts c = (Ok accounts', c') \<or>
      mm_process_remove_liquidity e accounts n ts c = (Ok accounts', c')"
    using assms(2,3) by (auto simp: money_market_process_def)
  then show ?thesis
  proof (elim disjE)
    assume run: "mm_process_add_liquidity e accounts n ts c = (Ok accounts', c')"
    obtain lender as1 cash total held where "n \<noteq> 0"
      and c: "unat cash = unat (mk_total_cash m) + unat n"
      and t: "unat total = unat (mk_total_lender_shares m) + unat (shares_for_deposit m n)"
      and w: "write_both (mm_market e) (m\<lparr>mk_total_cash := cash, mk_total_lender_shares := total\<rparr>)
        (mm_lender e) (lender\<lparr>lp_shares := held\<rparr>) as1 = Ok accounts'"
      by (rule add_liquidity_run [OF run]) (use assms(4) in \<open>auto simp: checked_add_Some_iff\<close>)
    moreover have "unat (pool_value m) * unat total
        \<le> (unat cash + unat (mk_total_borrows m)) * unat (mk_total_lender_shares m)"
      using shares_for_deposit_bound [OF assms(5), of n] unfolding c t by (simp add: algebra_simps)
    ultimately show ?thesis
      using write_both_reads(1) [OF ok w] by simp
  next
    assume run: "mm_process_remove_liquidity e accounts n ts c = (Ok accounts', c')"
    obtain lender as1 cash total held where nz: "n \<noteq> 0"
      and c: "unat (mk_total_cash m) = unat n + unat cash"
      and t: "unat (mk_total_lender_shares m) = unat (shares_for_withdraw m n) + unat total"
      and w: "write_both (mm_market e) (m\<lparr>mk_total_cash := cash, mk_total_lender_shares := total\<rparr>)
        (mm_lender e) (lender\<lparr>lp_shares := held\<rparr>) as1 = Ok accounts'"
      by (rule remove_liquidity_run [OF run]) (use assms(4) in \<open>auto simp: checked_sub_Some_iff\<close>)
    have "unat n * unat (mk_total_lender_shares m) \<le> unat (shares_for_withdraw m n) * unat (pool_value m)"
      by (rule shares_for_withdraw_bound) (use nz c in \<open>simp_all add: unat_gt_0\<close>)
    then have "unat (pool_value m) * unat total
        \<le> (unat cash + unat (mk_total_borrows m)) * unat (mk_total_lender_shares m)"
      unfolding t unat_pool_value c by (simp add: algebra_simps)
    then show ?thesis
      using write_both_reads(1) [OF ok w] nz by simp
  qed
qed

text \<open>Which of the market's books mirrors the vault an instruction moves.\<close>

definition moves_tokens :: "MoneyMarketInstruction \<Rightarrow> bool" where
  "moves_tokens ix = (case ix of Mm_InitMarket _ \<Rightarrow> False | Mm_SyncPrice \<Rightarrow> False | _ \<Rightarrow> True)"

definition ledger :: "MoneyMarketInstruction \<Rightarrow> MarketState \<Rightarrow> u64" where
  "ledger ix m = (case ix of
       Mm_Supply _ \<Rightarrow> mk_total_collateral m
     | Mm_Withdraw _ \<Rightarrow> mk_total_collateral m
     | _ \<Rightarrow> mk_total_cash m)"

lemma transfer_in:
  assumes "market_env_ok e" "k \<noteq> 2" "k \<noteq> 3" "mm_transfer e as 2 3 k n c = (Ok as1, c1)"
    and "length as' = length as1" "as' ! 3 = as1 ! 3" "checked_add x n = Some y"
  shows "token_balance e as 3 + unat y = token_balance e as' 3 + unat x"
  using transfer_balances(2) [OF assms(1) _ disjI1 [OF assms(4)]] assms(2,3)
    token_balance_cong [OF assms(5,6)] assms(7) by (simp add: checked_add_Some_iff)

lemma transfer_out:
  assumes "market_env_ok e" "mm_transfer_signed e as 3 2 0 n c = (Ok as1, c1)"
    and "length as' = length as1" "as' ! 3 = as1 ! 3" "checked_sub x n = Some y"
  shows "token_balance e as 3 + unat y = token_balance e as' 3 + unat x"
  using transfer_balances(1) [OF assms(1) _ disjI2 [OF assms(2)]]
    token_balance_cong [OF assms(3,4)] assms(5) by (simp add: checked_sub_Some_iff)

lemma open_market_books:
  assumes "open_market e accounts ts = Ok m" "read_at (mm_market e) accounts 0 = Ok m0"
  shows "mk_total_cash m = mk_total_cash m0" "mk_total_collateral m = mk_total_collateral m0"
    "market_wf m = market_wf m0" "mk_is_initialized m0"
  using assms by (auto elim!: open_market_Ok)

lemma transfer_in_books:
  assumes "market_env_ok e" "codec_ok (mm_market e)" "open_market e accounts ts = Ok m"
    and "read_at (mm_market e) accounts 0 = Ok m0" "codec_ok d"
    and "mm_transfer e accounts 2 3 4 n c = (Ok as1, c1)"
    and "write_both (mm_market e) m' d w as1 = Ok accounts'"
  shows "checked_add (mk_total_cash m) n = Some (mk_total_cash m') \<Longrightarrow>
      \<exists>m'. read_at (mm_market e) accounts' 0 = Ok m' \<and> token_balance e accounts 3 + unat (mk_total_cash m')
        = token_balance e accounts' 3 + unat (mk_total_cash m0)"
    and "checked_add (mk_total_collateral m) n = Some (mk_total_collateral m') \<Longrightarrow>
      \<exists>m'. read_at (mm_market e) accounts' 0 = Ok m' \<and> token_balance e accounts 3 + unat (mk_total_collateral m')
        = token_balance e accounts' 3 + unat (mk_total_collateral m0)"
  using write_both_reads [OF assms(2,5,7)] transfer_in [OF assms(1) _ _ assms(6), of accounts']
    open_market_books [OF assms(3,4)] by auto

lemma transfer_out_books:
  assumes "market_env_ok e" "codec_ok (mm_market e)" "open_market e accounts ts = Ok m"
    and "read_at (mm_market e) accounts 0 = Ok m0" "codec_ok d"
    and "mm_transfer_signed e accounts 3 2 0 n c = (Ok as1, c1)"
    and "write_both (mm_market e) m' d w as1 = Ok accounts'"
  shows "checked_sub (mk_total_cash m) n = Some (mk_total_cash m') \<Longrightarrow>
      \<exists>m'. read_at (mm_market e) accounts' 0 = Ok m' \<and> token_balance e accounts 3 + unat (mk_total_cash m')
        = token_balance e accounts' 3 + unat (mk_total_cash m0)"
    and "checked_sub (mk_total_collateral m) n = Some (mk_total_collateral m') \<Longrightarrow>
      \<exists>m'. read_at (mm_market e) accounts' 0 = Ok m' \<and> token_balance e accounts 3 + unat (mk_total_collateral m')
        = token_balance e accounts' 3 + unat (mk_total_collateral m0)"
  using write_both_reads [OF assms(2,5,7)] transfer_out [OF assms(1,6), of accounts']
    open_market_books [OF assms(3,4)] by auto

lemma liquidate_books:
  assumes "market_env_ok e" "codec_ok (mm_market e)" "codec_ok d" "open_market e accounts ts = Ok m"
    and "read_at (mm_market e) accounts 0 = Ok m0"
    and "mm_transfer e accounts 2 3 6 n c = (Ok as1, c1)" "mm_transfer_signed e as1 5 4 0 s c1 = (Ok as2, c2)"
    and "write_both (mm_market e) m' d w as2 = Ok accounts'"
    and "checked_add (mk_total_cash m) n = Some (mk_total_cash m')"
  shows "\<exists>m'. read_at (mm_market e) accounts' 0 = Ok m' \<and> token_balance e accounts 3 + unat (mk_total_cash m')
    = token_balance e accounts' 3 + unat (mk_total_cash m0)"
proof -
  have "length accounts' = length as1" "accounts' ! 3 = as1 ! 3"
    using write_both_reads(3,4) [OF assms(2,3,8)]
      transfer_balances(3,4) [OF assms(1) _ disjI2 [OF assms(7)]] by auto
  then show ?thesis
    using transfer_in [OF assms(1) _ _ assms(6) _ _ assms(9), of accounts'] write_both_reads(1) [OF assms(2,3,8)]
      open_market_books(1) [OF assms(4,5)] by simp
qed

lemmas ledger_simps = ledger_def MoneyMarketInstruction.case


lemma write_both_wf:
  assumes "codec_ok c" "codec_ok d" "write_both c m' d w as = Ok accounts'" "market_wf m'"
  shows "\<exists>m'. read_at c accounts' 0 = Ok m' \<and> market_wf m'"
  using write_both_reads(1) [OF assms(1-3)] assms(4) by blast

lemma market_wf_books [simp]:
  "market_wf (m\<lparr>mk_total_cash := a\<rparr>) = market_wf m"
  "market_wf (m\<lparr>mk_total_borrows := a\<rparr>) = market_wf m"
  "market_wf (m\<lparr>mk_total_collateral := a\<rparr>) = market_wf m"
  "market_wf (m\<lparr>mk_total_lender_shares := a\<rparr>) = market_wf m"
  by (simp_all add: market_wf_def)

lemmas market_runs = add_liquidity_run remove_liquidity_run supply_run withdraw_run borrow_run repay_run
  liquidate_run

text \<open>
  The parameters stay in range: whatever instruction runs, a market left initialised by it
  has the collateral factor at most the liquidation threshold, all three fractions at most
  one, and a price that is not zero, provided this held of the market it started from if that
  was initialised.
\<close>

theorem market_params_invariant:
  assumes "market_env_ok e" "money_market_process e ts accounts data c = (Ok accounts', c')"
    and "\<And>m. read_at (mm_market e) accounts 0 = Ok m \<Longrightarrow> mk_is_initialized m \<Longrightarrow> market_wf m"
  shows "\<exists>m'. read_at (mm_market e) accounts' 0 = Ok m' \<and> market_wf m'"
proof -
  have ok: "codec_ok (mm_market e)" "codec_ok (mm_position e)" "codec_ok (mm_lender e)"
    using assms(1) by (simp_all add: market_env_ok_def)
  have opened: "market_wf m" if "open_market e accounts ts = Ok m" for m
    using that assms(3) by (auto elim!: open_market_Ok)
  note keep = write_both_wf [OF ok(1) ok(2)] write_both_wf [OF ok(1) ok(3)]
  obtain ix where ix: "decode (mm_instr e) data = Some ix"
    using assms(2) by (auto simp: money_market_process_def monad_iffs)
  note run = assms(2) [unfolded money_market_process_def ix ok_or.simps xbind_xlift_Ok]
  show ?thesis
  proof (cases ix)
    case (Mm_InitMarket p)
    then show ?thesis
      using run ok(1) unfolding mm_process_init_market_def
      by (auto simp: rbind_Ok_iff if_Err_Ok_iff market_wf_def word_less_nat_alt unat_gt_0
          dest!: write_market_back)
  next
    case Mm_SyncPrice
    then show ?thesis
      using run ok(1) assms(3) unfolding mm_process_sync_price_def
      by (auto simp: rbind_Ok_iff if_Err_Ok_iff market_wf_def dest!: write_market_back)
  qed (use run in \<open>auto elim!: market_runs dest!: opened intro: keep\<close>)
qed

section \<open>Concrete runs\<close>

definition sample_books :: "u64 \<Rightarrow> u64 \<Rightarrow> u64 \<Rightarrow> u64 \<Rightarrow> MarketState" where
  "sample_books cash borrows collateral shares = sample_mm\<lparr>mk_total_cash := cash,
     mk_total_borrows := borrows, mk_total_collateral := collateral, mk_total_lender_shares := shares\<rparr>"

definition sample_position :: "u64 \<Rightarrow> u64 \<Rightarrow> Position" where
  "sample_position collateral debt = \<lparr> ps_owner = 5, ps_market = 10, ps_collateral = collateral,
     ps_debt = debt, ps_borrow_index_snapshot = INDEX_SCALE, ps_is_initialized = True \<rparr>"

definition sample_lender :: "u64 \<Rightarrow> LenderPosition" where
  "sample_lender shares = \<lparr> lp_owner = 5, lp_market = 10, lp_shares = shares, lp_is_initialized = True \<rparr>"

definition sample_market_env :: market_env where
  "sample_market_env =
     \<lparr> mm_sha = (\<lambda>_. 77),
       mm_instr = table_codec [Mm_Liquidate 1000, Mm_Borrow 50, Mm_AddLiquidity 140],
       mm_market = table_codec [sample_books 500 900 500 1000, sample_books 950 450 264 1000,
         sample_books 450 950 500 1000, sample_books 640 900 500 1100],
       mm_position = table_codec [sample_position 500 900, sample_position 264 450,
         sample_position 500 700, sample_position 500 750],
       mm_lender = table_codec [sample_lender 1000, sample_lender 1100],
       mm_feed = table_codec [],
       mm_token =
         \<lparr> tk_instr = table_codec [Tok_Transfer 450, Tok_Transfer 236, Tok_Transfer 50, Tok_Transfer 140],
           tk_mint = table_codec [],
           tk_account = table_codec
             [sample_token_account 9 5 1000, sample_token_account 9 6 500,
              sample_token_account 8 5 0, sample_token_account 8 6 500,
              sample_token_account 9 5 550, sample_token_account 9 6 950,
              sample_token_account 8 5 236, sample_token_account 8 6 264,
              sample_token_account 9 5 1050, sample_token_account 9 6 450,
              sample_token_account 9 5 860, sample_token_account 9 6 640] \<rparr> \<rparr>"

definition sample_window :: "bytes list \<Rightarrow> accounts" where
  "sample_window ds = [owned_slot 1 10 (ds ! 0), owned_slot 1 11 (ds ! 1), owned_slot 77 12 (ds ! 2),
     owned_slot 77 13 (ds ! 3)] @ (if length ds = 4 then [signer_slot 5] else
     [owned_slot 77 14 (ds ! 4), owned_slot 77 15 (ds ! 5), signer_slot 5])"

definition idle_ctx :: ctx where
  "idle_ctx = \<lparr> approved = Map.empty, spent = 0, depth = 0 \<rparr>"

lemmas market_run = money_market_process_def sample_market_env_def sample_window_def sample_books_def
  sample_mm_def default_market_def sample_position_def sample_lender_def owned_slot_def idle_ctx_def
  open_market_def accrue_market_def accrue_position_def load_position_def load_lender_position_def
  ensure_fresh_price_def mm_transfer_defs write_both_def PRICE_SCALE_def MM_BPS_def INDEX_SCALE_def
  xmap_err_def token_run cpi_run

lemma sample_market_ok: "market_env_ok sample_market_env"
  by (simp add: market_env_ok_def token_env_ok_def sample_market_env_def)

lemma sample_liquidate:
  "fst (money_market_process sample_market_env 100 (sample_window [[0], [0], [0], [1], [2], [3]]) [0] idle_ctx) =
   Ok (sample_window [[1], [1], [4], [5], [6], [7]])"
  by (simp add: mm_process_liquidate_def is_liquidatable_def max_liquidation_repay_def seize_collateral_def
      div_ceil_def market_run)

lemma sample_borrow:
  "fst (money_market_process sample_market_env 100 (sample_window [[0], [2], [0], [1]]) [1] idle_ctx) =
   Ok (sample_window [[2], [3], [8], [9]])"
  by (simp add: mm_process_borrow_def is_healthy_def max_borrow_def market_run)

lemma sample_add:
  "fst (money_market_process sample_market_env 100 (sample_window [[0], [0], [0], [1]]) [2] idle_ctx) =
   Ok (sample_window [[3], [1], [10], [11]])"
  by (simp add: mm_process_add_liquidity_def shares_for_deposit_def pool_value_def market_run)

lemma sample_opened:
  "open_market sample_market_env (sample_window ([0] # b # c # d # e)) 100 = Ok (sample_books 500 900 500 1000)"
  by (simp add: market_run)

lemma sample_books_wf: "market_wf (sample_books a b c d)"
  by (simp add: sample_books_def sample_mm_def market_wf_def)

lemma sample_reads:
  "read_at (mm_market sample_market_env) (sample_window ([0] # b # c # d # e)) 0 = Ok (sample_books 500 900 500 1000)"
  "read_at (mm_position sample_market_env) (sample_window (a # [0] # c # d # e)) 1 = Ok (sample_position 500 900)"
  by (simp_all add: market_run)


theorem market_credit_is_covered_witness:
  "\<not> is_liquidatable (sample_books 450 950 500 1000) 500 750"
proof -
  obtain c' where run: "money_market_process sample_market_env 100 (sample_window [[0], [2], [0], [1]]) [1] idle_ctx
      = (Ok (sample_window [[2], [3], [8], [9]]), c')"
    using sample_borrow by (metis prod.collapse)
  have ix: "decode (mm_instr sample_market_env) [1] \<in> {Some (Mm_Borrow 50), Some (Mm_Withdraw 50)}"
    by (simp add: sample_market_env_def table_codec_def)
  have rd: "read_at (mm_position sample_market_env) (sample_window [[2], [3], [8], [9]]) 1 = Ok (sample_position 500 750)"
    "read_at (mm_market sample_market_env) (sample_window [[2], [3], [8], [9]]) 0 = Ok (sample_books 450 950 500 1000)"
    by (simp_all add: market_run)
  show ?thesis
    using market_credit_is_covered [OF sample_market_ok ix run sample_opened sample_books_wf]
    unfolding rd by (auto simp: sample_position_def)
qed

theorem market_lenders_never_diluted_witness:
  "\<exists>m'. read_at (mm_market sample_market_env) (sample_window [[3], [1], [10], [11]]) 0 = Ok m'
    \<and> unat (pool_value (sample_books 500 900 500 1000)) * unat (mk_total_lender_shares m')
      \<le> unat (pool_value m') * 1000"
proof -
  obtain c' where run: "money_market_process sample_market_env 100 (sample_window [[0], [0], [0], [1]]) [2] idle_ctx
      = (Ok (sample_window [[3], [1], [10], [11]]), c')"
    using sample_add by (metis prod.collapse)
  have ix: "decode (mm_instr sample_market_env) [2] \<in> {Some (Mm_AddLiquidity 140), Some (Mm_RemoveLiquidity 140)}"
    by (simp add: sample_market_env_def table_codec_def)
  have "mk_total_lender_shares (sample_books 500 900 500 1000) \<noteq> 0"
    by (simp add: sample_books_def)
  from market_lenders_never_diluted [OF sample_market_ok ix run sample_opened this] show ?thesis
    by (simp add: sample_books_def)
qed


theorem market_params_invariant_witness:
  "\<exists>m'. read_at (mm_market sample_market_env) (sample_window [[3], [1], [10], [11]]) 0 = Ok m' \<and> market_wf m'"
proof -
  obtain c' where run: "money_market_process sample_market_env 100 (sample_window [[0], [0], [0], [1]]) [2] idle_ctx
      = (Ok (sample_window [[3], [1], [10], [11]]), c')"
    using sample_add by (metis prod.collapse)
  show ?thesis
    by (rule market_params_invariant [OF sample_market_ok run]) (simp add: sample_reads(1) sample_books_wf)
qed

end
