(* ===== verification/Vault_Program.thy ===== *)
theory Vault_Program
  imports Money_Market
begin

text \<open>
  The yield vault, \<open>src/himsha-programs/vault/src/lib.rs\<close>: share accounting over an asset
  token account and a position in a money market. Its instructions call the token program and
  the money market, which calls the token program in turn.
\<close>

section \<open>State\<close>

definition VT_BPS :: u128 where
  "VT_BPS = 10000"

definition MIN_SHARES :: u64 where
  "MIN_SHARES = 1000"

record VaultState =
  vt_asset_mint :: Pubkey
  vt_share_mint :: Pubkey
  vt_asset_vault :: Pubkey
  vt_manager :: Pubkey
  vt_total_assets :: u64
  vt_lender_shares :: u64
  vt_total_shares :: u64
  vt_performance_fee_bps :: u64
  vt_is_initialized :: bool

definition default_vault :: VaultState where
  "default_vault =
     \<lparr> vt_asset_mint = default_pubkey, vt_share_mint = default_pubkey,
       vt_asset_vault = default_pubkey, vt_manager = default_pubkey, vt_total_assets = 0,
       vt_lender_shares = 0, vt_total_shares = 0, vt_performance_fee_bps = 0,
       vt_is_initialized = False \<rparr>"

definition share_price_1e9 :: "VaultState \<Rightarrow> u64" where
  "share_price_1e9 v =
     (if vt_total_shares v = 0 then 1000000000
      else as_u64 (as_u128 (vt_total_assets v) * 1000000000 div as_u128 (vt_total_shares v)))"

datatype VaultInstruction =
    Vt_InitVault u64
  | Vt_Deposit u64 u64
  | Vt_Withdraw u64 u64
  | Vt_Report
  | Vt_Deploy u64
  | Vt_Undeploy u64

record vault_env =
  vt_instr :: "VaultInstruction codec"
  vt_vault :: "VaultState codec"
  vt_mm :: market_env

definition vault_env_ok :: "vault_env \<Rightarrow> bool" where
  "vault_env_ok e \<longleftrightarrow> codec_ok (vt_instr e) \<and> codec_ok (vt_vault e) \<and> market_env_ok (vt_mm e)"

section \<open>Instruction builders\<close>

definition init_vault ::
  "vault_env \<Rightarrow> Pubkey \<Rightarrow> Pubkey \<Rightarrow> Pubkey \<Rightarrow> Pubkey \<Rightarrow> Pubkey \<Rightarrow> u64 \<Rightarrow> Instruction presult" where
  "init_vault e vault asset_mint share_mint asset_vault manager performance_fee_bps =
     with_args (vt_instr e) (vault_program (mm_sha (vt_mm e)))
       [meta_writable vault False, meta_readonly asset_mint False, meta_readonly share_mint False,
        meta_writable asset_vault False, meta_readonly manager True]
       (Vt_InitVault performance_fee_bps)"

definition user_ix ::
  "vault_env \<Rightarrow> VaultInstruction \<Rightarrow> Pubkey \<Rightarrow> Pubkey \<Rightarrow> Pubkey \<Rightarrow> Pubkey \<Rightarrow> Pubkey \<Rightarrow> Pubkey
     \<Rightarrow> Instruction presult" where
  "user_ix e tag vault user_asset asset_vault user_shares share_mint user =
     with_args (vt_instr e) (vault_program (mm_sha (vt_mm e)))
       [meta_writable vault False, meta_writable user_asset False, meta_writable asset_vault False,
        meta_writable user_shares False, meta_writable share_mint False, meta_readonly user True] tag"

definition vault_deposit ::
  "vault_env \<Rightarrow> Pubkey \<Rightarrow> Pubkey \<Rightarrow> Pubkey \<Rightarrow> Pubkey \<Rightarrow> Pubkey \<Rightarrow> Pubkey \<Rightarrow> u64 \<Rightarrow> u64
     \<Rightarrow> Instruction presult" where
  "vault_deposit e vault user_asset asset_vault user_shares share_mint user amount min_shares =
     user_ix e (Vt_Deposit amount min_shares) vault user_asset asset_vault user_shares share_mint user"

definition vault_withdraw ::
  "vault_env \<Rightarrow> Pubkey \<Rightarrow> Pubkey \<Rightarrow> Pubkey \<Rightarrow> Pubkey \<Rightarrow> Pubkey \<Rightarrow> Pubkey \<Rightarrow> u64 \<Rightarrow> u64
     \<Rightarrow> Instruction presult" where
  "vault_withdraw e vault user_asset asset_vault user_shares share_mint user shares min_assets =
     user_ix e (Vt_Withdraw shares min_assets) vault user_asset asset_vault user_shares share_mint user"

definition report ::
  "vault_env \<Rightarrow> Pubkey \<Rightarrow> Pubkey \<Rightarrow> Pubkey \<Rightarrow> Pubkey \<Rightarrow> Pubkey \<Rightarrow> Instruction presult" where
  "report e vault manager asset_vault share_mint manager_shares =
     with_args (vt_instr e) (vault_program (mm_sha (vt_mm e)))
       [meta_writable vault False, meta_readonly manager True, meta_readonly asset_vault False,
        meta_writable share_mint False, meta_writable manager_shares False] Vt_Report"

definition report_with_market ::
  "vault_env \<Rightarrow> Pubkey \<Rightarrow> Pubkey \<Rightarrow> Pubkey \<Rightarrow> Pubkey \<Rightarrow> Pubkey \<Rightarrow> Pubkey \<Rightarrow> Instruction presult" where
  "report_with_market e vault manager asset_vault share_mint manager_shares money_market =
     with_args (vt_instr e) (vault_program (mm_sha (vt_mm e)))
       [meta_writable vault False, meta_readonly manager True, meta_readonly asset_vault False,
        meta_writable share_mint False, meta_writable manager_shares False,
        meta_readonly money_market False] Vt_Report"

definition strategy_ix ::
  "vault_env \<Rightarrow> VaultInstruction \<Rightarrow> Pubkey \<Rightarrow> Pubkey \<Rightarrow> Pubkey \<Rightarrow> Pubkey \<Rightarrow> Pubkey \<Rightarrow> Pubkey
     \<Rightarrow> Instruction presult" where
  "strategy_ix e tag vault asset_vault money_market mm_lender_position mm_borrow_vault manager =
     with_args (vt_instr e) (vault_program (mm_sha (vt_mm e)))
       [meta_writable vault False, meta_writable asset_vault False, meta_writable money_market False,
        meta_writable mm_lender_position False, meta_writable mm_borrow_vault False,
        meta_readonly manager True] tag"

definition deploy ::
  "vault_env \<Rightarrow> Pubkey \<Rightarrow> Pubkey \<Rightarrow> Pubkey \<Rightarrow> Pubkey \<Rightarrow> Pubkey \<Rightarrow> Pubkey \<Rightarrow> u64 \<Rightarrow> Instruction presult" where
  "deploy e vault asset_vault money_market mm_lender_position mm_borrow_vault manager amount =
     strategy_ix e (Vt_Deploy amount) vault asset_vault money_market mm_lender_position mm_borrow_vault manager"

definition undeploy ::
  "vault_env \<Rightarrow> Pubkey \<Rightarrow> Pubkey \<Rightarrow> Pubkey \<Rightarrow> Pubkey \<Rightarrow> Pubkey \<Rightarrow> Pubkey \<Rightarrow> u64 \<Rightarrow> Instruction presult" where
  "undeploy e vault asset_vault money_market mm_lender_position mm_borrow_vault manager amount =
     strategy_ix e (Vt_Undeploy amount) vault asset_vault money_market mm_lender_position mm_borrow_vault manager"

section \<open>Calls to the token program and the money market\<close>

abbreviation vt_token :: "vault_env \<Rightarrow> token_env" where
  "vt_token e \<equiv> mm_token (vt_mm e)"

abbreviation vt_cpi :: "vault_env \<Rightarrow> accounts \<Rightarrow> nat list \<Rightarrow> nat list \<Rightarrow> TokenInstruction \<Rightarrow> accounts pexec" where
  "vt_cpi e \<equiv> token_cpi (mm_sha (vt_mm e)) (vt_token e)"

definition vt_balance :: "vault_env \<Rightarrow> AccountInfo \<Rightarrow> u64 presult" where
  "vt_balance e acc = rbind (read_data (tk_account (vt_token e)) acc) (\<lambda>s. Ok (t_amount s))"

definition vt_token_transfer :: "vault_env \<Rightarrow> accounts \<Rightarrow> nat \<Rightarrow> nat \<Rightarrow> nat \<Rightarrow> u64 \<Rightarrow> accounts pexec" where
  "vt_token_transfer e accounts src dst owner amount = vt_cpi e accounts [src, dst, owner] [] (Tok_Transfer amount)"

definition vt_token_transfer_signed ::
  "vault_env \<Rightarrow> accounts \<Rightarrow> nat \<Rightarrow> nat \<Rightarrow> nat \<Rightarrow> u64 \<Rightarrow> accounts pexec" where
  "vt_token_transfer_signed e accounts src dst owner amount =
     vt_cpi e accounts [src, dst, owner] [2] (Tok_Transfer amount)"

definition mint_signed :: "vault_env \<Rightarrow> accounts \<Rightarrow> nat \<Rightarrow> nat \<Rightarrow> nat \<Rightarrow> u64 \<Rightarrow> accounts pexec" where
  "mint_signed e accounts mint dst authority amount =
     vt_cpi e accounts [mint, dst, authority] [2] (Tok_MintTo amount)"

definition vt_burn :: "vault_env \<Rightarrow> accounts \<Rightarrow> nat \<Rightarrow> nat \<Rightarrow> nat \<Rightarrow> u64 \<Rightarrow> accounts pexec" where
  "vt_burn e accounts token mint owner amount = vt_cpi e accounts [token, mint, owner] [] (Tok_Burn amount)"

definition mm_liquidity ::
  "vault_env \<Rightarrow> accounts \<Rightarrow> nat list \<Rightarrow> MoneyMarketInstruction \<Rightarrow> u64 \<Rightarrow> accounts pexec" where
  "mm_liquidity e accounts idx ix timestamp =
     xbind (xlift (ok_or (encode (mm_instr (vt_mm e)) ix) BorshError)) (\<lambda>data.
     invoke_signed_indexed accounts idx [4] data (money_market_program (mm_sha (vt_mm e)))
       (money_market_process (vt_mm e) timestamp))"

definition read_lender_shares :: "vault_env \<Rightarrow> AccountInfo \<Rightarrow> u64" where
  "read_lender_shares e acc = (case read_data (mm_lender (vt_mm e)) acc of Ok p \<Rightarrow> lp_shares p | _ \<Rightarrow> 0)"

definition live_nav :: "vault_env \<Rightarrow> VaultState \<Rightarrow> accounts \<Rightarrow> u64 presult" where
  "live_nav e vault accounts =
     (if 0 < vt_lender_shares vault \<and> 7 \<le> length accounts then
        rbind (read_at (mm_market (vt_mm e)) accounts 6) (\<lambda>market.
        rbind (vt_balance e (accounts ! 2)) (\<lambda>idle.
        ok_or (checked_add idle (lender_share_value market (vt_lender_shares vault))) Overflow))
      else Ok (vt_total_assets vault))"

section \<open>Processing\<close>

definition vt_process_init_vault :: "vault_env \<Rightarrow> accounts \<Rightarrow> u64 \<Rightarrow> accounts presult" where
  "vt_process_init_vault e accounts performance_fee_bps =
     (if length accounts < 5 then Err NotEnoughAccounts
      else rbind (require_signer (accounts ! 4)) (\<lambda>_.
      if as_u64 VT_BPS < performance_fee_bps then Err InvalidInstruction
      else rbind (unwrap_or default_vault (read_at (vt_vault e) accounts 0)) (\<lambda>vault.
      if vt_is_initialized vault then Err AlreadyInitialized
      else write_at (vt_vault e)
        (vault\<lparr>vt_asset_mint := a_key (accounts ! 1), vt_share_mint := a_key (accounts ! 2),
          vt_asset_vault := a_key (accounts ! 3), vt_manager := a_key (accounts ! 4),
          vt_performance_fee_bps := performance_fee_bps, vt_is_initialized := True\<rparr>) accounts 0)))"

text \<open>Shares credited to the depositor, and the growth of the outstanding shares.\<close>

definition deposit_shares :: "VaultState \<Rightarrow> u64 \<Rightarrow> u64 \<Rightarrow> (u64 \<times> u64) presult" where
  "deposit_shares vault nav_basis amount =
     (if vt_total_shares vault = 0 then
        rbind (ok_or (checked_sub amount MIN_SHARES) InsufficientFunds) (\<lambda>u. Ok (u, amount))
      else
        let s = as_u64 (as_u128 amount * as_u128 (vt_total_shares vault) div as_u128 (max nav_basis 1))
        in Ok (s, s))"

definition vt_process_deposit :: "vault_env \<Rightarrow> accounts \<Rightarrow> u64 \<Rightarrow> u64 \<Rightarrow> accounts pexec" where
  "vt_process_deposit e accounts amount min_shares =
     (if length accounts < 6 then xlift (Err NotEnoughAccounts)
      else xbind (xlift (require_signer (accounts ! 5))) (\<lambda>_.
      if amount = 0 then xlift (Err InvalidInstruction)
      else xbind (xlift (read_at (vt_vault e) accounts 0)) (\<lambda>vault.
      if \<not> vt_is_initialized vault then xlift (Err NotInitialized)
      else xbind (xlift (live_nav e vault accounts)) (\<lambda>nav_basis.
      xbind (xlift (deposit_shares vault nav_basis amount)) (\<lambda>(user_shares, supply_delta).
      if user_shares < min_shares then xlift (Err SlippageExceeded)
      else xbind (vt_token_transfer e accounts 1 2 5 amount) (\<lambda>accounts.
      xbind (mint_signed e accounts 4 3 0 user_shares) (\<lambda>accounts.
      xbind (xlift (ok_or (checked_add (vt_total_assets vault) amount) Overflow)) (\<lambda>assets.
      xbind (xlift (ok_or (checked_add (vt_total_shares vault) supply_delta) Overflow)) (\<lambda>total.
      xlift (write_at (vt_vault e)
        (vault\<lparr>vt_total_assets := assets, vt_total_shares := total\<rparr>) accounts 0))))))))))"

text \<open>The shortfall of a redemption is pulled back from the money market.\<close>

definition auto_undeploy ::
  "vault_env \<Rightarrow> accounts \<Rightarrow> VaultState \<Rightarrow> u64 \<Rightarrow> u64 \<Rightarrow> u64 \<Rightarrow> (accounts \<times> VaultState) pexec" where
  "auto_undeploy e accounts vault idle assets_out timestamp =
     (if idle < assets_out \<and> 9 \<le> length accounts then
        let shortfall = assets_out - idle in
        xbind (mm_liquidity e accounts [6, 7, 2, 8, 0] (Mm_RemoveLiquidity shortfall) timestamp) (\<lambda>accounts.
        xret (accounts, vault\<lparr>vt_lender_shares := read_lender_shares e (accounts ! 7)\<rparr>))
      else xret (accounts, vault))"

definition vt_process_withdraw :: "vault_env \<Rightarrow> accounts \<Rightarrow> u64 \<Rightarrow> u64 \<Rightarrow> u64 \<Rightarrow> accounts pexec" where
  "vt_process_withdraw e accounts shares min_assets timestamp =
     (if length accounts < 6 then xlift (Err NotEnoughAccounts)
      else xbind (xlift (require_signer (accounts ! 5))) (\<lambda>_.
      xbind (xlift (read_at (vt_vault e) accounts 0)) (\<lambda>vault.
      if vt_total_shares vault = 0 then xlift (Err NotInitialized)
      else xbind (xlift (live_nav e vault accounts)) (\<lambda>nav_basis.
      let assets_out = as_u64 (as_u128 shares * as_u128 nav_basis div as_u128 (vt_total_shares vault)) in
      if assets_out < min_assets then xlift (Err SlippageExceeded)
      else xbind (xlift (vt_balance e (accounts ! 2))) (\<lambda>idle.
      xbind (auto_undeploy e accounts vault idle assets_out timestamp) (\<lambda>(accounts, vault).
      xbind (vt_burn e accounts 3 4 5 shares) (\<lambda>accounts.
      xbind (vt_token_transfer_signed e accounts 2 1 0 assets_out) (\<lambda>accounts.
      xbind (xlift (ok_or (checked_sub nav_basis assets_out) InsufficientFunds)) (\<lambda>assets.
      xbind (xlift (ok_or (checked_sub (vt_total_shares vault) shares) InsufficientFunds)) (\<lambda>total.
      xlift (write_at (vt_vault e)
        (vault\<lparr>vt_total_assets := assets, vt_total_shares := total\<rparr>) accounts 0)))))))))))"

definition deployed_value :: "vault_env \<Rightarrow> accounts \<Rightarrow> VaultState \<Rightarrow> u64 presult" where
  "deployed_value e accounts vault =
     (if 0 < vt_lender_shares vault then
        if length accounts < 6 then Err NotEnoughAccounts
        else rbind (read_at (mm_market (vt_mm e)) accounts 5) (\<lambda>market.
          Ok (lender_share_value market (vt_lender_shares vault)))
      else Ok 0)"

text \<open>Shares minted to the manager for a profit; zero where the code mints none.\<close>

definition fee_shares :: "VaultState \<Rightarrow> u64 \<Rightarrow> u64" where
  "fee_shares vault nav =
     (let profit = saturating_sub nav (vt_total_assets vault) in
      if 0 < profit \<and> 0 < vt_performance_fee_bps vault \<and> 0 < vt_total_shares vault then
        let fee = as_u128 profit * as_u128 (vt_performance_fee_bps vault) div VT_BPS in
        if 0 < fee \<and> fee < as_u128 nav
        then as_u64 (fee * as_u128 (vt_total_shares vault) div (as_u128 nav - fee))
        else 0
      else 0)"

definition mint_fee :: "vault_env \<Rightarrow> accounts \<Rightarrow> VaultState \<Rightarrow> u64 \<Rightarrow> (accounts \<times> VaultState) pexec" where
  "mint_fee e accounts vault minted =
     (if 0 < minted then
        xbind (mint_signed e accounts 3 4 0 minted) (\<lambda>accounts.
        xbind (xlift (ok_or (checked_add (vt_total_shares vault) minted) Overflow)) (\<lambda>total.
        xret (accounts, vault\<lparr>vt_total_shares := total\<rparr>)))
      else xret (accounts, vault))"

definition vt_process_report :: "vault_env \<Rightarrow> accounts \<Rightarrow> accounts pexec" where
  "vt_process_report e accounts =
     (if length accounts < 5 then xlift (Err NotEnoughAccounts)
      else xbind (xlift (require_signer (accounts ! 1))) (\<lambda>_.
      xbind (xlift (read_at (vt_vault e) accounts 0)) (\<lambda>vault.
      if \<not> vt_is_initialized vault then xlift (Err NotInitialized)
      else if a_key (accounts ! 1) \<noteq> vt_manager vault then xlift (Err Unauthorized)
      else xbind (xlift (deployed_value e accounts vault)) (\<lambda>deployed.
      xbind (xlift (vt_balance e (accounts ! 2))) (\<lambda>idle.
      xbind (xlift (ok_or (checked_add idle deployed) Overflow)) (\<lambda>nav.
      let minted = fee_shares vault nav in
      xbind (mint_fee e accounts vault minted) (\<lambda>(accounts, vault).
      xlift (write_at (vt_vault e) (vault\<lparr>vt_total_assets := nav\<rparr>) accounts 0))))))))"

definition vt_process_strategy ::
  "vault_env \<Rightarrow> accounts \<Rightarrow> u64 \<Rightarrow> MoneyMarketInstruction \<Rightarrow> u64 \<Rightarrow> accounts pexec" where
  "vt_process_strategy e accounts amount ix timestamp =
     (if length accounts < 6 then xlift (Err NotEnoughAccounts)
      else xbind (xlift (require_signer (accounts ! 5))) (\<lambda>_.
      if amount = 0 then xlift (Err InvalidInstruction)
      else xbind (xlift (read_at (vt_vault e) accounts 0)) (\<lambda>vault.
      if \<not> vt_is_initialized vault then xlift (Err NotInitialized)
      else if a_key (accounts ! 5) \<noteq> vt_manager vault then xlift (Err Unauthorized)
      else xbind (mm_liquidity e accounts [2, 3, 1, 4, 0] ix timestamp) (\<lambda>accounts.
      xlift (write_at (vt_vault e)
        (vault\<lparr>vt_lender_shares := read_lender_shares e (accounts ! 3)\<rparr>) accounts 0)))))"

definition vt_process_deploy :: "vault_env \<Rightarrow> accounts \<Rightarrow> u64 \<Rightarrow> u64 \<Rightarrow> accounts pexec" where
  "vt_process_deploy e accounts amount timestamp =
     vt_process_strategy e accounts amount (Mm_AddLiquidity amount) timestamp"

definition vt_process_undeploy :: "vault_env \<Rightarrow> accounts \<Rightarrow> u64 \<Rightarrow> u64 \<Rightarrow> accounts pexec" where
  "vt_process_undeploy e accounts amount timestamp =
     vt_process_strategy e accounts amount (Mm_RemoveLiquidity amount) timestamp"

definition vault_process :: "vault_env \<Rightarrow> u64 \<Rightarrow> process" where
  "vault_process e timestamp accounts data =
     xbind (xlift (ok_or (decode (vt_instr e) data) InvalidInstruction)) (\<lambda>ix. case ix of
       Vt_InitVault fee \<Rightarrow> xlift (vt_process_init_vault e accounts fee)
     | Vt_Deposit amount min_shares \<Rightarrow> vt_process_deposit e accounts amount min_shares
     | Vt_Withdraw shares min_assets \<Rightarrow> vt_process_withdraw e accounts shares min_assets timestamp
     | Vt_Report \<Rightarrow> vt_process_report e accounts
     | Vt_Deploy amount \<Rightarrow> vt_process_deploy e accounts amount timestamp
     | Vt_Undeploy amount \<Rightarrow> vt_process_undeploy e accounts amount timestamp)"

section \<open>The contract\<close>

lemmas vt_cpi_defs = vt_token_transfer_def vt_token_transfer_signed_def mint_signed_def vt_burn_def

lemma mm_call_keeps: "keeps (mm_liquidity e accounts idx ix ts) (same_headers accounts)"
  using mmk.invoke_signed_keeps by (simp add: mm_liquidity_def)

lemma auto_undeploy_keeps:
  "keeps (auto_undeploy e accounts v i a ts) (\<lambda>(as, _). same_headers accounts as)"
  unfolding auto_undeploy_def Let_def
  by (auto intro!: keeps_if keeps_xbind [OF mm_call_keeps])

lemma vt_process_init_vault_headers:
  "vt_process_init_vault e accounts fee = Ok as \<Longrightarrow> same_headers accounts as"
  unfolding vt_process_init_vault_def by (auto simp: rbind_Ok_iff if_Err_Ok_iff)

lemma vt_process_deposit_keeps: "keeps (vt_process_deposit e accounts n m) (same_headers accounts)"
  unfolding vt_process_deposit_def vt_cpi_defs
  by (auto intro!: keeps_xbind_token_cpi [where accounts = accounts] keeps_write_at)

lemma vt_process_withdraw_keeps: "keeps (vt_process_withdraw e accounts n m ts) (same_headers accounts)"
  unfolding vt_process_withdraw_def vt_cpi_defs Let_def
  by (auto intro!: keeps_xbind [OF auto_undeploy_keeps] keeps_xbind_token_cpi [where accounts = accounts]
      keeps_write_at)

lemma mint_fee_keeps: "keeps (mint_fee e accounts v n) (\<lambda>(as, _). same_headers accounts as)"
  unfolding mint_fee_def vt_cpi_defs
  by (auto intro!: keeps_if keeps_xbind_token_cpi [where accounts = accounts])

lemma vt_process_report_keeps: "keeps (vt_process_report e accounts) (same_headers accounts)"
  unfolding vt_process_report_def Let_def
  by (auto intro!: keeps_xbind [OF mint_fee_keeps] keeps_write_at)

lemma vt_process_strategy_keeps: "keeps (vt_process_strategy e accounts n ix ts) (same_headers accounts)"
  unfolding vt_process_strategy_def
  by (auto intro!: keeps_xbind [OF mm_call_keeps] keeps_write_at)

lemma vault_keeps: "keeps (vault_process e ts accounts data) (same_headers accounts)"
  using vt_process_deposit_keeps vt_process_withdraw_keeps vt_process_report_keeps vt_process_strategy_keeps
  by (auto simp: vault_process_def vt_process_deploy_def vt_process_undeploy_def keeps_xlift_iff
      dest: vt_process_init_vault_headers split: VaultInstruction.splits)

interpretation vlt: himsha_program "vault_process e ts" for e ts
  by unfold_locales (rule vault_keeps)

section \<open>Effects of the calls\<close>

abbreviation bal :: "vault_env \<Rightarrow> accounts \<Rightarrow> nat \<Rightarrow> nat" where
  "bal e \<equiv> token_balance (vt_mm e)"

definition mint_supply :: "vault_env \<Rightarrow> accounts \<Rightarrow> nat \<Rightarrow> nat" where
  "mint_supply e accounts i =
     (case read_at (tk_mint (vt_token e)) accounts i of Ok m \<Rightarrow> unat (m_supply m) | _ \<Rightarrow> 0)"

lemma mint_supply_cong: "length as' = length as \<Longrightarrow> as' ! i = as ! i \<Longrightarrow> mint_supply e as' i = mint_supply e as i"
  by (simp add: mint_supply_def read_at_def index_at_def)

lemma vt_env_parts:
  assumes "vault_env_ok e"
  shows "market_env_ok (vt_mm e)" "token_env_ok (vt_token e)" "codec_ok (vt_vault e)"
  using assms by (simp_all add: vault_env_ok_def market_env_ok_def)

lemma vt_transfer_is_mm:
  "vt_token_transfer e as i j k n = mm_transfer (vt_mm e) as i j k n"
  "vt_token_transfer_signed e as i j k n = mm_transfer_signed (vt_mm e) as i j k n"
  by (simp_all add: vt_cpi_defs mm_transfer_defs)

lemma vt_transfer_effect:
  assumes "vault_env_ok e" "distinct [i, j, k]"
    and "vt_token_transfer e as i j k n c = (Ok as', c') \<or> vt_token_transfer_signed e as i j k n c = (Ok as', c')"
  shows "bal e as i = unat n + bal e as' i" "bal e as' j = bal e as j + unat n" "length as' = length as"
    "l \<noteq> i \<Longrightarrow> l \<noteq> j \<Longrightarrow> as' ! l = as ! l"
  by (fact transfer_balances [OF vt_env_parts(1) [OF assms(1)] assms(2) assms(3) [unfolded vt_transfer_is_mm]])+

lemma mint_effect:
  assumes "vault_env_ok e" "distinct [i, j, k]" "mint_signed e as i j k n c = (Ok as', c')"
  shows "mint_supply e as' i = mint_supply e as i + unat n" "bal e as' j = bal e as j + unat n"
    "length as' = length as" "l \<noteq> i \<Longrightarrow> l \<noteq> j \<Longrightarrow> as' ! l = as ! l"
  by (rule token_cpi_mint [OF vt_env_parts(2) [OF assms(1)] assms(2) assms(3) [unfolded mint_signed_def]],
      simp add: token_balance_def mint_supply_def read_at_def)+

lemma burn_effect:
  assumes "vault_env_ok e" "distinct [i, j, k]" "vt_burn e as i j k n c = (Ok as', c')"
  shows "mint_supply e as j = unat n + mint_supply e as' j" "bal e as i = unat n + bal e as' i"
    "length as' = length as" "l \<noteq> i \<Longrightarrow> l \<noteq> j \<Longrightarrow> as' ! l = as ! l"
  by (rule token_cpi_burn [OF vt_env_parts(2) [OF assms(1)] assms(2) assms(3) [unfolded vt_burn_def]],
      simp add: token_balance_def mint_supply_def read_at_def)+

lemma write_vault_effect:
  assumes "vault_env_ok e" "write_at (vt_vault e) v as 0 = Ok as'"
  shows "read_at (vt_vault e) as' 0 = Ok v" "length as' = length as" "0 < l \<Longrightarrow> as' ! l = as ! l"
  using assms vt_env_parts(3) [OF assms(1)] by (auto simp: monad_iffs dest: codec_okD)

lemma auto_undeploy_effect:
  assumes "auto_undeploy e as v i a ts c = (Ok (as', v'), c')"
  shows "length as' = length as" "l \<notin> {0, 2, 6, 7, 8} \<Longrightarrow> as' ! l = as ! l"
    "vt_total_shares v' = vt_total_shares v"
  using assms
  by (auto simp: auto_undeploy_def mm_liquidity_def Let_def monad_iffs dest: invoke_signed_frame(1,2)
      split: if_splits)

section \<open>Share accounting\<close>

lemma vault_update:
  "vt_total_assets (v\<lparr>vt_total_assets := a, vt_total_shares := t\<rparr>) = a"
  "vt_total_shares (v\<lparr>vt_total_assets := a, vt_total_shares := t\<rparr>) = t"
  by simp_all

lemma deposit_run_v:
  assumes "vt_process_deposit e accounts n m c = (Ok accounts', c')"
  obtains v nav us delta as1 c1 as2 c2 assets total where "a_is_signer (accounts ! 5)"
    "read_at (vt_vault e) accounts 0 = Ok v" "live_nav e v accounts = Ok nav"
    "deposit_shares v nav n = Ok (us, delta)" "m \<le> us"
    "vt_token_transfer e accounts 1 2 5 n c = (Ok as1, c1)" "mint_signed e as1 4 3 0 us c1 = (Ok as2, c2)"
    "unat assets = unat (vt_total_assets v) + unat n" "unat total = unat (vt_total_shares v) + unat delta"
    "write_at (vt_vault e) (v\<lparr>vt_total_assets := assets, vt_total_shares := total\<rparr>) as2 0 = Ok accounts'"
  using assms unfolding vt_process_deposit_def
  by (auto simp: monad_iffs checked_add_Some_iff not_less
      simp del: read_at_Ok_iff write_at_Ok_iff split: if_splits)

lemma withdraw_run_v:
  assumes "vt_process_withdraw e accounts n m ts c = (Ok accounts', c')"
  obtains v nav out i as0 v0 c0 as1 c1 as2 c2 assets total where "a_is_signer (accounts ! 5)"
    "read_at (vt_vault e) accounts 0 = Ok v" "vt_total_shares v \<noteq> 0" "live_nav e v accounts = Ok nav"
    "out = as_u64 (as_u128 n * as_u128 nav div as_u128 (vt_total_shares v))" "m \<le> out"
    "auto_undeploy e accounts v i out ts c = (Ok (as0, v0), c0)"
    "vt_burn e as0 3 4 5 n c0 = (Ok as1, c1)" "vt_token_transfer_signed e as1 2 1 0 out c1 = (Ok as2, c2)"
    "unat nav = unat out + unat assets" "unat (vt_total_shares v0) = unat n + unat total"
    "write_at (vt_vault e) (v0\<lparr>vt_total_assets := assets, vt_total_shares := total\<rparr>) as2 0 = Ok accounts'"
  using assms unfolding vt_process_withdraw_def Let_def
  by (auto simp: monad_iffs checked_sub_Some_iff not_less
      simp del: read_at_Ok_iff write_at_Ok_iff split: if_splits)

lemma deposit_shares_bound:
  assumes "deposit_shares v nav n = Ok (us, delta)" "vt_total_shares v \<noteq> 0"
  shows "delta = us" "unat us * unat nav \<le> unat n * unat (vt_total_shares v)"
proof -
  let ?q = "as_u128 n * as_u128 (vt_total_shares v) div as_u128 (max nav 1)"
  have us: "us = as_u64 ?q" "delta = us"
    using assms by (auto simp: deposit_shares_def Let_def)
  have "unat us * unat (max nav 1) \<le> unat ?q * unat (max nav 1)"
    using as_u64_le [of ?q] us(1) by (simp add: mult_le_mono1)
  also have "\<dots> \<le> unat n * unat (vt_total_shares v)"
    by (simp add: unat_div div_times_less_eq_dividend)
  finally have "unat us * unat (max nav 1) \<le> unat n * unat (vt_total_shares v)" .
  moreover have "unat us * unat nav \<le> unat us * unat (max nav 1)"
    by (intro mult_le_mono2) simp
  ultimately show "unat us * unat nav \<le> unat n * unat (vt_total_shares v)" "delta = us"
    using us(2) by linarith+
qed

lemma redemption_bound:
  assumes "unat n \<le> unat (t :: u64)" "t \<noteq> 0" "out = as_u64 (as_u128 n * as_u128 nav div as_u128 t)"
  shows "unat out = unat n * unat nav div unat t" "unat out * unat t \<le> unat n * unat nav"
proof -
  have "unat n * unat nav \<le> unat nav * unat t"
    using assms(1) by (simp add: mult.commute)
  then have "unat n * unat nav div unat t \<le> unat nav"
    using assms(2) div_le_mono [of "unat n * unat nav" "unat nav * unat t" "unat t"] by (simp add: unat_eq_0)
  then have "unat n * unat nav div unat t < 2 ^ 64"
    using unat_bound [of nav] by simp
  then show "unat out = unat n * unat nav div unat t"
    using assms(3) by (simp add: unat_ucast_128_64 unat_div)
  then show "unat out * unat t \<le> unat n * unat nav"
    by (simp add: div_times_less_eq_dividend)
qed

text \<open>
  C22. Depositing is fair to the holders: against the net asset value the deposit was priced
  with, assets per share do not fall. The depositor pays exactly the amount, receives at least
  the minimum asked for, and the vault's books and the supply of the share mint grow by the
  shares minted. The very first deposit keeps 1000 shares outside the mint for good.
\<close>

theorem vault_deposit_fair:
  assumes "vault_env_ok e" "decode (vt_instr e) data = Some (Vt_Deposit n m)"
    and "vault_process e ts accounts data c = (Ok accounts', c')"
    and "read_at (vt_vault e) accounts 0 = Ok v" "live_nav e v accounts = Ok nav"
  shows "\<exists>v' minted. read_at (vt_vault e) accounts' 0 = Ok v' \<and> a_is_signer (accounts ! 5) \<and> unat m \<le> minted
    \<and> bal e accounts 1 = unat n + bal e accounts' 1 \<and> bal e accounts' 2 = bal e accounts 2 + unat n
    \<and> bal e accounts' 3 = bal e accounts 3 + minted
    \<and> mint_supply e accounts' 4 = mint_supply e accounts 4 + minted
    \<and> unat (vt_total_assets v') = unat (vt_total_assets v) + unat n
    \<and> (if vt_total_shares v = 0 then unat n = minted + 1000 \<and> vt_total_shares v' = n
       else unat (vt_total_shares v') = unat (vt_total_shares v) + minted
         \<and> unat nav * unat (vt_total_shares v') \<le> (unat nav + unat n) * unat (vt_total_shares v))"
proof -
  have "vt_process_deposit e accounts n m c = (Ok accounts', c')"
    using assms(2,3) by (simp add: vault_process_def)
  then obtain us delta as1 c1 as2 c2 assets total where sig: "a_is_signer (accounts ! 5)"
    and ds: "deposit_shares v nav n = Ok (us, delta)" "m \<le> us"
    and t: "vt_token_transfer e accounts 1 2 5 n c = (Ok as1, c1)" "mint_signed e as1 4 3 0 us c1 = (Ok as2, c2)"
    and nat: "unat assets = unat (vt_total_assets v) + unat n" "unat total = unat (vt_total_shares v) + unat delta"
    and w: "write_at (vt_vault e) (v\<lparr>vt_total_assets := assets, vt_total_shares := total\<rparr>) as2 0 = Ok accounts'"
    using assms(4,5) by (elim deposit_run_v) auto
  note t1 = vt_transfer_effect [OF assms(1) _ disjI1 [OF t(1)]]
  note t2 = mint_effect [OF assms(1) _ t(2)]
  note wr = write_vault_effect [OF assms(1) w]
  have moves: "bal e accounts 1 = unat n + bal e accounts' 1" "bal e accounts' 2 = bal e accounts 2 + unat n"
    "bal e accounts' 3 = bal e accounts 3 + unat us"
    "mint_supply e accounts' 4 = mint_supply e accounts 4 + unat us"
    using t1 t2 wr token_balance_cong [of accounts' as2 _ "vt_mm e"] token_balance_cong [of as2 as1 _ "vt_mm e"]
      token_balance_cong [of as1 accounts _ "vt_mm e"] mint_supply_cong [of accounts' as2 4 e]
      mint_supply_cong [of as1 accounts 4 e] by simp_all
  have shares: "if vt_total_shares v = 0 then unat n = unat us + 1000 \<and> total = n
      else unat total = unat (vt_total_shares v) + unat us
        \<and> unat nav * unat total \<le> (unat nav + unat n) * unat (vt_total_shares v)"
  proof (cases "vt_total_shares v = 0")
    case True
    then have "unat n = unat us + 1000" "delta = n"
      using ds(1) by (auto simp: deposit_shares_def monad_iffs checked_sub_Some_iff MIN_SHARES_def)
    moreover from this have "total = n"
      using nat(2) True by (simp add: unat_eqI)
    ultimately show ?thesis
      using True by simp
  next
    case False
    have b: "delta = us" "unat us * unat nav \<le> unat n * unat (vt_total_shares v)"
      using deposit_shares_bound [OF ds(1) False] by simp_all
    then show ?thesis
      using False unfolding nat(2) by (simp add: algebra_simps)
  qed
  have "unat m \<le> unat us"
    using ds(2) by (simp add: word_le_nat_alt)
  with wr(1) sig show ?thesis
    using moves nat(1) shares
    by (intro exI [of _ "v\<lparr>vt_total_assets := assets, vt_total_shares := total\<rparr>"] exI [of _ "unat us"])
      (simp only: vault_update simp_thms)
qed

text \<open>
  C23. Withdrawing is fair too: for at most the outstanding shares the payout is the
  proportional part of the net asset value rounded down, it meets the minimum, the user's
  shares are burnt, and what stays in the books is worth at least as much per remaining share.
  The market and the token accounts used for an automatic undeployment do not affect this.
\<close>

theorem vault_withdraw_fair:
  assumes "vault_env_ok e" "decode (vt_instr e) data = Some (Vt_Withdraw n m)"
    and "vault_process e ts accounts data c = (Ok accounts', c')"
    and "read_at (vt_vault e) accounts 0 = Ok v" "live_nav e v accounts = Ok nav"
  shows "\<exists>v' out. read_at (vt_vault e) accounts' 0 = Ok v' \<and> a_is_signer (accounts ! 5) \<and> unat m \<le> out
    \<and> out = unat n * unat nav div unat (vt_total_shares v)
    \<and> bal e accounts' 1 = bal e accounts 1 + out
    \<and> bal e accounts 3 = unat n + bal e accounts' 3
    \<and> mint_supply e accounts 4 = unat n + mint_supply e accounts' 4
    \<and> unat nav = out + unat (vt_total_assets v')
    \<and> unat (vt_total_shares v) = unat n + unat (vt_total_shares v')
    \<and> unat nav * unat (vt_total_shares v') \<le> unat (vt_total_assets v') * unat (vt_total_shares v)"
proof -
  have "vt_process_withdraw e accounts n m ts c = (Ok accounts', c')"
    using assms(2,3) by (simp add: vault_process_def)
  then obtain out i as0 v0 c0 as1 c1 as2 c2 assets total where sig: "a_is_signer (accounts ! 5)"
    and out: "vt_total_shares v \<noteq> 0"
      "out = as_u64 (as_u128 n * as_u128 nav div as_u128 (vt_total_shares v))" "m \<le> out"
    and u: "auto_undeploy e accounts v i out ts c = (Ok (as0, v0), c0)"
    and t: "vt_burn e as0 3 4 5 n c0 = (Ok as1, c1)" "vt_token_transfer_signed e as1 2 1 0 out c1 = (Ok as2, c2)"
    and nat: "unat nav = unat out + unat assets" "unat (vt_total_shares v0) = unat n + unat total"
    and w: "write_at (vt_vault e) (v0\<lparr>vt_total_assets := assets, vt_total_shares := total\<rparr>) as2 0 = Ok accounts'"
    using assms(4,5) by (elim withdraw_run_v) auto
  note ue = auto_undeploy_effect [OF u]
  note t1 = burn_effect [OF assms(1) _ t(1)]
  note t2 = vt_transfer_effect [OF assms(1) _ disjI2 [OF t(2)]]
  note wr = write_vault_effect [OF assms(1) w]
  have moves: "bal e accounts' 1 = bal e accounts 1 + unat out" "bal e accounts 3 = unat n + bal e accounts' 3"
    "mint_supply e accounts 4 = unat n + mint_supply e accounts' 4"
    using ue t1 t2 wr token_balance_cong [of accounts' as2 _ "vt_mm e"] token_balance_cong [of as2 as1 _ "vt_mm e"]
      token_balance_cong [of as1 as0 _ "vt_mm e"] token_balance_cong [of as0 accounts _ "vt_mm e"]
      mint_supply_cong [of accounts' as2 4 e] mint_supply_cong [of as2 as1 4 e]
      mint_supply_cong [of as0 accounts 4 e] by simp_all
  have tot: "unat (vt_total_shares v) = unat n + unat total"
    using nat(2) ue(3) by simp
  then have "unat n \<le> unat (vt_total_shares v)"
    by linarith
  note pay = redemption_bound [OF this out(1,2)]
  have "unat out * (unat n + unat total) \<le> unat n * (unat out + unat assets)"
    using pay(2) unfolding tot nat(1) .
  then have "(unat out + unat assets) * unat total \<le> unat assets * (unat n + unat total)"
    by (simp add: algebra_simps)
  then have fair: "unat nav * unat total \<le> unat assets * unat (vt_total_shares v)"
    unfolding tot nat(1) .
  have "unat m \<le> unat out"
    using out(3) by (simp add: word_le_nat_alt)
  with wr(1) sig moves nat(1) pay(1) tot fair show ?thesis
    by - (rule exI [of _ "v0\<lparr>vt_total_assets := assets, vt_total_shares := total\<rparr>"], rule exI [of _ "unat out"],
        unfold vault_update, blast)
qed

section \<open>Performance fees\<close>

lemma fee_shares_bound:
  assumes "unat (vt_performance_fee_bps v) \<le> 10000"
    and "fee = (unat nav - unat (vt_total_assets v)) * unat (vt_performance_fee_bps v) div 10000"
  shows "unat (fee_shares v nav) * unat nav \<le> fee * (unat (vt_total_shares v) + unat (fee_shares v nav))"
    "unat nav \<le> unat (vt_total_assets v) \<Longrightarrow> fee_shares v nav = 0"
proof -
  let ?profit = "saturating_sub nav (vt_total_assets v)"
  let ?fee = "as_u128 ?profit * as_u128 (vt_performance_fee_bps v) div VT_BPS"
  let ?q = "?fee * as_u128 (vt_total_shares v) div (as_u128 nav - ?fee)"
  have fee: "unat ?fee = fee"
    using assms(2) by (simp add: unat_div VT_BPS_def)
  have "fee \<le> (unat nav - unat (vt_total_assets v)) * 10000 div 10000"
    unfolding assms(2) using assms(1) by (intro div_le_mono mult_le_mono2)
  then have small: "fee \<le> unat nav"
    by simp
  show "unat (fee_shares v nav) * unat nav \<le> fee * (unat (vt_total_shares v) + unat (fee_shares v nav))"
  proof (cases "?fee < as_u128 nav \<and> fee_shares v nav \<noteq> 0")
    case True
    then have s: "fee_shares v nav = as_u64 ?q"
      by (auto simp: fee_shares_def Let_def split: if_splits)
    have "fee * unat (vt_total_shares v) < 2 ^ 64 * 2 ^ 64"
      using small unat_bound [of nav] unat_bound [of "vt_total_shares v"] by (intro mult_strict_mono) auto
    then have "unat (?fee * as_u128 (vt_total_shares v)) = fee * unat (vt_total_shares v)"
      using fee unat_mult_lem [of ?fee "as_u128 (vt_total_shares v)"] by simp
    moreover have "unat (as_u128 nav - ?fee) = unat nav - fee"
      using True fee unat_sub [of ?fee "as_u128 nav"] by (simp add: order_less_imp_le)
    ultimately have "unat ?q * (unat nav - fee) \<le> fee * unat (vt_total_shares v)"
      by (simp add: unat_div div_times_less_eq_dividend)
    moreover have "unat (fee_shares v nav) * (unat nav - fee) \<le> unat ?q * (unat nav - fee)"
      using s as_u64_le [of ?q] by (simp add: mult_le_mono1)
    ultimately have "unat (fee_shares v nav) * (unat nav - fee) \<le> fee * unat (vt_total_shares v)"
      by linarith
    then show ?thesis
      using small by (simp add: diff_mult_distrib2 algebra_simps)
  qed (auto simp: fee_shares_def Let_def)
  show "fee_shares v nav = 0" if "unat nav \<le> unat (vt_total_assets v)"
  proof -
    have "?profit = 0"
      by (rule unat_eqI) (use that in simp)
    then show ?thesis
      by (simp add: fee_shares_def Let_def)
  qed
qed

lemma mint_fee_effect:
  assumes "vault_env_ok e" "mint_fee e as v n c = (Ok (as', v'), c')"
  shows "mint_supply e as' 3 = mint_supply e as 3 + unat n" "length as' = length as"
    "unat (vt_total_shares v') = unat (vt_total_shares v) + unat n"
proof (atomize (full), cases "0 < n")
  case False
  then have "n = 0"
    by (metis word_gt_0)
  then show "mint_supply e as' 3 = mint_supply e as 3 + unat n \<and> length as' = length as
      \<and> unat (vt_total_shares v') = unat (vt_total_shares v) + unat n"
    using assms(2) by (auto simp: mint_fee_def word_less_nat_alt)
next
  case True
  then obtain total d where m: "mint_signed e as 3 4 0 n c = (Ok as', d)"
    and t: "unat total = unat (vt_total_shares v) + unat n" "v' = v\<lparr>vt_total_shares := total\<rparr>"
    using assms(2) by (auto simp: mint_fee_def monad_iffs checked_add_Some_iff)
  then show "mint_supply e as' 3 = mint_supply e as 3 + unat n \<and> length as' = length as
      \<and> unat (vt_total_shares v') = unat (vt_total_shares v) + unat n"
    using mint_effect(1,3) [OF assms(1) _ m] by simp
qed

lemma report_run:
  assumes "vt_process_report e accounts c = (Ok accounts', c')"
  obtains v deployed i nav as1 v1 c1 where "a_is_signer (accounts ! 1)" "read_at (vt_vault e) accounts 0 = Ok v"
    "a_key (accounts ! 1) = vt_manager v" "deployed_value e accounts v = Ok deployed"
    "vt_balance e (accounts ! 2) = Ok i" "unat nav = unat i + unat deployed"
    "mint_fee e accounts v (fee_shares v nav) c = (Ok (as1, v1), c1)"
    "write_at (vt_vault e) (v1\<lparr>vt_total_assets := nav\<rparr>) as1 0 = Ok accounts'"
  using assms unfolding vt_process_report_def Let_def
  by (auto simp: monad_iffs checked_add_Some_iff simp del: read_at_Ok_iff write_at_Ok_iff split: if_splits)

text \<open>
  C24. A report is the manager's and charges at most the performance fee: the net asset value
  booked is the idle balance plus the value of the lender shares; the shares minted to the
  manager are, at the new price, worth no more than the agreed part of the profit; without a
  profit none are minted; the books and the share mint grow alike.
\<close>

theorem vault_report_charges_at_most_fee:
  assumes "vault_env_ok e" "decode (vt_instr e) data = Some Vt_Report"
    and "vault_process e ts accounts data c = (Ok accounts', c')"
    and "read_at (vt_vault e) accounts 0 = Ok v" "unat (vt_performance_fee_bps v) \<le> 10000"
  shows "\<exists>v' deployed minted. read_at (vt_vault e) accounts' 0 = Ok v'
    \<and> a_is_signer (accounts ! 1) \<and> a_key (accounts ! 1) = vt_manager v
    \<and> deployed_value e accounts v = Ok deployed
    \<and> unat (vt_total_assets v') = bal e accounts 2 + unat deployed
    \<and> unat (vt_total_shares v') = unat (vt_total_shares v) + minted
    \<and> mint_supply e accounts' 3 = mint_supply e accounts 3 + minted
    \<and> minted * unat (vt_total_assets v') \<le>
        (unat (vt_total_assets v') - unat (vt_total_assets v)) * unat (vt_performance_fee_bps v) div 10000
          * unat (vt_total_shares v')
    \<and> (unat (vt_total_assets v') \<le> unat (vt_total_assets v) \<longrightarrow> minted = 0)"
proof -
  have "vt_process_report e accounts c = (Ok accounts', c')"
    using assms(2,3) by (simp add: vault_process_def)
  then obtain deployed i nav as1 v1 c1 where sig: "a_is_signer (accounts ! 1)" "a_key (accounts ! 1) = vt_manager v"
    and d: "deployed_value e accounts v = Ok deployed"
    and b: "vt_balance e (accounts ! 2) = Ok i" "unat nav = unat i + unat deployed"
    and m: "mint_fee e accounts v (fee_shares v nav) c = (Ok (as1, v1), c1)"
    and w: "write_at (vt_vault e) (v1\<lparr>vt_total_assets := nav\<rparr>) as1 0 = Ok accounts'"
    using assms(4) by (elim report_run) auto
  note wr = write_vault_effect [OF assms(1) w]
  note me = mint_fee_effect [OF assms(1) m]
  have len: "2 < length accounts"
    using assms(2,3) by (auto simp: vault_process_def vt_process_report_def split: if_splits)
  have bal: "bal e accounts 2 = unat i"
    using b(1) len by (auto simp: vt_balance_def token_balance_def read_at_def monad_iffs read_data_def)
  have sup: "mint_supply e accounts' 3 = mint_supply e accounts 3 + unat (fee_shares v nav)"
    using me(1) mint_supply_cong [of accounts' as1 3 e] wr(2,3) by simp
  show ?thesis
  proof (rule exI [of _ "v1\<lparr>vt_total_assets := nav\<rparr>"], rule exI [of _ deployed],
      rule exI [of _ "unat (fee_shares v nav)"], intro conjI)
    show "unat (vt_total_assets (v1\<lparr>vt_total_assets := nav\<rparr>)) = bal e accounts 2 + unat deployed"
      using b(2) bal by simp
  qed (use wr(1) sig d me(3) sup fee_shares_bound [OF assms(5) refl, of nav] in simp_all)
qed

section \<open>Concrete runs\<close>

definition sample_vault :: "u64 \<Rightarrow> u64 \<Rightarrow> VaultState" where
  "sample_vault assets shares = default_vault\<lparr>vt_manager := 5, vt_total_assets := assets,
     vt_total_shares := shares, vt_performance_fee_bps := 1000, vt_is_initialized := True\<rparr>"

definition sample_vault_env :: vault_env where
  "sample_vault_env =
     \<lparr> vt_instr = table_codec [Vt_Deposit 500 300, Vt_Withdraw 400 400, Vt_Report],
       vt_vault = table_codec [sample_vault 5000 4000, sample_vault 5500 4400, sample_vault 4500 3600,
         sample_vault 5500 4036],
       vt_mm = sample_market_env\<lparr>mm_token :=
         \<lparr> tk_instr = table_codec [Tok_Transfer 500, Tok_MintTo 400, Tok_Burn 400, Tok_MintTo 36],
           tk_mint = table_codec [sample_mint 3000, sample_mint 3400, sample_mint 3036],
           tk_account = table_codec
             [sample_token_account 9 5 1000, sample_token_account 9 5 500,
              sample_token_account 9 6 5500, sample_token_account 9 6 6000, sample_token_account 9 6 5000,
              sample_token_account 14 5 0, sample_token_account 14 5 400, sample_token_account 14 5 36] \<rparr>\<rparr> \<rparr>"

definition vault_window :: "bytes \<Rightarrow> bytes \<Rightarrow> bytes \<Rightarrow> bytes \<Rightarrow> bytes \<Rightarrow> accounts" where
  "vault_window v asset pot shares mint = [owned_slot 1 10 v, owned_slot 77 11 asset, owned_slot 77 12 pot,
     owned_slot 77 13 shares, owned_slot 77 14 mint, signer_slot 5]"

definition report_window :: "bytes \<Rightarrow> bytes \<Rightarrow> bytes \<Rightarrow> bytes \<Rightarrow> accounts" where
  "report_window v pot mint shares = [owned_slot 1 10 v, signer_slot 5, owned_slot 77 12 pot,
     owned_slot 77 14 mint, owned_slot 77 13 shares]"

lemmas vault_run = vault_process_def sample_vault_env_def sample_vault_def default_vault_def
  vault_window_def report_window_def live_nav_def deposit_shares_def auto_undeploy_def vt_balance_def
  vt_cpi_defs deployed_value_def mint_fee_def fee_shares_def VT_BPS_def market_run

lemma sample_vault_ok: "vault_env_ok sample_vault_env"
  using sample_market_ok
  by (simp add: vault_env_ok_def market_env_ok_def token_env_ok_def sample_vault_env_def)

lemma sample_vault_parts:
  "decode (vt_instr sample_vault_env) [0] = Some (Vt_Deposit 500 300)"
  "decode (vt_instr sample_vault_env) [1] = Some (Vt_Withdraw 400 400)"
  "decode (vt_instr sample_vault_env) [2] = Some Vt_Report"
  "read_at (vt_vault sample_vault_env) (vault_window [0] a b c d) 0 = Ok (sample_vault 5000 4000)"
  "read_at (vt_vault sample_vault_env) (report_window [0] a b c) 0 = Ok (sample_vault 5000 4000)"
  "live_nav sample_vault_env (sample_vault 5000 4000) accounts = Ok 5000"
  by (simp_all add: vault_run)

lemma sample_vault_deposit:
  "fst (vault_process sample_vault_env 0 (vault_window [0] [0] [2] [5] [0]) [0] idle_ctx) =
   Ok (vault_window [1] [1] [3] [6] [1])"
  by (simp add: vt_process_deposit_def vault_run)

lemma sample_vault_withdraw:
  "fst (vault_process sample_vault_env 0 (vault_window [0] [1] [2] [6] [1]) [1] idle_ctx) =
   Ok (vault_window [2] [0] [4] [5] [0])"
  by (simp add: vt_process_withdraw_def vault_run)

lemma sample_vault_report:
  "fst (vault_process sample_vault_env 0 (report_window [0] [2] [0] [5]) [2] idle_ctx) =
   Ok (report_window [3] [2] [2] [7])"
  by (simp add: vt_process_report_def vault_run)

theorem vault_deposit_fair_witness:
  "\<exists>v' minted. read_at (vt_vault sample_vault_env) (vault_window [1] [1] [3] [6] [1]) 0 = Ok v'
    \<and> 300 \<le> minted \<and> unat (vt_total_shares v') = 4000 + minted
    \<and> 5000 * unat (vt_total_shares v') \<le> 5500 * 4000"
proof -
  obtain c' where run: "vault_process sample_vault_env 0 (vault_window [0] [0] [2] [5] [0]) [0] idle_ctx =
      (Ok (vault_window [1] [1] [3] [6] [1]), c')"
    using sample_vault_deposit by (metis prod.collapse)
  show ?thesis
    using vault_deposit_fair [OF sample_vault_ok sample_vault_parts(1) run sample_vault_parts(4,6)]
    by (auto simp: sample_vault_def)
qed

theorem vault_withdraw_fair_witness:
  "\<exists>v'. read_at (vt_vault sample_vault_env) (vault_window [2] [0] [4] [5] [0]) 0 = Ok v'
    \<and> 5000 = 500 + unat (vt_total_assets v') \<and> 5000 * unat (vt_total_shares v') \<le> unat (vt_total_assets v') * 4000"
proof -
  obtain c' where run: "vault_process sample_vault_env 0 (vault_window [0] [1] [2] [6] [1]) [1] idle_ctx =
      (Ok (vault_window [2] [0] [4] [5] [0]), c')"
    using sample_vault_withdraw by (metis prod.collapse)
  show ?thesis
    using vault_withdraw_fair [OF sample_vault_ok sample_vault_parts(2) run sample_vault_parts(4,6)]
    by (auto simp: sample_vault_def)
qed

theorem vault_report_charges_at_most_fee_witness:
  "\<exists>v' minted. read_at (vt_vault sample_vault_env) (report_window [3] [2] [2] [7]) 0 = Ok v'
    \<and> unat (vt_total_shares v') = 4000 + minted
    \<and> minted * unat (vt_total_assets v') \<le> (unat (vt_total_assets v') - 5000) * 1000 div 10000 * unat (vt_total_shares v')"
proof -
  obtain c' where run: "vault_process sample_vault_env 0 (report_window [0] [2] [0] [5]) [2] idle_ctx =
      (Ok (report_window [3] [2] [2] [7]), c')"
    using sample_vault_report by (metis prod.collapse)
  have "unat (vt_performance_fee_bps (sample_vault 5000 4000)) \<le> 10000"
    by (simp add: sample_vault_def)
  from vault_report_charges_at_most_fee [OF sample_vault_ok sample_vault_parts(3) run sample_vault_parts(5) this]
  show ?thesis
    by (auto simp: sample_vault_def)
qed

end
