(* ===== verification/Transaction.thy ===== *)
theory Transaction
  imports Account
begin

text \<open>
  Transactions, blocks and receipts: \<open>src/himsha-runtime/src/transaction.rs\<close>,
  \<open>receipt.rs\<close>, \<open>exec.rs\<close> and the gate of \<open>signature.rs\<close>. The verification of one
  Schnorr signature and the signing key are third-party code, the functions \<open>tx_verify\<close> and
  \<open>tx_sign\<close> of the environment; so are the Borsh encodings of a message and of a list of
  accounts.
\<close>

section \<open>Messages and transactions\<close>

type_synonym Signature = "512 word"

record Message =
  msg_signers :: "Pubkey list"
  msg_instructions :: "Instruction list"
  msg_recent_blockhash :: bytes32
  msg_chain_id :: u64
  msg_timestamp :: u64

record RuntimeTransaction =
  tx_version :: u32
  tx_signatures :: "Signature list"
  tx_message :: Message

record 'k tx_env =
  tx_sha :: sha256
  tx_codec :: "Message codec"
  tx_verify :: "Signature \<Rightarrow> bytes32 \<Rightarrow> Pubkey \<Rightarrow> bool"
  tx_sign :: "'k \<Rightarrow> bytes32 \<Rightarrow> Signature"
  tx_pubkey :: "'k \<Rightarrow> Pubkey"

definition message_new :: "Pubkey list \<Rightarrow> Instruction list \<Rightarrow> u64 \<Rightarrow> Message" where
  "message_new signers instructions timestamp =
     \<lparr> msg_signers = signers, msg_instructions = instructions, msg_recent_blockhash = 0,
       msg_chain_id = 0, msg_timestamp = timestamp \<rparr>"

definition message_new_signed ::
  "Pubkey list \<Rightarrow> Instruction list \<Rightarrow> bytes32 \<Rightarrow> u64 \<Rightarrow> u64 \<Rightarrow> Message" where
  "message_new_signed signers instructions recent_blockhash chain_id timestamp =
     \<lparr> msg_signers = signers, msg_instructions = instructions,
       msg_recent_blockhash = recent_blockhash, msg_chain_id = chain_id,
       msg_timestamp = timestamp \<rparr>"

text \<open>\<open>borsh::to_vec(self).expect("borsh")\<close>: an encoder failure panics.\<close>

definition message_hash :: "('k, 'z) tx_env_scheme \<Rightarrow> Message \<Rightarrow> ('e, bytes32) result" where
  "message_hash e m = (case encode (tx_codec e) m of Some b \<Rightarrow> Ok (tx_sha e b) | None \<Rightarrow> Panic)"

definition tx_new :: "Message \<Rightarrow> Signature list \<Rightarrow> RuntimeTransaction" where
  "tx_new message signatures =
     \<lparr> tx_version = 0, tx_signatures = signatures, tx_message = message \<rparr>"

definition tx_unsigned :: "Message \<Rightarrow> RuntimeTransaction" where
  "tx_unsigned message =
     \<lparr> tx_version = 0, tx_signatures = replicate (length (msg_signers message)) 0,
       tx_message = message \<rparr>"

definition tx_signed ::
  "('k, 'z) tx_env_scheme \<Rightarrow> Message \<Rightarrow> 'k list \<Rightarrow> ('e, RuntimeTransaction) result" where
  "tx_signed e message keypairs =
     rbind (message_hash e message) (\<lambda>h.
     Ok \<lparr> tx_version = 0, tx_signatures = map (\<lambda>kp. tx_sign e kp h) keypairs,
          tx_message = message \<rparr>)"

definition verify_signature_count :: "RuntimeTransaction \<Rightarrow> bool" where
  "verify_signature_count tx \<longleftrightarrow> length (tx_signatures tx) = length (msg_signers (tx_message tx))"

definition verify_signatures :: "('k, 'z) tx_env_scheme \<Rightarrow> RuntimeTransaction \<Rightarrow> ('e, bool) result" where
  "verify_signatures e tx =
     (if length (tx_signatures tx) \<noteq> length (msg_signers (tx_message tx)) then Ok False
      else rbind (message_hash e (tx_message tx)) (\<lambda>h.
        Ok (list_all (\<lambda>(sig, signer). tx_verify e sig h signer)
              (zip (tx_signatures tx) (msg_signers (tx_message tx))))))"

datatype replay_error = WrongChainId | BlockhashNotFound

definition check_chain_and_blockhash ::
  "RuntimeTransaction \<Rightarrow> u64 \<Rightarrow> bytes32 set \<Rightarrow> (replay_error, unit) result" where
  "check_chain_and_blockhash tx chain_id valid_blockhashes =
     (if msg_chain_id (tx_message tx) \<noteq> chain_id then Err WrongChainId
      else if msg_recent_blockhash (tx_message tx) \<notin> valid_blockhashes then Err BlockhashNotFound
      else Ok ())"

section \<open>Blocks\<close>

record Block =
  b_slot :: u64
  b_parent_slot :: u64
  b_transactions :: "RuntimeTransaction list"
  b_blockhash :: bytes32
  b_timestamp :: u64
  b_state_root :: bytes32

text \<open>\<open>for tx in &transactions { h.update(tx.message_hash()); }\<close>\<close>

fun message_hashes :: "('k, 'z) tx_env_scheme \<Rightarrow> RuntimeTransaction list \<Rightarrow> ('e, bytes) result" where
  "message_hashes e [] = Ok []"
| "message_hashes e (tx # txs) =
     rbind (message_hash e (tx_message tx)) (\<lambda>h.
     rbind (message_hashes e txs) (\<lambda>hs. Ok (be_bytes h @ hs)))"

definition new_with_root ::
  "('k, 'z) tx_env_scheme \<Rightarrow> u64 \<Rightarrow> u64 \<Rightarrow> RuntimeTransaction list \<Rightarrow> u64 \<Rightarrow> bytes32
     \<Rightarrow> ('e, Block) result" where
  "new_with_root e slot parent_slot transactions timestamp state_root =
     rbind (message_hashes e transactions) (\<lambda>hs.
     Ok \<lparr> b_slot = slot, b_parent_slot = parent_slot, b_transactions = transactions,
          b_blockhash = tx_sha e (to_le_bytes slot @ hs @ be_bytes state_root),
          b_timestamp = timestamp, b_state_root = state_root \<rparr>)"

definition block_new ::
  "('k, 'z) tx_env_scheme \<Rightarrow> u64 \<Rightarrow> u64 \<Rightarrow> RuntimeTransaction list \<Rightarrow> u64 \<Rightarrow> ('e, Block) result" where
  "block_new e slot parent_slot transactions timestamp =
     new_with_root e slot parent_slot transactions timestamp 0"

section \<open>Receipts\<close>

record ExecutionReceipt =
  er_program_id :: Pubkey
  er_image_id :: bytes32
  er_journal_hash :: bytes32
  er_proof_bytes :: bytes
  er_verified :: bool

definition unverified :: "Pubkey \<Rightarrow> bytes32 \<Rightarrow> bytes32 \<Rightarrow> bytes \<Rightarrow> ExecutionReceipt" where
  "unverified program_id image_id journal_hash proof_bytes =
     \<lparr> er_program_id = program_id, er_image_id = image_id, er_journal_hash = journal_hash,
       er_proof_bytes = proof_bytes, er_verified = False \<rparr>"

definition journal_hash_for :: "sha256 \<Rightarrow> accounts codec \<Rightarrow> accounts \<Rightarrow> bytes32" where
  "journal_hash_for sha c accounts =
     sha (case encode c accounts of Some b \<Rightarrow> b | None \<Rightarrow> [])"

record StateTransition =
  st_receipt :: ExecutionReceipt
  st_updated_accounts :: accounts
  st_new_utxos :: "UtxoMeta list"
  st_bitcoin_txid :: "bytes32 option"

definition transition_verify :: "sha256 \<Rightarrow> accounts codec \<Rightarrow> StateTransition \<Rightarrow> bool" where
  "transition_verify sha c t \<longleftrightarrow> er_verified (st_receipt t) \<or>
     journal_hash_for sha c (st_updated_accounts t) = er_journal_hash (st_receipt t)"

text \<open>What the zkVM guest reads and commits, \<open>exec.rs\<close>.\<close>

record ExecutionInput =
  ei_accounts :: accounts
  ei_instruction_data :: bytes
  ei_timestamp :: u64

record ExecutionOutput =
  eo_updated_accounts :: accounts
  eo_unsigned_bitcoin_tx :: "bytes option"
  eo_logs :: "bytes list"

section \<open>What a block hash commits to\<close>

text \<open>The byte strings hashed for a block and its messages.\<close>

definition encoded_messages :: "('k, 'z) tx_env_scheme \<Rightarrow> Block \<Rightarrow> bytes set" where
  "encoded_messages e b = {x. \<exists>tx \<in> set (b_transactions b). encode (tx_codec e) (tx_message tx) = Some x}"

definition block_preimage :: "('k, 'z) tx_env_scheme \<Rightarrow> Block \<Rightarrow> bytes" where
  "block_preimage e b = to_le_bytes (b_slot b)
     @ concat (map (\<lambda>tx. be_bytes (tx_sha e (the (encode (tx_codec e) (tx_message tx))))) (b_transactions b))
     @ be_bytes (b_state_root b)"

lemma message_hash_Ok_iff [monad_iffs]:
  "message_hash e m = Ok h \<longleftrightarrow> (\<exists>b. encode (tx_codec e) m = Some b \<and> h = tx_sha e b)"
  by (auto simp: message_hash_def split: option.splits)

lemma message_hashes_Ok:
  assumes "message_hashes e txs = Ok hs"
  shows "hs = concat (map be_bytes (map (\<lambda>tx. tx_sha e (the (encode (tx_codec e) (tx_message tx)))) txs))
    \<and> (\<forall>tx \<in> set txs. encode (tx_codec e) (tx_message tx) \<noteq> None)"
  using assms by (induction txs arbitrary: hs) (auto simp: monad_iffs)

lemma new_with_root_Ok:
  assumes "new_with_root e slot parent txs ts root = Ok b"
  shows "b_blockhash b = tx_sha e (block_preimage e b)" "b_slot b = slot" "b_transactions b = txs"
    "b_state_root b = root" "\<forall>tx \<in> set txs. encode (tx_codec e) (tx_message tx) \<noteq> None"
  using assms by (auto simp: new_with_root_def monad_iffs block_preimage_def comp_def dest!: message_hashes_Ok)

lemma message_digests_inj:
  assumes "inj_on sha {x. \<exists>m \<in> set ms \<union> set ns. encode c m = Some x}" "codec_ok c"
    and "\<forall>m \<in> set ms \<union> set ns. encode c m \<noteq> None"
    and "map (\<lambda>m. sha (the (encode c m))) ms = map (\<lambda>m. sha (the (encode c m))) ns"
  shows "ms = ns"
proof -
  have "m = n" if "m \<in> set ms" "n \<in> set ns" "sha (the (encode c m)) = sha (the (encode c n))" for m n
  proof -
    obtain x y where xy: "encode c m = Some x" "encode c n = Some y"
      using assms(3) \<open>m \<in> set ms\<close> \<open>n \<in> set ns\<close> by blast
    then have "x = y"
      using that by (intro inj_onD [OF assms(1)]) auto
    then show ?thesis
      using codec_ok_inj [OF assms(2)] xy by blast
  qed
  then show ?thesis
    using assms(4) by (metis (mono_tags, lifting) list.inj_map_strong)
qed

text \<open>
  C36. The block hash commits to the block: two blocks with the same hash are for the same slot,
  carry the same messages in the same order and the same state root, for a hash without a
  collision among the inputs hashed for them. Signatures, the parent's slot and the timestamp
  are not part of it.
\<close>

theorem block_hash_binding:
  assumes "new_with_root e slot parent txs ts root = Ok b" "new_with_root e slot' parent' txs' ts' root' = Ok b'"
    and "b_blockhash b = b_blockhash b'" "codec_ok (tx_codec e)"
    and "inj_on (tx_sha e) (encoded_messages e b \<union> encoded_messages e b' \<union> {block_preimage e b, block_preimage e b'})"
  shows "slot = slot' \<and> map tx_message txs = map tx_message txs' \<and> root = root'"
proof -
  let ?d = "\<lambda>m. tx_sha e (the (encode (tx_codec e) m))"
  note n = new_with_root_Ok [OF assms(1)] new_with_root_Ok [OF assms(2)]
  have pre: "block_preimage e b = block_preimage e b'"
    by (rule inj_onD [OF assms(5)]) (use assms(3) n in simp_all)
  then have slot: "slot = slot'" and rest:
    "concat (map (be_bytes \<circ> (?d \<circ> tx_message)) txs) @ be_bytes root =
     concat (map (be_bytes \<circ> (?d \<circ> tx_message)) txs') @ be_bytes root'"
    using n by (auto simp: block_preimage_def append_eq_append_conv comp_def)
  then have root: "root = root'" and "concat (map be_bytes (map ?d (map tx_message txs))) =
      concat (map be_bytes (map ?d (map tx_message txs')))"
    by (simp_all add: comp_def)
  then have "map ?d (map tx_message txs) = map ?d (map tx_message txs')"
    by (simp only: concat_be_bytes_inj)
  moreover have "inj_on (tx_sha e) {x. \<exists>m \<in> set (map tx_message txs) \<union> set (map tx_message txs').
      encode (tx_codec e) m = Some x}"
    by (rule inj_on_subset [OF assms(5)]) (use n in \<open>auto simp: encoded_messages_def\<close>)
  ultimately have "map tx_message txs = map tx_message txs'"
    using assms(4) n by (intro message_digests_inj [of "tx_sha e" _ _ "tx_codec e"]) auto
  then show ?thesis
    using slot root by simp
qed

definition sample_tx_env :: "unit tx_env" where
  "sample_tx_env =
     \<lparr> tx_sha = (\<lambda>b. word_of_nat (length b)), tx_codec = table_codec [message_new [] [] 7],
       tx_verify = (\<lambda>_ _ _. True), tx_sign = (\<lambda>_ _. 0), tx_pubkey = (\<lambda>_. 0) \<rparr>"

theorem block_hash_binding_witness:
  "(3 :: u64) = 3 \<and> map tx_message [tx_new (message_new [] [] 7) []] = [message_new [] [] 7]
    \<and> (\<exists>b. new_with_root sample_tx_env 3 2 [tx_new (message_new [] [] 7) []] 9 5 = (Ok b :: (unit, Block) result))"
proof -
  let ?txs = "[tx_new (message_new [] [] 7) []]"
  obtain b where b: "new_with_root sample_tx_env 3 2 ?txs 9 5 = (Ok b :: (unit, Block) result)"
    by (simp add: new_with_root_def message_hash_def sample_tx_env_def table_codec_def tx_new_def)
  have "encoded_messages sample_tx_env b \<subseteq> {[0]}" "length (block_preimage sample_tx_env b) = 72"
    using new_with_root_Ok [OF b]
    by (auto simp: encoded_messages_def sample_tx_env_def table_codec_def tx_new_def block_preimage_def
        split: if_splits)
  then have "inj_on (tx_sha sample_tx_env) (encoded_messages sample_tx_env b \<union> encoded_messages sample_tx_env b
      \<union> {block_preimage sample_tx_env b, block_preimage sample_tx_env b})"
    by (auto simp: inj_on_def sample_tx_env_def)
  moreover have "codec_ok (tx_codec sample_tx_env)"
    by (simp add: sample_tx_env_def)
  ultimately show ?thesis
    using block_hash_binding [OF b b] b by (simp add: tx_new_def)
qed

section \<open>Signing and verifying\<close>

text \<open>
  Signing and verifying agree: a transaction signed by keypairs in the order of the
  message's signers verifies, and a transaction whose zero signatures the scheme rejects does
  not verify unless the message names no signer at all.
\<close>

theorem signed_transaction_verifies:
  assumes "\<And>k h. tx_verify e (tx_sign e k h) h (tx_pubkey e k)"
    and "encode (tx_codec e) m \<noteq> None" "map (tx_pubkey e) keypairs = msg_signers m"
    and "\<And>h p. \<not> tx_verify e 0 h p"
  shows "\<exists>tx. tx_signed e m keypairs = (Ok tx :: ('e, RuntimeTransaction) result)
    \<and> tx_message tx = m \<and> verify_signature_count tx
    \<and> verify_signatures e tx = (Ok True :: ('e, bool) result)
    \<and> verify_signatures e (tx_unsigned m) = (Ok (msg_signers m = []) :: ('e, bool) result)"
proof -
  obtain b where b: "encode (tx_codec e) m = Some b"
    using assms(2) by blast
  have len: "length keypairs = length (msg_signers m)"
    using assms(3) by (metis length_map)
  have good: "list_all (\<lambda>(sig, signer). tx_verify e sig h signer)
      (zip (map (\<lambda>kp. tx_sign e kp h) keypairs) (map (tx_pubkey e) keypairs))" for h
    using assms(1) by (auto simp: list_all_length)
  have bad: "list_all (\<lambda>(sig, signer). tx_verify e sig h signer)
      (zip (replicate (length ps) 0) ps) \<longleftrightarrow> ps = []" for h ps
    using assms(4) by (cases ps) auto
  show ?thesis
    using b len good [of "tx_sha e b"] assms(3)
    by (simp add: tx_signed_def message_hash_def verify_signature_count_def verify_signatures_def
        tx_unsigned_def bad)
qed

theorem signed_transaction_verifies_witness:
  "\<exists>tx. tx_signed (sample_tx_env\<lparr>tx_verify := (\<lambda>s h p. s = 1), tx_sign := (\<lambda>_ _. 1)\<rparr>)
      (message_new [] [] 7) [] = (Ok tx :: (unit, RuntimeTransaction) result)"
proof -
  let ?e = "sample_tx_env\<lparr>tx_verify := (\<lambda>s h p. s = 1), tx_sign := (\<lambda>_ _. 1)\<rparr>"
  have "\<exists>tx. tx_signed ?e (message_new [] [] 7) [] = (Ok tx :: (unit, RuntimeTransaction) result)
    \<and> tx_message tx = message_new [] [] 7 \<and> verify_signature_count tx
    \<and> verify_signatures ?e tx = (Ok True :: (unit, bool) result)
    \<and> verify_signatures ?e (tx_unsigned (message_new [] [] 7)) =
        (Ok (msg_signers (message_new [] [] 7) = []) :: (unit, bool) result)"
    by (rule signed_transaction_verifies)
      (simp_all add: sample_tx_env_def table_codec_def message_new_def)
  then show ?thesis
    by blast
qed

end
