(* ===== verification/Vm.thy ===== *)
theory Vm
  imports System_Program Ata_Program Swap_Program Nft_Program Runes_Program Lending_Program
    Vault_Program Transaction
begin

text \<open>
  The virtual machine, \<open>src/himsha-vm/src\<close>: the dispatch of built-in programs
  (\<open>dispatch.rs\<close>), the program registry (\<open>registry.rs\<close>, \<open>zk.rs\<close>), the executor
  (\<open>executor.rs\<close>), and the universal guest \<open>src/himsha-methods/guest/src/main.rs\<close>.

  The RISC Zero prover is third-party code: \<open>zk_prove\<close> gives the receipt of a guest binary on
  an input, if it can be proven, \<open>zk_accepts\<close> is the receipt's own verification against an
  image id, and \<open>zk_journal\<close> is the journal bytes it carries. Nothing is assumed of them, so
  what is shown of deployed programs holds for every binary. The error texts of the executor
  are the constructors of \<open>vm_reason\<close>.
\<close>

section \<open>Dispatch\<close>

record builtin_env =
  be_sha :: sha256
  be_system :: "SystemInstruction codec"
  be_token :: token_env
  be_ata :: ata_env
  be_swap :: swap_env
  be_nft :: nft_env
  be_lending :: lending_env
  be_runes :: runes_env
  be_market :: market_env
  be_vault :: vault_env
  be_oracle :: oracle_env

definition is_builtin :: "sha256 \<Rightarrow> Pubkey \<Rightarrow> bool" where
  "is_builtin sha program_id \<longleftrightarrow> program_id \<in> set (builtins sha)"

definition run_builtin :: "builtin_env \<Rightarrow> Pubkey \<Rightarrow> u64 \<Rightarrow> process" where
  "run_builtin e pid timestamp accounts data =
     (let sha = be_sha e in
      if pid = system_program sha then pure_program (system_process (be_system e)) accounts data
      else if pid = token_program sha then pure_program (token_process (be_token e)) accounts data
      else if pid = ata_program sha then ata_process (be_ata e) accounts data
      else if pid = swap_program sha then swap_process (be_swap e) accounts data
      else if pid = nft_metadata_program sha then pure_program (nft_process (be_nft e)) accounts data
      else if pid = lending_program sha then
        pure_program (lending_process (be_lending e) timestamp) accounts data
      else if pid = runes_program sha then
        pure_program (runes_process (be_runes e) timestamp) accounts data
      else if pid = money_market_program sha then
        money_market_process (be_market e) timestamp accounts data
      else if pid = vault_program sha then vault_process (be_vault e) timestamp accounts data
      else if pid = oracle_program sha then
        pure_program (oracle_process (be_oracle e) timestamp) accounts data
      else xlift (Err (Custom 0x4040)))"

definition dispatch :: "builtin_env \<Rightarrow> Pubkey \<Rightarrow> u64 \<Rightarrow> process" where
  "dispatch e program_id timestamp accounts data c =
     xbind (run_builtin e program_id timestamp accounts data)
       (validate_writes program_id accounts) (begin_execution c)"

section \<open>The registry\<close>

record RegisteredProgram =
  rp_program_id :: Pubkey
  rp_elf :: bytes
  rp_image_id :: bytes32

type_synonym ProgramRegistry = "bytes32 \<Rightarrow> RegisteredProgram option"

definition register :: "ProgramRegistry \<Rightarrow> Pubkey \<Rightarrow> bytes \<Rightarrow> bytes32 \<Rightarrow> ProgramRegistry" where
  "register reg program_id elf image_id =
     reg(program_id \<mapsto> \<lparr> rp_program_id = program_id, rp_elf = elf, rp_image_id = image_id \<rparr>)"

definition registry_get :: "ProgramRegistry \<Rightarrow> Pubkey \<Rightarrow> RegisteredProgram option" where
  "registry_get reg program_id = reg program_id"

definition registry_contains :: "ProgramRegistry \<Rightarrow> Pubkey \<Rightarrow> bool" where
  "registry_contains reg program_id \<longleftrightarrow> reg program_id \<noteq> None"

definition register_builtins :: "sha256 \<Rightarrow> bytes \<Rightarrow> bytes32 \<Rightarrow> ProgramRegistry \<Rightarrow> ProgramRegistry" where
  "register_builtins sha elf image_id registry =
     fold (\<lambda>pid reg. register reg pid elf image_id) (builtins sha) registry"

text \<open>The image id of the guest as bytes: eight little-endian words in order.\<close>

definition le_bytes_32 :: "u32 \<Rightarrow> bytes" where
  "le_bytes_32 w = map (\<lambda>i. ucast (drop_bit (8 * i) w)) [0..<4]"

definition guest_image_id :: "u32 list \<Rightarrow> bytes" where
  "guest_image_id words = concat (map le_bytes_32 words)"

section \<open>Execution\<close>

datatype vm_reason =
    ProgramFailed ProgramError
  | ProverFailed
  | ReceiptRejected
  | JournalUndecodable
  | DifferentAccountTable
  | OwnerGate ProgramError

datatype NodeError =
    ProgramNotFound Pubkey
  | AccountNotFound bytes
  | InvalidTransaction bytes
  | ProofInvalid
  | VmError vm_reason
  | BitcoinError bytes
  | StorageError bytes
  | SerError
  | RpcError bytes

type_synonym 'a nexec = "(ctx, NodeError, 'a) exec"

record vm_env =
  vm_builtins :: builtin_env
  vm_accounts :: "accounts codec"
  zk_prove :: "bytes \<Rightarrow> Pubkey \<Rightarrow> ExecutionInput \<Rightarrow> bytes option"
  zk_accepts :: "bytes \<Rightarrow> bytes32 \<Rightarrow> bool"
  zk_journal :: "bytes \<Rightarrow> bytes"
  zk_output :: "ExecutionOutput codec"

abbreviation vm_sha :: "vm_env \<Rightarrow> sha256" where
  "vm_sha e \<equiv> be_sha (vm_builtins e)"

definition execute_native ::
  "vm_env \<Rightarrow> Pubkey \<Rightarrow> ExecutionInput \<Rightarrow> UtxoMeta list \<Rightarrow> StateTransition nexec" where
  "execute_native e program_id input anchor_utxos =
     xbind (xmap_err (\<lambda>err. VmError (ProgramFailed err))
       (dispatch (vm_builtins e) program_id (ei_timestamp input) (ei_accounts input)
          (ei_instruction_data input))) (\<lambda>accounts.
     xbind (xlift (ok_or (encode (vm_accounts e) accounts) SerError)) (\<lambda>state_bytes.
     xret \<lparr> st_receipt =
              \<lparr> er_program_id = program_id, er_image_id = 0,
                er_journal_hash = vm_sha e state_bytes, er_proof_bytes = [], er_verified = False \<rparr>,
            st_updated_accounts = accounts, st_new_utxos = anchor_utxos,
            st_bitcoin_txid = None \<rparr>))"

text \<open>The gate on a deployed program's output; built-ins were gated inside the guest.\<close>

definition gate_output :: "vm_env \<Rightarrow> Pubkey \<Rightarrow> accounts \<Rightarrow> accounts \<Rightarrow> accounts nexec" where
  "gate_output e program_id before updated =
     (if \<not> is_builtin (vm_sha e) program_id then
        (\<lambda>c. xmap_err (\<lambda>err. VmError (OwnerGate err))
               (validate_writes program_id before updated) (begin_execution c))
      else xret updated)"

definition execute ::
  "vm_env \<Rightarrow> ProgramRegistry \<Rightarrow> Pubkey \<Rightarrow> ExecutionInput \<Rightarrow> UtxoMeta list \<Rightarrow> StateTransition nexec" where
  "execute e registry program_id input anchor_utxos =
     xbind (xlift (ok_or (registry_get registry program_id) (ProgramNotFound program_id))) (\<lambda>prog.
     xbind (xlift (ok_or (zk_prove e (rp_elf prog) program_id input) (VmError ProverFailed))) (\<lambda>receipt.
     if \<not> zk_accepts e receipt (rp_image_id prog) then xlift (Err (VmError ReceiptRejected))
     else xbind (xlift (ok_or (decode (zk_output e) (zk_journal e receipt)) (VmError JournalUndecodable))) (\<lambda>output.
     let updated = eo_updated_accounts output in
     if length updated \<noteq> length (ei_accounts input)
        \<or> list_ex (\<lambda>(out, inp). a_key out \<noteq> a_key inp) (zip updated (ei_accounts input))
     then xlift (Err (VmError DifferentAccountTable))
     else xbind (gate_output e program_id (ei_accounts input) updated) (\<lambda>updated.
     xret \<lparr> st_receipt =
              \<lparr> er_program_id = program_id, er_image_id = rp_image_id prog,
                er_journal_hash = vm_sha e (zk_journal e receipt),
                er_proof_bytes = zk_journal e receipt, er_verified = True \<rparr>,
            st_updated_accounts = updated, st_new_utxos = anchor_utxos,
            st_bitcoin_txid = None \<rparr>))))"

text \<open>The default build: no \<open>zkvm\<close> feature.\<close>

definition execute_program ::
  "vm_env \<Rightarrow> ProgramRegistry \<Rightarrow> Pubkey \<Rightarrow> ExecutionInput \<Rightarrow> UtxoMeta list \<Rightarrow> StateTransition nexec" where
  "execute_program e registry program_id input anchor_utxos =
     (if is_builtin (vm_sha e) program_id
      then execute_native e program_id input anchor_utxos
      else execute e registry program_id input anchor_utxos)"

section \<open>The universal guest\<close>

text \<open>The guest's own copy of the dispatch table.\<close>

definition guest_dispatch :: "builtin_env \<Rightarrow> Pubkey \<Rightarrow> u64 \<Rightarrow> process" where
  "guest_dispatch e pid timestamp accounts data =
     (let sha = be_sha e in
      if pid = system_program sha then pure_program (system_process (be_system e)) accounts data
      else if pid = token_program sha then pure_program (token_process (be_token e)) accounts data
      else if pid = ata_program sha then ata_process (be_ata e) accounts data
      else if pid = swap_program sha then swap_process (be_swap e) accounts data
      else if pid = nft_metadata_program sha then pure_program (nft_process (be_nft e)) accounts data
      else if pid = lending_program sha then
        pure_program (lending_process (be_lending e) timestamp) accounts data
      else if pid = runes_program sha then
        pure_program (runes_process (be_runes e) timestamp) accounts data
      else if pid = money_market_program sha then
        money_market_process (be_market e) timestamp accounts data
      else if pid = vault_program sha then vault_process (be_vault e) timestamp accounts data
      else if pid = oracle_program sha then
        pure_program (oracle_process (be_oracle e) timestamp) accounts data
      else xlift (Err (Custom 0x4040)))"

text \<open>\<open>expect\<close> aborts the proof on an error.\<close>

fun expect :: "('e, 'a) result \<Rightarrow> ('f, 'a) result" where
  "expect (Ok a) = Ok a"
| "expect (Err e) = Panic"
| "expect Panic = Panic"

definition xexpect :: "('s, 'e, 'a) exec \<Rightarrow> ('s, 'f, 'a) exec" where
  "xexpect m = (\<lambda>s. case m s of (r, t) \<Rightarrow> (expect r, t))"

definition guest_main :: "builtin_env \<Rightarrow> Pubkey \<Rightarrow> ExecutionInput \<Rightarrow> ExecutionOutput pexec" where
  "guest_main e program_id input c =
     xbind (xexpect (guest_dispatch e program_id (ei_timestamp input) (ei_accounts input)
              (ei_instruction_data input))) (\<lambda>accounts.
     xbind (xexpect (validate_writes program_id (ei_accounts input) accounts)) (\<lambda>accounts.
     xret \<lparr> eo_updated_accounts = accounts, eo_unsigned_bitcoin_tx = None, eo_logs = [] \<rparr>))
     (begin_execution c)"

section \<open>The contract of dispatch\<close>

lemma run_builtin_keeps: "keeps (run_builtin e pid ts accounts data) (same_headers accounts)"
  unfolding run_builtin_def Let_def
  by (intro keeps_if sys.process_keeps tok.process_keeps ata.process_keeps swp.process_keeps
      nft.process_keeps len.process_keeps rns.process_keeps mmk.process_keeps vlt.process_keeps
      orc.process_keeps keeps_xlift_fail)

interpretation vmp: himsha_program "run_builtin e pid ts" for e pid ts
  by unfold_locales (rule run_builtin_keeps)

lemma begin_execution_simps [simp]:
  "approved (begin_execution c) = Map.empty" "spent (begin_execution c) = 0"
  "depth (begin_execution c) = depth c"
  by (simp_all add: begin_execution_def reset_def)

text \<open>A fresh execution sees nothing of the thread's past but the nesting depth.\<close>

lemma begin_execution_cong: "depth c = depth d \<Longrightarrow> begin_execution c = begin_execution d"
  by (cases c; cases d) (simp add: begin_execution_def reset_def)

lemma dispatch_Ok_iff:
  "dispatch e pid ts accounts data c = (Ok accounts', c') \<longleftrightarrow>
     (\<exists>mid d. run_builtin e pid ts accounts data (begin_execution c) = (Ok mid, d)
        \<and> validate_writes pid accounts mid d = (Ok accounts', c'))"
  by (auto simp: dispatch_def monad_iffs)

lemma dispatch_headers:
  assumes "dispatch e pid ts accounts data c = (Ok accounts', c')"
  shows "same_headers accounts accounts'"
proof -
  obtain mid d where run: "run_builtin e pid ts accounts data (begin_execution c) = (Ok mid, d)"
    and gate: "validate_writes pid accounts mid d = (Ok accounts', c')"
    using assms unfolding dispatch_Ok_iff by (elim exE conjE)
  show ?thesis
    using keepsD(2) [OF run_builtin_keeps run refl] keepsD(2) [OF keeps_validate_writes gate refl]
    by (rule same_headers_trans)
qed

lemma dispatch_keeps_meter: "meter (begin_execution c) (snd (dispatch e pid ts accounts data c))"
proof -
  have "keeps (xbind (run_builtin e pid ts accounts data) (validate_writes pid accounts)) (\<lambda>_. True)"
    by (rule keeps_xbind [OF run_builtin_keeps], rule keeps_weaken [OF keeps_validate_writes]) simp
  then show ?thesis
    by (simp add: keeps_def dispatch_def)
qed

lemma dispatch_cong: "depth c = depth d \<Longrightarrow> dispatch e pid ts accounts data c = dispatch e pid ts accounts data d"
  by (simp add: dispatch_def begin_execution_cong [of c d])

lemma dispatch_depth:
  "depth c \<noteq> - 1 \<Longrightarrow> depth (snd (dispatch e pid ts accounts data c)) = depth c"
  using dispatch_keeps_meter [of c] by (simp add: meter_def)

section \<open>The guest proves what the node runs\<close>


section \<open>Receipts\<close>

text \<open>
  The node's check of the receipt before it persists a transition never fails on what its own
  executor returned.
\<close>

lemma execute_program_verifies:
  assumes "execute_program e reg pid input utxos c = (Ok t, c')"
  shows "transition_verify (vm_sha e) (vm_accounts e) t"
  using assms
  by (auto simp: execute_program_def execute_native_def execute_def monad_iffs Let_def
      transition_verify_def journal_hash_for_def split: if_splits)

lemma gate_output_cong: "depth c = depth d \<Longrightarrow> fst (gate_output e pid as bs c) = fst (gate_output e pid as bs d)"
  by (simp add: gate_output_def begin_execution_cong [of c d])

lemma gate_output_depth: "depth c \<noteq> - 1 \<Longrightarrow> depth (snd (gate_output e pid as bs c)) = depth c"
proof -
  assume "depth c \<noteq> - 1"
  moreover have "meter (begin_execution c) (snd (validate_writes pid as bs (begin_execution c)))"
    using keeps_validate_writes [of pid as bs] by (simp add: keeps_def)
  ultimately show ?thesis
    by (cases "validate_writes pid as bs (begin_execution c)")
      (auto simp: gate_output_def xmap_err_def meter_def)
qed

section \<open>Confinement\<close>

text \<open>
  What a program may do to an account that it does not own and that somebody already uses:
  credit lamports and nothing else.
\<close>

definition only_credited :: "AccountInfo \<Rightarrow> AccountInfo \<Rightarrow> bool" where
  "only_credited pre post \<longleftrightarrow> a_lamports pre \<le> a_lamports post \<and> a_data post = a_data pre
     \<and> a_owner post = a_owner pre \<and> a_executable post = a_executable pre \<and> a_utxo post = a_utxo pre"

text \<open>Two slots of one account show the same state, as the node materializes them.\<close>

definition consistent :: "accounts \<Rightarrow> bool" where
  "consistent as \<longleftrightarrow> (\<forall>i < length as. \<forall>j < length as. a_key (as ! i) = a_key (as ! j) \<longrightarrow> same_state (as ! i) (as ! j))"

lemma only_credited_legal:
  assumes "legal_write p pre post" "a_owner pre \<noteq> p" "\<not> is_blank pre"
  shows "only_credited pre post"
  using legal_write_protects [OF assms] by (simp add: only_credited_def)

lemma only_credited_same_state:
  "same_state pre pre' \<Longrightarrow> same_state post post' \<Longrightarrow> only_credited pre post \<Longrightarrow> only_credited pre' post'"
  by (auto simp: only_credited_def same_state_def)

lemma validate_writes_confines:
  assumes "validate_writes p before after c = (Ok after', c')" "approved c = Map.empty"
    and "consistent before" "map a_key after' = map a_key before"
    and "i < length before" "a_owner (before ! i) \<noteq> p" "\<not> is_blank (before ! i)"
  shows "only_credited (before ! i) (after' ! i)"
  using validate_writes_vouched [OF assms(1,5)]
proof
  assume "legal_write p (before ! i) (after' ! i)"
  then show ?thesis
    using assms(6,7) by (rule only_credited_legal)
next
  assume "vouched p before after' c (after' ! i)"
  then obtain j where j: "j < length before" "a_key (after' ! j) = a_key (after' ! i)"
    "same_state (after' ! j) (after' ! i)" "legal_write p (before ! j) (after' ! j)"
    using assms(2) by (auto simp: vouched_def)
  have "a_key (before ! j) = a_key (before ! i)"
    using assms(4,5) j(1,2) by (metis length_map nth_map)
  then have eq: "same_state (before ! j) (before ! i)"
    using assms(3,5) j(1) by (simp add: consistent_def)
  then have "a_owner (before ! j) \<noteq> p" "\<not> is_blank (before ! j)"
    using assms(6,7) by (auto simp: same_state_def is_blank_def)
  then show ?thesis
    using only_credited_legal [OF j(4)] only_credited_same_state [OF eq j(3)] by blast
qed

text \<open>Built-ins that make no cross-program call.\<close>

definition cpi_free :: "sha256 \<Rightarrow> Pubkey \<Rightarrow> bool" where
  "cpi_free sha pid \<longleftrightarrow> pid \<in> {system_program sha, token_program sha, nft_metadata_program sha,
     lending_program sha, runes_program sha, oracle_program sha}"

lemma cpi_free_context:
  assumes "cpi_free (be_sha e) pid" "distinct (builtins (be_sha e))"
    and "run_builtin e pid ts accounts data c = (r, d)"
  shows "d = c"
  using assms by (auto simp: cpi_free_def builtins_def run_builtin_def pure_program_def Let_def split: if_splits)

lemma gate_keys: "validate_writes p before after c = (Ok after', c') \<Longrightarrow> map a_key after' = map a_key after"
  using keepsD(2) [OF keeps_validate_writes] same_headers_keys by metis

text \<open>
  C12. Programs are confined: a deployed program, whatever its binary does, and a built-in that
  makes no cross-program call leave every account that they do not own and that is in use as
  it was, up to a credit of lamports.
\<close>

theorem vm_confines_programs:
  assumes "execute_program e reg pid input utxos c = (Ok t, c')"
    and "\<not> is_builtin (vm_sha e) pid \<or> cpi_free (vm_sha e) pid" "distinct (builtins (vm_sha e))"
    and "consistent (ei_accounts input)"
    and "i < length (ei_accounts input)" "a_owner (ei_accounts input ! i) \<noteq> pid" "\<not> is_blank (ei_accounts input ! i)"
  shows "only_credited (ei_accounts input ! i) (st_updated_accounts t ! i)"
proof (cases "is_builtin (vm_sha e) pid")
  case True
  then obtain d where d: "dispatch (vm_builtins e) pid (ei_timestamp input) (ei_accounts input)
      (ei_instruction_data input) c = (Ok (st_updated_accounts t), d)"
    using assms(1) by (auto simp: execute_program_def execute_native_def monad_iffs)
  then obtain mid where run: "validate_writes pid (ei_accounts input) mid (begin_execution c) = (Ok (st_updated_accounts t), d)"
    using assms(2,3) True cpi_free_context by (metis dispatch_Ok_iff)
  show ?thesis
    using validate_writes_confines [OF run _ assms(4) _ assms(5-7)] same_headers_keys [OF dispatch_headers [OF d]]
    by simp
next
  case False
  then obtain out d where run: "validate_writes pid (ei_accounts input) out (begin_execution d) = (Ok (st_updated_accounts t), c')"
    and keys: "length out = length (ei_accounts input)"
      "\<not> list_ex (\<lambda>(out, inp). a_key out \<noteq> a_key inp) (zip out (ei_accounts input))"
    using assms(1) by (auto simp: execute_program_def execute_def monad_iffs gate_output_def Let_def split: if_splits)
  have "map a_key out = map a_key (ei_accounts input)"
    using keys by (auto simp: list_ex_length intro!: nth_equalityI)
  then show ?thesis
    using validate_writes_confines [OF run _ assms(4) _ assms(5-7)] gate_keys [OF run] by simp
qed

definition seed_sha :: sha256 where
  "seed_sha b = fold (\<lambda>x a. 256 * a + ucast x) b 0"

definition sample_builtins :: builtin_env where
  "sample_builtins =
     \<lparr> be_sha = seed_sha, be_system = System_Program.sample_codec, be_token = sample_token_env,
       be_ata = sample_ata_env, be_swap = sample_swap_env, be_nft = sample_nft_env,
       be_lending = sample_lending_env (sample_market Map.empty Map.empty []) (sample_market Map.empty Map.empty []),
       be_runes = sample_runes_env, be_market = sample_market_env, be_vault = sample_vault_env,
       be_oracle = sample_oracle_env \<rparr>"

definition sample_holder :: "u64 \<Rightarrow> AccountInfo" where
  "sample_holder n = (new_account 4 5 n 0)\<lparr>a_data := [7]\<rparr>"

text \<open>A machine whose prover accepts one binary, which credits the account it is given.\<close>

definition sample_vm :: vm_env where
  "sample_vm =
     \<lparr> vm_builtins = sample_builtins, vm_accounts = table_codec [],
       zk_prove = (\<lambda>elf pid input. Some [0]), zk_accepts = (\<lambda>r i. True), zk_journal = (\<lambda>r. r),
       zk_output = table_codec
         [\<lparr> eo_updated_accounts = [sample_holder 12], eo_unsigned_bitcoin_tx = None, eo_logs = [] \<rparr>] \<rparr>"

definition sample_input :: ExecutionInput where
  "sample_input = \<lparr> ei_accounts = [sample_holder 10], ei_instruction_data = [], ei_timestamp = 0 \<rparr>"

definition fresh_ctx :: ctx where
  "fresh_ctx = \<lparr> approved = Map.empty, spent = 0, depth = 0 \<rparr>"

lemma distinct_seed_builtins: "distinct (builtins seed_sha)" "3 \<notin> set (builtins seed_sha)"
  by (simp_all add: builtins_def program_id_defs from_seed_def seed_sha_def ascii_def)

lemmas sample_vm_run = execute_program_def execute_def is_builtin_def sample_vm_def sample_builtins_def
  sample_input_def sample_holder_def new_account_def register_def registry_get_def gate_output_def
  table_codec_def Let_def validate_writes_def validate_write_def begin_execution_def reset_def
  credit_only_def same_state_def xbind_def xlift_def xret_def xmap_err_def

theorem vm_confines_programs_witness:
  "only_credited (sample_holder 10) (sample_holder 12)
    \<and> (\<exists>t c'. execute_program sample_vm (register Map.empty 3 [1] 2) 3 sample_input [] fresh_ctx = (Ok t, c')
      \<and> st_updated_accounts t = [sample_holder 12])"
proof -
  obtain t c' where run: "execute_program sample_vm (register Map.empty 3 [1] 2) 3 sample_input [] fresh_ctx = (Ok t, c')"
    and t: "st_updated_accounts t = [sample_holder 12]"
    by (simp add: sample_vm_run distinct_seed_builtins)
  show ?thesis
    using vm_confines_programs [OF run, of 0] distinct_seed_builtins t run
    by (simp add: is_builtin_def sample_vm_def sample_builtins_def consistent_def sample_input_def
        sample_holder_def new_account_def is_blank_def)
qed

section \<open>Credits are not accounted for\<close>

text \<open>
  The gate compares one account at a time: it lets every pure credit through, whether or not
  another account was debited for it. What a deployed program commits goes through unchanged as
  long as each account keeps its key and only gains lamports, so the sum of the lamports of the
  window may grow.
\<close>

lemma validate_each_credits:
  "list_all2 credit_only pres posts \<Longrightarrow> fst (validate_each p pres posts c) = Ok posts"
proof (induction pres posts arbitrary: c rule: list_all2_induct)
  case (Cons pre pres post posts)
  obtain d where "validate_write p pre post c = (Ok post, d)"
    using validate_write_accepts [of p pre post c] Cons.hyps by (auto simp: legal_write_def)
  then show ?case
    using Cons.IH [of d] by (cases "validate_each p pres posts d") (simp add: xbind_def)
qed simp

lemma deployed_program_may_mint:
  assumes "\<not> is_builtin (vm_sha e) pid" "registry_get reg pid = Some prog"
    and "zk_prove e (rp_elf prog) pid input = Some receipt" "zk_accepts e receipt (rp_image_id prog)"
    and "decode (zk_output e) (zk_journal e receipt) = Some out"
    and "map a_key (eo_updated_accounts out) = map a_key (ei_accounts input)"
    and "list_all2 credit_only (ei_accounts input) (eo_updated_accounts out)"
  shows "\<exists>t. fst (execute_program e reg pid input utxos c) = Ok t \<and> st_updated_accounts t = eo_updated_accounts out"
proof -
  let ?as = "ei_accounts input" and ?bs = "eo_updated_accounts out"
  have "a_key (?bs ! i) = a_key (?as ! i)" if "i < length ?as" "i < length ?bs" for i
    using arg_cong [OF assms(6), of "\<lambda>ks. ks ! i"] that by simp
  then have keys: "\<not> list_ex (\<lambda>(b, a). a_key b \<noteq> a_key a) (zip ?bs ?as)"
    by (auto simp: list_ex_length)
  have "fst (validate_writes pid ?as ?bs (begin_execution c)) = Ok ?bs"
    using validate_each_credits [OF assms(7)] list_all2_lengthD [OF assms(7)] by (simp add: validate_writes_def)
  then obtain d where "validate_writes pid ?as ?bs (begin_execution c) = (Ok ?bs, d)"
    by (metis prod.collapse)
  then show ?thesis
    using assms(1-5) keys list_all2_lengthD [OF assms(7)]
    by (simp add: execute_program_def execute_def gate_output_def xbind_def xlift_def xret_def xmap_err_def Let_def)
qed

end
