(* ===== verification/Tables.thy ===== *)
theory Tables
  imports Prelude "HOL-Library.Product_Lexorder"
begin

text \<open>
  The tables of the node's database. The store is a third-party embedded database; what the
  node uses of a table is its documented interface, an ordered map: \<open>get\<close>, \<open>insert\<close>,
  \<open>remove\<close> and iteration in ascending key order. The locale \<open>redb_table\<close> states that
  interface, and \<open>tbl\<close> is the type of strictly sorted association lists, which provides it.
  A key of fixed length compares as its big-endian number, so byte-string keys are words.
\<close>

section \<open>The interface\<close>

locale redb_table =
  fixes empty :: 't
    and get :: "'t \<Rightarrow> 'k::linorder \<Rightarrow> 'v option"
    and insert :: "'t \<Rightarrow> 'k \<Rightarrow> 'v \<Rightarrow> 't"
    and remove :: "'t \<Rightarrow> 'k \<Rightarrow> 't"
    and iter :: "'t \<Rightarrow> ('k \<times> 'v) list"
  assumes get_empty: "get empty k = None"
    and get_insert: "get (insert t k v) k' = (if k' = k then Some v else get t k')"
    and get_remove: "get (remove t k) k' = (if k' = k then None else get t k')"
    and iter_sorted: "sorted_wrt (<) (map fst (iter t))"
    and iter_get: "(k, v) \<in> set (iter t) \<longleftrightarrow> get t k = Some v"
begin

lemma iter_distinct: "distinct (map fst (iter t))" "distinct (iter t)"
proof -
  show "distinct (map fst (iter t))"
    using iter_sorted [of t] by (simp add: strict_sorted_iff)
  then show "distinct (iter t)"
    by (simp add: distinct_map)
qed

text \<open>Iteration is a function of the mapping alone: the history of a table leaves no trace.\<close>

lemma iter_cong:
  assumes "\<And>k. get t k = get u k"
  shows "iter t = iter u"
proof -
  have "set (iter t) = set (iter u)"
    using assms iter_get by (metis surj_pair set_eqI)
  then show ?thesis
    using map_sorted_distinct_set_unique [of fst "iter t" "iter u"] iter_sorted [of t] iter_sorted [of u]
      iter_distinct by (auto simp: strict_sorted_iff distinct_map)
qed

lemma set_iter: "set (iter t) = {(k, v). get t k = Some v}"
  using iter_get by auto

lemma iter_empty_iff: "iter t = [] \<longleftrightarrow> (\<forall>k. get t k = None)"
proof
  assume none: "\<forall>k. get t k = None"
  show "iter t = []"
  proof (rule ccontr)
    assume "iter t \<noteq> []"
    then obtain k v where "(k, v) \<in> set (iter t)"
      by (metis list.set_sel(1) surj_pair)
    then show False
      using none by (simp add: iter_get)
  qed
qed (metis empty_iff empty_set iter_get not_None_eq)

lemma length_iter_insert:
  "length (iter (insert t k v)) = (if get t k = None then Suc (length (iter t)) else length (iter t))"
proof -
  have len: "length (iter u) = card {k. get u k \<noteq> None}" for u
  proof -
    have "set (map fst (iter u)) = {k. get u k \<noteq> None}"
      by (force simp: set_iter)
    then show ?thesis
      using iter_distinct(1) [of u] distinct_card by fastforce
  qed
  have fin: "finite {k. get t k \<noteq> None}"
  proof -
    have "{k. get t k \<noteq> None} = fst ` set (iter t)"
      by (force simp: set_iter)
    then show ?thesis by simp
  qed
  have "{k'. get (insert t k v) k' \<noteq> None} = Set.insert k {k. get t k \<noteq> None}"
    by (auto simp: get_insert)
  then show ?thesis
    using fin by (auto simp: len insert_absorb)
qed

end

section \<open>Sorted association lists\<close>

fun ins_sorted :: "'k::linorder \<Rightarrow> 'v \<Rightarrow> ('k \<times> 'v) list \<Rightarrow> ('k \<times> 'v) list" where
  "ins_sorted k v [] = [(k, v)]"
| "ins_sorted k v ((k', v') # xs) =
     (if k < k' then (k, v) # (k', v') # xs
      else if k = k' then (k, v) # xs
      else (k', v') # ins_sorted k v xs)"

abbreviation ascending :: "('k::linorder \<times> 'v) list \<Rightarrow> bool" where
  "ascending xs \<equiv> sorted_wrt (<) (map fst xs)"

lemma set_ins_sorted: "fst ` set (ins_sorted k v xs) = insert k (fst ` set xs)"
  by (induction k v xs rule: ins_sorted.induct) (simp_all add: insert_commute)

lemma ins_sorted_ascending: "ascending xs \<Longrightarrow> ascending (ins_sorted k v xs)"
proof (induction xs)
  case (Cons x xs)
  then show ?case
    using set_ins_sorted [of k v xs] by (cases x) (auto simp: not_less order.order_iff_strict)
qed simp

lemma map_of_ins_sorted: "map_of (ins_sorted k v xs) k' = (if k' = k then Some v else map_of xs k')"
  by (induction xs) auto

lemma filter_ascending: "ascending xs \<Longrightarrow> ascending (filter P xs)"
  by (induction xs) auto

lemma map_of_filter_key:
  "map_of (filter (\<lambda>(k', v). k' \<noteq> k) xs) k' = (if k' = k then None else map_of xs k')"
  by (induction xs) auto

typedef (overloaded) ('k::linorder, 'v) tbl = "{xs :: ('k \<times> 'v) list. ascending xs}"
  morphisms tbl_iter Tbl
  by (rule exI [of _ "[]"]) simp

setup_lifting type_definition_tbl

lift_definition tbl_empty :: "('k::linorder, 'v) tbl" is "[]" by simp

lift_definition tbl_get :: "('k::linorder, 'v) tbl \<Rightarrow> 'k \<Rightarrow> 'v option" is "\<lambda>xs k. map_of xs k" .

lift_definition tbl_insert :: "('k::linorder, 'v) tbl \<Rightarrow> 'k \<Rightarrow> 'v \<Rightarrow> ('k, 'v) tbl"
  is "\<lambda>xs k v. ins_sorted k v xs" by (rule ins_sorted_ascending)

lift_definition tbl_remove :: "('k::linorder, 'v) tbl \<Rightarrow> 'k \<Rightarrow> ('k, 'v) tbl"
  is "\<lambda>xs k. filter (\<lambda>(k', v). k' \<noteq> k) xs" by (rule filter_ascending)

interpretation tb: redb_table tbl_empty tbl_get tbl_insert tbl_remove tbl_iter
proof
  show "tbl_get tbl_empty k = None" for k
    by transfer simp
  show "tbl_get (tbl_insert t k v) k' = (if k' = k then Some v else tbl_get t k')" for t k v k'
    by transfer (rule map_of_ins_sorted)
  show "tbl_get (tbl_remove t k) k' = (if k' = k then None else tbl_get t k')" for t k k'
    by transfer (rule map_of_filter_key)
  show "ascending (tbl_iter t)" for t
    using tbl_iter by auto
  show "(k, v) \<in> set (tbl_iter t) \<longleftrightarrow> tbl_get t k = Some v" for k v t
    by transfer (simp add: strict_sorted_iff)
qed

lemma tbl_iter_simps [simp]:
  "tbl_iter tbl_empty = []" "tbl_iter (tbl_insert t k v) = ins_sorted k v (tbl_iter t)"
  "tbl_iter (tbl_remove t k) = filter (\<lambda>(k', v). k' \<noteq> k) (tbl_iter t)"
  by (transfer, simp)+

lemmas tbl_get_simps [simp] = tb.get_empty tb.get_insert tb.get_remove

lemma tbl_eqI: "(\<And>k. tbl_get t k = tbl_get u k) \<Longrightarrow> t = u"
  by (metis tb.iter_cong tbl_iter_inject)

lemma tbl_insert_commute:
  "k \<noteq> k' \<Longrightarrow> tbl_insert (tbl_insert t k v) k' v' = tbl_insert (tbl_insert t k' v') k v"
  by (rule tbl_eqI) simp

lemma tbl_insert_twice [simp]: "tbl_insert (tbl_insert t k v) k v' = tbl_insert t k v'"
  by (rule tbl_eqI) simp

lemma tbl_insert_same: "tbl_get t k = Some v \<Longrightarrow> tbl_insert t k v = t"
  by (rule tbl_eqI) simp

end
