(* ===== verification/Node_State.thy ===== *)
theory Node_State
  imports Tables Merkle Transaction
begin

text \<open>
  The node's database, \<open>src/himsha-node/src/state.rs\<close>: accounts with their owner index and
  count, the state root and inclusion proofs, anchors, transaction statuses, programs, blocks,
  slots and the transaction indexes. A write transaction commits all its inserts or none, so
  an operation that fails returns an error and the caller keeps the state it had. Failures of
  the storage medium are not modelled; failures to encode or decode a value are.
\<close>

section \<open>State\<close>

datatype TxStatus = Pending | Succeeded u64 | Failed u64 bytes

record AnchorRecord =
  ar_slot :: u64
  ar_state_root :: bytes32
  ar_btc_txid :: bytes

text \<open>The keys of the table \<open>META\<close>.\<close>

datatype meta_key = Slot | AccountCount | TxCount | AnchorTipSlot

record NodeState =
  ns_accounts :: "(Pubkey, bytes) tbl"
  ns_programs :: "Pubkey \<Rightarrow> bytes option"
  ns_image_ids :: "Pubkey \<Rightarrow> bytes32 option"
  ns_utxo_anchors :: "Pubkey \<Rightarrow> bytes option"
  ns_blocks :: "u64 \<Rightarrow> bytes option"
  ns_meta :: "meta_key \<Rightarrow> u64 option"
  ns_owner_idx :: "(Pubkey \<times> Pubkey, unit) tbl"
  ns_tx_idx :: "bytes32 \<Rightarrow> u64 option"
  ns_btc_tx_idx :: "bytes32 \<Rightarrow> bytes32 option"
  ns_anchors :: "u64 \<Rightarrow> bytes option"
  ns_tx_status :: "bytes32 \<Rightarrow> bytes option"

datatype state_error = Unencodable | Undecodable

type_synonym 'a sresult = "(state_error, 'a) result"

text \<open>
  The codecs, the hash, and the iteration order of the standard library's \<open>HashMap\<close> on a
  set of keys.
\<close>

record state_env =
  sv_sha :: sha256
  sv_stored :: "StoredAccount codec"
  sv_anchor :: "AnchorRecord codec"
  sv_status :: "TxStatus codec"
  sv_utxo :: "UtxoMeta codec"
  sv_block :: "Block codec"
  sv_order :: "Pubkey set \<Rightarrow> Pubkey list"

definition empty_state :: NodeState where
  "empty_state =
     \<lparr> ns_accounts = tbl_empty, ns_programs = Map.empty, ns_image_ids = Map.empty,
       ns_utxo_anchors = Map.empty, ns_blocks = Map.empty, ns_meta = Map.empty,
       ns_owner_idx = tbl_empty, ns_tx_idx = Map.empty, ns_btc_tx_idx = Map.empty,
       ns_anchors = Map.empty, ns_tx_status = Map.empty \<rparr>"

definition meta_get :: "NodeState \<Rightarrow> meta_key \<Rightarrow> u64" where
  "meta_get s m = (case ns_meta s m of Some n \<Rightarrow> n | None \<Rightarrow> 0)"

definition meta_put :: "meta_key \<Rightarrow> u64 \<Rightarrow> NodeState \<Rightarrow> NodeState" where
  "meta_put m n s = s\<lparr>ns_meta := (ns_meta s)(m \<mapsto> n)\<rparr>"

definition from_slice :: "'a codec \<Rightarrow> bytes \<Rightarrow> 'a sresult" where
  "from_slice c b = ok_or (decode c b) Undecodable"

definition to_vec :: "'a codec \<Rightarrow> 'a \<Rightarrow> bytes sresult" where
  "to_vec c v = ok_or (encode c v) Unencodable"

section \<open>The owner index of an old database\<close>

fun owner_pairs :: "StoredAccount codec \<Rightarrow> (Pubkey \<times> bytes) list \<Rightarrow> (Pubkey \<times> Pubkey) list sresult" where
  "owner_pairs c [] = Ok []"
| "owner_pairs c ((k, v) # es) =
     rbind (from_slice c v) (\<lambda>stored.
     rbind (owner_pairs c es) (\<lambda>pairs. Ok ((s_owner stored, k) # pairs)))"

definition backfill_owner_index :: "state_env \<Rightarrow> NodeState \<Rightarrow> NodeState sresult" where
  "backfill_owner_index e s =
     (if 0 < length (tbl_iter (ns_owner_idx s)) \<or> length (tbl_iter (ns_accounts s)) = 0 then Ok s
      else rbind (owner_pairs (sv_stored e) (tbl_iter (ns_accounts s))) (\<lambda>pairs.
        Ok (meta_put AccountCount (word_of_nat (length pairs))
              (s\<lparr>ns_owner_idx := fold (\<lambda>p idx. tbl_insert idx p ()) pairs (ns_owner_idx s)\<rparr>))))"

text \<open>The database on disk when the node starts; a new file holds \<open>empty_state\<close>.\<close>

definition open_state :: "state_env \<Rightarrow> NodeState \<Rightarrow> NodeState sresult" where
  "open_state e s = backfill_owner_index e s"

section \<open>Accounts\<close>

definition prior_owner :: "state_env \<Rightarrow> NodeState \<Rightarrow> Pubkey \<Rightarrow> bytes32 option" where
  "prior_owner e s key =
     Option.bind (tbl_get (ns_accounts s) key) (\<lambda>b. map_option s_owner (decode (sv_stored e) b))"

definition index_owner :: "bytes32 option \<Rightarrow> bytes32 \<Rightarrow> Pubkey \<Rightarrow> NodeState \<Rightarrow> NodeState" where
  "index_owner prior new_owner key s =
     (let idx = ns_owner_idx s;
          idx = (case prior of
              Some po \<Rightarrow> if po \<noteq> new_owner then tbl_remove idx (po, key) else idx
            | None \<Rightarrow> idx)
      in s\<lparr>ns_owner_idx := tbl_insert idx (new_owner, key) ()\<rparr>)"

text \<open>The upkeep both ways of saving share: the account, then its entry in the owner index.\<close>

definition store :: "Pubkey \<Rightarrow> bytes \<Rightarrow> bytes32 option \<Rightarrow> bytes32 \<Rightarrow> NodeState \<Rightarrow> NodeState" where
  "store key bytes prior new_owner s =
     index_owner prior new_owner key (s\<lparr>ns_accounts := tbl_insert (ns_accounts s) key bytes\<rparr>)"

definition save_account :: "state_env \<Rightarrow> Pubkey \<Rightarrow> StoredAccount \<Rightarrow> NodeState \<Rightarrow> NodeState sresult" where
  "save_account e key account s =
     rbind (to_vec (sv_stored e) account) (\<lambda>bytes.
     let prior = prior_owner e s key;
         s = store key bytes prior (s_owner account) s
     in Ok (if prior = None then meta_put AccountCount (meta_get s AccountCount + 1) s else s))"

definition load_account :: "state_env \<Rightarrow> Pubkey \<Rightarrow> NodeState \<Rightarrow> StoredAccount option sresult" where
  "load_account e key s =
     (case tbl_get (ns_accounts s) key of
        Some b \<Rightarrow> rbind (from_slice (sv_stored e) b) (\<lambda>stored. Ok (Some stored))
      | None \<Rightarrow> Ok None)"

definition account_exists :: "state_env \<Rightarrow> Pubkey \<Rightarrow> NodeState \<Rightarrow> bool" where
  "account_exists e key s \<longleftrightarrow> (case load_account e key s of Ok (Some a) \<Rightarrow> True | _ \<Rightarrow> False)"

fun load_each :: "state_env \<Rightarrow> NodeState \<Rightarrow> Pubkey list \<Rightarrow> accounts sresult" where
  "load_each e s [] = Ok []"
| "load_each e s (key # keys) =
     rbind (load_account e key s) (\<lambda>stored.
     rbind (load_each e s keys) (\<lambda>out.
     Ok (case stored of Some a \<Rightarrow> into_account a key # out | None \<Rightarrow> out)))"

definition accounts_by_owner :: "state_env \<Rightarrow> Pubkey \<Rightarrow> NodeState \<Rightarrow> accounts sresult" where
  "accounts_by_owner e owner s =
     (let lower = (owner, 0); upper = (owner, - 1);
          range = filter (\<lambda>(k, _). lower \<le> k \<and> k \<le> upper) (tbl_iter (ns_owner_idx s));
          keys = map (\<lambda>(k, _). snd k) (filter (\<lambda>(k, _). fst k = owner) range)
      in load_each e s keys)"

fun scan_accounts :: "StoredAccount codec \<Rightarrow> nat \<Rightarrow> accounts \<Rightarrow> (Pubkey \<times> bytes) list \<Rightarrow> accounts sresult" where
  "scan_accounts c limit out [] = Ok out"
| "scan_accounts c limit out ((k, v) # es) =
     rbind (from_slice c v) (\<lambda>stored.
     let out = out @ [into_account stored k] in
     if limit \<noteq> 0 \<and> limit \<le> length out then Ok out else scan_accounts c limit out es)"

definition all_accounts :: "state_env \<Rightarrow> nat \<Rightarrow> NodeState \<Rightarrow> accounts sresult" where
  "all_accounts e limit s = scan_accounts (sv_stored e) limit [] (tbl_iter (ns_accounts s))"

text \<open>
  One write transaction for a whole batch. The loop carries the number of new accounts,
  which is added to the counter at the end.
\<close>

fun save_each :: "state_env \<Rightarrow> (Pubkey \<times> StoredAccount) list \<Rightarrow> u64 \<Rightarrow> NodeState \<Rightarrow> (u64 \<times> NodeState) sresult" where
  "save_each e [] added s = Ok (added, s)"
| "save_each e ((key, account) # batch) added s =
     rbind (to_vec (sv_stored e) account) (\<lambda>bytes.
     let prior = prior_owner e s key
     in save_each e batch (if prior = None then added + 1 else added)
          (store key bytes prior (s_owner account) s))"

definition save_accounts_atomic ::
  "state_env \<Rightarrow> (Pubkey \<Rightarrow> StoredAccount option) \<Rightarrow> NodeState \<Rightarrow> NodeState sresult" where
  "save_accounts_atomic e accounts s =
     (if dom accounts = {} then Ok s
      else rbind (save_each e (map (\<lambda>k. (k, the (accounts k))) (sv_order e (dom accounts))) 0 s)
        (\<lambda>(added, s). Ok (if 0 < added then meta_put AccountCount (meta_get s AccountCount + added) s else s)))"

section \<open>State root and proofs\<close>

definition state_leaves :: "state_env \<Rightarrow> NodeState \<Rightarrow> (bytes32 \<times> bytes32) list" where
  "state_leaves e s = map (\<lambda>(k, v). (k, leaf_hash (sv_sha e) k v)) (tbl_iter (ns_accounts s))"

definition compute_state_root :: "state_env \<Rightarrow> NodeState \<Rightarrow> bytes32" where
  "compute_state_root e s = merkle_root (sv_sha e) (map snd (state_leaves e s))"

definition state_proof :: "state_env \<Rightarrow> Pubkey \<Rightarrow> NodeState \<Rightarrow> (MerkleProof \<times> bytes32) option" where
  "state_proof e key s =
     (let leaves = state_leaves e s;
          hashes = map snd leaves;
          root = merkle_root (sv_sha e) hashes
      in case table_index (map fst leaves) key of
           Some idx \<Rightarrow> map_option (\<lambda>p. (p, root)) (build_proof (sv_sha e) hashes idx)
         | None \<Rightarrow> None)"

section \<open>Anchors\<close>

definition record_anchor :: "state_env \<Rightarrow> u64 \<Rightarrow> bytes32 \<Rightarrow> bytes \<Rightarrow> NodeState \<Rightarrow> NodeState sresult" where
  "record_anchor e slot state_root btc_txid s =
     rbind (to_vec (sv_anchor e) \<lparr> ar_slot = slot, ar_state_root = state_root, ar_btc_txid = btc_txid \<rparr>) (\<lambda>bytes.
     let s = s\<lparr>ns_anchors := (ns_anchors s)(slot \<mapsto> bytes)\<rparr>
     in Ok (if meta_get s AnchorTipSlot \<le> slot then meta_put AnchorTipSlot slot s else s))"

definition latest_anchor :: "state_env \<Rightarrow> NodeState \<Rightarrow> AnchorRecord option sresult" where
  "latest_anchor e s =
     (case ns_meta s AnchorTipSlot of
        None \<Rightarrow> Ok None
      | Some tip \<Rightarrow>
          (case ns_anchors s tip of
             Some b \<Rightarrow> rbind (from_slice (sv_anchor e) b) (\<lambda>r. Ok (Some r))
           | None \<Rightarrow> Ok None))"

section \<open>Transaction status\<close>

definition set_tx_status :: "state_env \<Rightarrow> bytes32 \<Rightarrow> TxStatus \<Rightarrow> NodeState \<Rightarrow> NodeState sresult" where
  "set_tx_status e txid status s =
     rbind (to_vec (sv_status e) status) (\<lambda>bytes.
     Ok (s\<lparr>ns_tx_status := (ns_tx_status s)(txid \<mapsto> bytes)\<rparr>))"

definition get_tx_status :: "state_env \<Rightarrow> bytes32 \<Rightarrow> NodeState \<Rightarrow> TxStatus option sresult" where
  "get_tx_status e txid s =
     (case ns_tx_status s txid of
        Some b \<Rightarrow> rbind (from_slice (sv_status e) b) (\<lambda>t. Ok (Some t))
      | None \<Rightarrow> Ok None)"

fun is_succeeded :: "TxStatus option \<Rightarrow> bool" where
  "is_succeeded (Some (Succeeded _)) = True"
| "is_succeeded _ = False"

definition mark_failed_unless_succeeded ::
  "state_env \<Rightarrow> bytes32 \<Rightarrow> u64 \<Rightarrow> bytes \<Rightarrow> NodeState \<Rightarrow> (bool \<times> NodeState) sresult" where
  "mark_failed_unless_succeeded e txid slot error s =
     rbind (get_tx_status e txid s) (\<lambda>status.
     if is_succeeded status then Ok (False, s)
     else rbind (set_tx_status e txid (Failed slot error) s) (\<lambda>s. Ok (True, s)))"

section \<open>Programs and UTXO anchors\<close>

definition deploy_program_state :: "Pubkey \<Rightarrow> bytes \<Rightarrow> bytes32 \<Rightarrow> NodeState \<Rightarrow> NodeState" where
  "deploy_program_state program_id elf image_id s =
     s\<lparr>ns_programs := (ns_programs s)(program_id \<mapsto> elf), ns_image_ids := (ns_image_ids s)(program_id \<mapsto> image_id)\<rparr>"

definition load_program_elf :: "Pubkey \<Rightarrow> NodeState \<Rightarrow> bytes option" where
  "load_program_elf program_id s = ns_programs s program_id"

definition load_image_id :: "Pubkey \<Rightarrow> NodeState \<Rightarrow> bytes32 option" where
  "load_image_id program_id s = ns_image_ids s program_id"

definition set_utxo_anchor :: "state_env \<Rightarrow> Pubkey \<Rightarrow> UtxoMeta \<Rightarrow> NodeState \<Rightarrow> NodeState sresult" where
  "set_utxo_anchor e key utxo s =
     rbind (to_vec (sv_utxo e) utxo) (\<lambda>bytes.
     Ok (s\<lparr>ns_utxo_anchors := (ns_utxo_anchors s)(key \<mapsto> bytes)\<rparr>))"

definition get_utxo_anchor :: "state_env \<Rightarrow> Pubkey \<Rightarrow> NodeState \<Rightarrow> UtxoMeta option sresult" where
  "get_utxo_anchor e key s =
     (case ns_utxo_anchors s key of
        Some b \<Rightarrow> rbind (from_slice (sv_utxo e) b) (\<lambda>u. Ok (Some u))
      | None \<Rightarrow> Ok None)"

section \<open>Blocks and slots\<close>

definition current_slot :: "NodeState \<Rightarrow> u64" where
  "current_slot s = meta_get s Slot"

definition advance_slot :: "NodeState \<Rightarrow> u64 \<times> NodeState" where
  "advance_slot s = (let next = meta_get s Slot + 1 in (next, meta_put Slot next s))"

definition save_block :: "u64 \<Rightarrow> bytes \<Rightarrow> NodeState \<Rightarrow> NodeState" where
  "save_block slot block_bytes s = s\<lparr>ns_blocks := (ns_blocks s)(slot \<mapsto> block_bytes)\<rparr>"

definition load_block :: "u64 \<Rightarrow> NodeState \<Rightarrow> bytes option" where
  "load_block slot s = ns_blocks s slot"

text \<open>The slots \<open>a..=b\<close>.\<close>

definition slots_upto :: "u64 \<Rightarrow> u64 \<Rightarrow> u64 list" where
  "slots_upto a b = map word_of_nat [unat a..<Suc (unat b)]"

definition block_at :: "state_env \<Rightarrow> u64 \<Rightarrow> NodeState \<Rightarrow> Block option" where
  "block_at e slot s = Option.bind (load_block slot s) (decode (sv_block e))"

definition recent_blockhashes :: "state_env \<Rightarrow> u64 \<Rightarrow> NodeState \<Rightarrow> bytes32 set" where
  "recent_blockhashes e max_age s =
     (let tip = current_slot s
      in fold (\<lambda>slot hashes. case block_at e slot s of Some b \<Rightarrow> insert (b_blockhash b) hashes | None \<Rightarrow> hashes)
           (slots_upto (saturating_sub tip max_age) tip) {})"

section \<open>Indexes\<close>

definition index_transaction :: "bytes32 \<Rightarrow> u64 \<Rightarrow> NodeState \<Rightarrow> NodeState" where
  "index_transaction txid slot s =
     (let is_new = ns_tx_idx s txid = None;
          s = s\<lparr>ns_tx_idx := (ns_tx_idx s)(txid \<mapsto> slot)\<rparr>
      in if is_new then meta_put TxCount (meta_get s TxCount + 1) s else s)"

definition tx_slot :: "bytes32 \<Rightarrow> NodeState \<Rightarrow> u64 option" where
  "tx_slot txid s = ns_tx_idx s txid"

definition index_btc_settlement :: "bytes32 \<Rightarrow> bytes32 \<Rightarrow> NodeState \<Rightarrow> NodeState" where
  "index_btc_settlement btc_txid himsha_txid s =
     s\<lparr>ns_btc_tx_idx := (ns_btc_tx_idx s)(btc_txid \<mapsto> himsha_txid)\<rparr>"

definition himsha_txid_for_btc :: "bytes32 \<Rightarrow> NodeState \<Rightarrow> bytes32 option" where
  "himsha_txid_for_btc btc_txid s = ns_btc_tx_idx s btc_txid"

definition stats :: "NodeState \<Rightarrow> u64 \<times> u64 \<times> u64" where
  "stats s = (meta_get s AccountCount, meta_get s TxCount, meta_get s Slot)"

section \<open>The owner index\<close>

definition account_at :: "state_env \<Rightarrow> NodeState \<Rightarrow> Pubkey \<Rightarrow> StoredAccount option" where
  "account_at e s k = Option.bind (tbl_get (ns_accounts s) k) (decode (sv_stored e))"

text \<open>Every stored account decodes, and the index holds the owner of each account and nothing else.\<close>

definition index_wf :: "state_env \<Rightarrow> NodeState \<Rightarrow> bool" where
  "index_wf e s \<longleftrightarrow> (\<forall>k b. tbl_get (ns_accounts s) k = Some b \<longrightarrow> decode (sv_stored e) b \<noteq> None)
     \<and> (\<forall>owner k. tbl_get (ns_owner_idx s) (owner, k) = Some () \<longleftrightarrow>
          map_option s_owner (account_at e s k) = Some owner)"

definition account_total :: "NodeState \<Rightarrow> nat" where
  "account_total s = length (tbl_iter (ns_accounts s))"

definition index_ok :: "state_env \<Rightarrow> NodeState \<Rightarrow> bool" where
  "index_ok e s \<longleftrightarrow> index_wf e s \<and> meta_get s AccountCount = word_of_nat (account_total s)"

lemma prior_owner_at: "prior_owner e s k = map_option s_owner (account_at e s k)"
  by (simp add: prior_owner_def account_at_def map_option_bind comp_def)

lemma prior_owner_None_iff: "index_wf e s \<Longrightarrow> prior_owner e s k = None \<longleftrightarrow> tbl_get (ns_accounts s) k = None"
  by (auto simp: index_wf_def prior_owner_at account_at_def split: bind_splits)

lemma store_sel [simp]:
  "ns_accounts (store k b p ow s) = tbl_insert (ns_accounts s) k b"
  "ns_meta (store k b p ow s) = ns_meta s" "ns_blocks (store k b p ow s) = ns_blocks s"
  by (simp_all add: store_def index_owner_def Let_def)

lemma meta_simps [simp]:
  "meta_get (meta_put m n s) m' = (if m' = m then n else meta_get s m')"
  "ns_accounts (meta_put m n s) = ns_accounts s" "ns_owner_idx (meta_put m n s) = ns_owner_idx s"
  "meta_get (store k b p ow s) m = meta_get s m"
  by (simp_all add: meta_put_def meta_get_def)

lemma store_at:
  "decode (sv_stored e) b = Some a \<Longrightarrow>
   account_at e (store k b p ow s) k' = (if k' = k then Some a else account_at e s k')"
  by (simp add: account_at_def)

lemma store_idx:
  "tbl_get (ns_owner_idx (store k b p ow s)) (ow', k') = Some () \<longleftrightarrow>
     (if k' = k then ow' = ow \<or> (p \<noteq> Some ow' \<and> tbl_get (ns_owner_idx s) (ow', k) = Some ())
      else tbl_get (ns_owner_idx s) (ow', k') = Some ())"
  by (auto simp: store_def index_owner_def Let_def split: option.splits)

lemma store_wf:
  assumes "index_wf e s" "decode (sv_stored e) b = Some a"
  shows "index_wf e (store k b (prior_owner e s k) (s_owner a) s)"
  unfolding index_wf_def
proof (intro conjI allI impI)
  fix k' b' assume "tbl_get (ns_accounts (store k b (prior_owner e s k) (s_owner a) s)) k' = Some b'"
  then show "decode (sv_stored e) b' \<noteq> None"
    using assms by (auto simp: index_wf_def split: if_splits)
next
  fix ow k'
  have idx: "tbl_get (ns_owner_idx s) (ow, k'') = Some () \<longleftrightarrow> prior_owner e s k'' = Some ow" for k''
    using assms(1) by (simp only: index_wf_def prior_owner_at)
  show "tbl_get (ns_owner_idx (store k b (prior_owner e s k) (s_owner a) s)) (ow, k') = Some () \<longleftrightarrow>
      map_option s_owner (account_at e (store k b (prior_owner e s k) (s_owner a) s) k') = Some ow"
    unfolding store_at [OF assms(2)] store_idx idx unfolding prior_owner_at
    by (cases "k' = k") auto
qed

lemma store_total:
  assumes "index_wf e s"
  shows "account_total (store k b p ow s) =
    (if prior_owner e s k = None then Suc (account_total s) else account_total s)"
  using prior_owner_None_iff [OF assms] tb.length_iter_insert [of "ns_accounts s" k b]
  by (simp add: account_total_def del: tbl_iter_simps)

lemma index_wf_frame:
  "ns_accounts s' = ns_accounts s \<Longrightarrow> ns_owner_idx s' = ns_owner_idx s \<Longrightarrow> index_wf e s' = index_wf e s"
  by (simp add: index_wf_def account_at_def)

lemma index_ok_frame:
  "ns_accounts s' = ns_accounts s \<Longrightarrow> ns_owner_idx s' = ns_owner_idx s \<Longrightarrow>
   ns_meta s' AccountCount = ns_meta s AccountCount \<Longrightarrow> index_ok e s' = index_ok e s"
  using index_wf_frame [of s' s e] by (simp add: index_ok_def account_total_def meta_get_def)

lemma index_meta_put [simp]:
  "index_wf e (meta_put m n s) = index_wf e s" "account_total (meta_put m n s) = account_total s"
  by (simp_all add: index_wf_def account_at_def account_total_def)

lemma to_vec_Ok_iff [monad_iffs]: "to_vec c v = Ok b \<longleftrightarrow> encode c v = Some b"
  by (simp add: to_vec_def monad_iffs)

lemma from_slice_Ok_iff [monad_iffs]: "from_slice c b = Ok v \<longleftrightarrow> decode c b = Some v"
  by (simp add: from_slice_def monad_iffs)

lemma save_account_ok:
  assumes "codec_ok (sv_stored e)" "index_ok e s" "save_account e k a s = Ok s'"
  shows "index_ok e s'"
proof -
  obtain b where b: "encode (sv_stored e) a = Some b"
    and s': "s' = (let t = store k b (prior_owner e s k) (s_owner a) s in
      if prior_owner e s k = None then meta_put AccountCount (meta_get t AccountCount + 1) t else t)"
    using assms(3) by (auto simp: save_account_def monad_iffs Let_def)
  have wf: "index_wf e s" "meta_get s AccountCount = word_of_nat (account_total s)"
    using assms(2) by (simp_all add: index_ok_def)
  show ?thesis
    using store_wf [OF wf(1) codec_okD [OF assms(1) b], of k] store_total [OF wf(1), of k b] wf(2)
    unfolding s' Let_def index_ok_def by (cases "prior_owner e s k") simp_all
qed

lemma save_each_ok:
  assumes "codec_ok (sv_stored e)" "index_wf e s" "save_each e batch added s = Ok (added', s')"
  shows "index_wf e s' \<and> ns_meta s' = ns_meta s
    \<and> added' + word_of_nat (account_total s) = added + word_of_nat (account_total s')"
  using assms
proof (induction e batch added s rule: save_each.induct)
  case (2 e k a batch added s)
  obtain b where b: "encode (sv_stored e) a = Some b"
    and run: "save_each e batch (if prior_owner e s k = None then added + 1 else added)
      (store k b (prior_owner e s k) (s_owner a) s) = Ok (added', s')"
    using "2.prems"(3) by (auto simp: monad_iffs Let_def)
  note IH = "2.IH" [OF refl "2.prems"(1) store_wf [OF "2.prems"(2) codec_okD [OF "2.prems"(1) b], of k] run]
  show ?case
    using IH b store_total [OF "2.prems"(2), of k b] by (auto simp: monad_iffs algebra_simps split: if_splits)
qed simp

lemma save_accounts_atomic_ok:
  assumes "codec_ok (sv_stored e)" "index_ok e s" "save_accounts_atomic e m s = Ok s'"
  shows "index_ok e s'"
proof (cases "dom m = {}")
  case False
  then obtain added t where run: "save_each e (map (\<lambda>k. (k, the (m k))) (sv_order e (dom m))) 0 s = Ok (added, t)"
    and s': "s' = (if 0 < added then meta_put AccountCount (meta_get t AccountCount + added) t else t)"
    using assms(3) by (auto simp: save_accounts_atomic_def monad_iffs)
  have "index_wf e s" "meta_get s AccountCount = word_of_nat (account_total s)"
    using assms(2) by (simp_all add: index_ok_def)
  then have "index_wf e t" "meta_get t AccountCount + added = word_of_nat (account_total t)"
    using save_each_ok [OF assms(1) _ run] by (auto simp: meta_get_def add.commute)
  then show ?thesis
    by (auto simp: s' index_ok_def word_gt_0)
qed (use assms in \<open>simp add: save_accounts_atomic_def\<close>)

lemma owner_pairs_Ok:
  assumes "owner_pairs c es = Ok pairs"
  shows "pairs = map (\<lambda>(k, b). (s_owner (the (decode c b)), k)) es \<and> (\<forall>(k, b) \<in> set es. decode c b \<noteq> None)"
  using assms by (induction c es arbitrary: pairs rule: owner_pairs.induct) (auto simp: monad_iffs)

lemma fold_tbl_insert:
  "tbl_get (fold (\<lambda>p idx. tbl_insert idx p ()) pairs t) p = Some () \<longleftrightarrow> p \<in> set pairs \<or> tbl_get t p = Some ()"
  by (induction pairs arbitrary: t) auto

text \<open>Opening an old database builds the index; opening an indexed one changes nothing.\<close>

lemma open_state_builds:
  assumes "open_state e s = Ok s'" "tbl_iter (ns_owner_idx s) = []" "tbl_iter (ns_accounts s) \<noteq> []"
  shows "index_ok e s'"
proof -
  obtain pairs where pairs: "owner_pairs (sv_stored e) (tbl_iter (ns_accounts s)) = Ok pairs"
    and s': "s' = meta_put AccountCount (word_of_nat (length pairs))
      (s\<lparr>ns_owner_idx := fold (\<lambda>p idx. tbl_insert idx p ()) pairs (ns_owner_idx s)\<rparr>)"
    using assms by (auto simp: open_state_def backfill_owner_index_def monad_iffs)
  have none: "tbl_get (ns_owner_idx s) p = None" for p
    using assms(2) by (cases p) (simp add: tb.iter_empty_iff)
  have dec: "\<exists>a. decode (sv_stored e) b = Some a" if "tbl_get (ns_accounts s) k = Some b" for k b
    using owner_pairs_Ok [OF pairs] that by (auto simp: tb.set_iter)
  have mem: "p \<in> set pairs \<longleftrightarrow> (\<exists>b a. tbl_get (ns_accounts s) (snd p) = Some b
      \<and> decode (sv_stored e) b = Some a \<and> s_owner a = fst p)" for p
    using owner_pairs_Ok [OF pairs] dec by (cases p) (force simp: tb.set_iter)
  have "length pairs = length (tbl_iter (ns_accounts s))"
    using owner_pairs_Ok [OF pairs] by simp
  then show ?thesis
    using dec by (auto simp: s' index_ok_def index_wf_def account_total_def account_at_def fold_tbl_insert none
        mem bind_eq_Some_conv)
qed

lemma open_state_keeps: "index_ok e s \<Longrightarrow> open_state e s = Ok s' \<Longrightarrow> index_ok e s'"
  by (cases "tbl_iter (ns_owner_idx s) = [] \<and> tbl_iter (ns_accounts s) \<noteq> []")
    (blast intro: open_state_builds, auto simp: open_state_def backfill_owner_index_def)

section \<open>Reachable databases\<close>

text \<open>Every writing operation of the node's database, as a step.\<close>

inductive db_step :: "state_env \<Rightarrow> NodeState \<Rightarrow> NodeState \<Rightarrow> bool" for e where
  db_save: "save_account e k a s = Ok s' \<Longrightarrow> db_step e s s'"
| db_batch: "save_accounts_atomic e m s = Ok s' \<Longrightarrow> db_step e s s'"
| db_anchor: "record_anchor e slot root txid s = Ok s' \<Longrightarrow> db_step e s s'"
| db_status: "set_tx_status e tx status s = Ok s' \<Longrightarrow> db_step e s s'"
| db_failed: "mark_failed_unless_succeeded e tx slot err s = Ok (r, s') \<Longrightarrow> db_step e s s'"
| db_deploy: "db_step e s (deploy_program_state k elf img s)"
| db_utxo: "set_utxo_anchor e k utxo s = Ok s' \<Longrightarrow> db_step e s s'"
| db_slot: "advance_slot s = (n, s') \<Longrightarrow> db_step e s s'"
| db_block: "db_step e s (save_block slot b s)"
| db_index: "db_step e s (index_transaction tx slot s)"
| db_settle: "db_step e s (index_btc_settlement btc tx s)"
| db_open: "open_state e s = Ok s' \<Longrightarrow> db_step e s s'"

inductive db_reach :: "state_env \<Rightarrow> NodeState \<Rightarrow> bool" for e where
  db_new: "db_reach e empty_state"
| db_next: "db_reach e s \<Longrightarrow> db_step e s s' \<Longrightarrow> db_reach e s'"

lemma db_step_index_ok:
  assumes "db_step e s s'" "codec_ok (sv_stored e)" "index_ok e s"
  shows "index_ok e s'"
  using assms(1)
proof cases
  case db_save
  then show ?thesis using assms save_account_ok by blast
next
  case db_batch
  then show ?thesis using assms save_accounts_atomic_ok by blast
next
  case db_open
  then show ?thesis using assms open_state_keeps by blast
qed (use assms(3) in \<open>auto simp: record_anchor_def set_tx_status_def mark_failed_unless_succeeded_def
    deploy_program_state_def set_utxo_anchor_def advance_slot_def save_block_def index_transaction_def
    index_btc_settlement_def monad_iffs Let_def meta_put_def split: if_splits
    elim!: index_ok_frame [THEN iffD2, rotated -1]\<close>)

lemma empty_index_ok: "index_ok e empty_state"
  by (simp add: index_ok_def index_wf_def empty_state_def account_at_def meta_get_def account_total_def)

lemma db_reach_index_ok: "db_reach e s \<Longrightarrow> codec_ok (sv_stored e) \<Longrightarrow> index_ok e s"
  by (induction rule: db_reach.induct) (auto intro: db_step_index_ok empty_index_ok)

section \<open>Queries\<close>

lemma load_account_at: "index_wf e s \<Longrightarrow> load_account e k s = Ok (account_at e s k)"
proof (cases "tbl_get (ns_accounts s) k")
  case (Some b)
  moreover assume "index_wf e s"
  ultimately obtain a where "decode (sv_stored e) b = Some a"
    unfolding index_wf_def by blast
  then show ?thesis
    using Some by (simp add: load_account_def account_at_def from_slice_def)
qed (simp add: load_account_def account_at_def)

lemma load_each_at:
  "index_wf e s \<Longrightarrow> load_each e s keys = Ok (concat (map (\<lambda>k. case account_at e s k of
     Some a \<Rightarrow> [into_account a k] | None \<Rightarrow> []) keys))"
  by (induction keys) (auto simp: load_account_at split: option.splits)

lemma scan_all:
  "\<forall>(k, b) \<in> set es. decode c b \<noteq> None \<Longrightarrow>
   scan_accounts c 0 out es = Ok (out @ map (\<lambda>(k, b). into_account (the (decode c b)) k) es)"
  by (induction es arbitrary: out) (auto simp: from_slice_def Let_def)

lemma owner_range:
  assumes "index_wf e s"
  shows "map (\<lambda>(k, _). snd k) (filter (\<lambda>(k, _). fst k = owner)
      (filter (\<lambda>(k, _). (owner, 0) \<le> k \<and> k \<le> (owner, - 1)) (tbl_iter (ns_owner_idx s)))) =
    map fst (filter (\<lambda>(k, b). s_owner (the (decode (sv_stored e) b)) = owner) (tbl_iter (ns_accounts s)))"
    (is "?keys = ?owned")
proof (rule strict_sorted_equal)
  let ?idx = "filter (\<lambda>(k, _). fst k = owner) (tbl_iter (ns_owner_idx s))"
  have keys: "?keys = map (\<lambda>(k, _). snd k) ?idx"
    by (simp add: filter_filter, intro arg_cong2 [where f = map] filter_cong)
      (auto simp: less_eq_prod_def word_order.extremum)
  have "sorted_wrt (\<lambda>x y. fst x < fst y) ?idx"
    using tb.iter_sorted [of "ns_owner_idx s"] by (simp add: sorted_wrt_map sorted_wrt_filter)
  then have "sorted_wrt (\<lambda>x y. snd (fst x) < snd (fst y)) ?idx"
    by (rule sorted_wrt_mono_rel [rotated]) (auto simp: less_prod_def')
  then show "sorted_wrt (<) ?keys"
    unfolding keys by (simp add: sorted_wrt_map case_prod_unfold)
  show "sorted_wrt (<) ?owned"
    using tb.iter_sorted [of "ns_accounts s"] by (simp add: sorted_wrt_map sorted_wrt_filter)
  have "k \<in> set ?keys \<longleftrightarrow> tbl_get (ns_owner_idx s) (owner, k) = Some ()" for k
    unfolding keys by (force simp: tb.set_iter)
  moreover have "k \<in> set ?owned \<longleftrightarrow> map_option s_owner (account_at e s k) = Some owner" for k
  proof (cases "tbl_get (ns_accounts s) k")
    case (Some b)
    then obtain a where "decode (sv_stored e) b = Some a"
      using assms unfolding index_wf_def by blast
    then show ?thesis
      using Some by (auto simp: tb.set_iter account_at_def image_iff)
  qed (auto simp: tb.set_iter account_at_def)
  ultimately show "set ?keys = set ?owned"
    using assms unfolding index_wf_def by blast
qed

lemma owner_index_scan:
  assumes "index_ok e s"
  shows "\<exists>all. all_accounts e 0 s = Ok all
    \<and> accounts_by_owner e owner s = Ok (filter (\<lambda>a. a_owner a = owner) all)
    \<and> fst (stats s) = word_of_nat (length all)"
proof -
  let ?es = "tbl_iter (ns_accounts s)" and ?acc = "\<lambda>(k, b). into_account (the (decode (sv_stored e) b)) k"
  have wf: "index_wf e s" "meta_get s AccountCount = word_of_nat (length ?es)"
    using assms by (simp_all add: index_ok_def account_total_def)
  then have dec: "\<forall>(k, b) \<in> set ?es. decode (sv_stored e) b \<noteq> None"
    by (auto simp: tb.set_iter index_wf_def)
  have one: "(case account_at e s (fst x) of Some a \<Rightarrow> [into_account a (fst x)] | None \<Rightarrow> []) = [?acc x]"
    if x: "x \<in> set ?es" for x
  proof -
    obtain k b a where "x = (k, b)" "decode (sv_stored e) b = Some a"
      using bspec [OF dec x] by (cases x) auto
    then show ?thesis
      using x by (simp add: tb.set_iter account_at_def)
  qed
  have "accounts_by_owner e owner s = load_each e s
      (map fst (filter (\<lambda>(k, b). s_owner (the (decode (sv_stored e) b)) = owner) ?es))"
    using owner_range [OF wf(1), of owner] by (simp add: accounts_by_owner_def Let_def)
  also have "\<dots> = Ok (concat (map (\<lambda>x. [?acc x])
      (filter (\<lambda>(k, b). s_owner (the (decode (sv_stored e) b)) = owner) ?es)))"
    unfolding load_each_at [OF wf(1)] map_map
    by (intro arg_cong [where f = Ok] arg_cong [where f = concat] map_cong refl)
      (use one in \<open>simp add: comp_def\<close>)
  also have "\<dots> = Ok (filter (\<lambda>a. a_owner a = owner) (map ?acc ?es))"
    by (simp add: filter_map comp_def case_prod_unfold into_account_def)
  finally show ?thesis
    using scan_all [OF dec, of "[]"] wf(2) by (simp add: all_accounts_def stats_def)
qed

text \<open>
  The owner index answers like a full scan: on every database the node can reach, by any
  sequence of saves, batches and restarts, the accounts listed for an owner through the index
  are exactly the accounts of the full scan with that owner, in the same order, and the counter
  shown to explorers is the number of accounts.
\<close>

theorem owner_index_refines_scan:
  assumes "db_reach e s" "codec_ok (sv_stored e)"
  shows "\<exists>all. all_accounts e 0 s = Ok all
    \<and> accounts_by_owner e owner s = Ok (filter (\<lambda>a. a_owner a = owner) all)
    \<and> fst (stats s) = word_of_nat (length all)"
  by (rule owner_index_scan [OF db_reach_index_ok [OF assms]])

section \<open>Saving and loading\<close>

definition order_ok :: "state_env \<Rightarrow> bool" where
  "order_ok e \<longleftrightarrow> (\<forall>K. finite K \<longrightarrow> distinct (sv_order e K) \<and> set (sv_order e K) = K)"

lemma save_each_get:
  assumes "save_each e batch added s = Ok (added', s')" "distinct (map fst batch)"
  shows "tbl_get (ns_accounts s') k =
    (case map_of batch k of Some a \<Rightarrow> encode (sv_stored e) a | None \<Rightarrow> tbl_get (ns_accounts s) k)"
  using assms
proof (induction e batch added s rule: save_each.induct)
  case (2 e key a batch added s)
  obtain b where b: "encode (sv_stored e) a = Some b"
    and run: "save_each e batch (if prior_owner e s key = None then added + 1 else added)
      (store key b (prior_owner e s key) (s_owner a) s) = Ok (added', s')"
    using "2.prems"(1) by (auto simp: monad_iffs Let_def)
  have "map_of batch key = None"
    using "2.prems"(2) by (simp add: map_of_eq_None_iff)
  then show ?case
    using "2.IH" [OF refl run] "2.prems"(2) b by (auto split: option.splits)
qed simp

text \<open>
  A batch stores each of its accounts and nothing else, in whatever order the hash map is
  walked.
\<close>

lemma save_accounts_atomic_get:
  assumes "save_accounts_atomic e m s = Ok s'" "order_ok e" "finite (dom m)"
  shows "tbl_get (ns_accounts s') k =
    (case m k of Some a \<Rightarrow> encode (sv_stored e) a | None \<Rightarrow> tbl_get (ns_accounts s) k)"
proof (cases "dom m = {}")
  case True
  then show ?thesis
    using assms(1) by (simp add: save_accounts_atomic_def)
next
  case False
  let ?batch = "map (\<lambda>k. (k, the (m k))) (sv_order e (dom m))"
  have ord: "distinct (sv_order e (dom m))" "set (sv_order e (dom m)) = dom m"
    using assms(2,3) by (simp_all add: order_ok_def)
  obtain added t where run: "save_each e ?batch 0 s = Ok (added, t)" and acc: "ns_accounts s' = ns_accounts t"
    using assms(1) False by (auto simp: save_accounts_atomic_def monad_iffs split: if_splits)
  have "map_of ?batch k = m k"
    using ord(2) by (auto simp: map_of_map_restrict restrict_map_def domIff)
  then show ?thesis
    using save_each_get [OF run, of k] ord(1) by (simp add: acc comp_def)
qed

section \<open>A batch is a sequence of saves\<close>

text \<open>The reference for a batch: one \<open>save_account\<close> after the other, stopping at the first that fails.\<close>

fun save_seq :: "state_env \<Rightarrow> (Pubkey \<times> StoredAccount) list \<Rightarrow> NodeState \<Rightarrow> NodeState sresult" where
  "save_seq e [] s = Ok s"
| "save_seq e ((key, account) # batch) s = rbind (save_account e key account s) (save_seq e batch)"

text \<open>What the batch does with the number of accounts it added.\<close>

definition bump :: "u64 \<Rightarrow> NodeState \<Rightarrow> NodeState" where
  "bump added s = (if 0 < added then meta_put AccountCount (meta_get s AccountCount + added) s else s)"

lemma bump_frame [simp]:
  "prior_owner e (bump n s) k = prior_owner e s k"
  "store k b p ow (bump n s) = bump n (store k b p ow s)"
  by (simp_all add: bump_def prior_owner_def store_def index_owner_def meta_put_def meta_get_def Let_def split: option.split)

lemma bump_Suc: "n \<noteq> - 1 \<Longrightarrow> meta_put AccountCount (meta_get (bump n s) AccountCount + 1) (bump n s) = bump (n + 1) s"
  by (cases "n = 0") (auto simp: bump_def meta_put_def meta_get_def word_gt_0 ac_simps add_eq_0_iff)

lemma save_each_seq:
  assumes "unat n + length batch < 2 ^ 64"
  shows "rbind (save_each e batch n s) (\<lambda>(added, s). Ok (bump added s)) = save_seq e batch (bump n s)"
  using assms
proof (induction e batch n s rule: save_each.induct)
  case (2 e key account batch n s)
  have wrap: "unat (n + 1) = unat n + 1"
    using 2(2) by (simp add: unat_add_lem [THEN iffD1])
  then have "n \<noteq> - 1"
    by auto
  show ?case
  proof (cases "to_vec (sv_stored e) account")
    case (Ok bytes)
    then show ?thesis
      using 2(1) [OF refl] 2(2) wrap \<open>n \<noteq> - 1\<close> by (simp add: save_account_def Let_def bump_Suc)
  qed (simp_all add: save_account_def)
qed simp

text \<open>
  C14. Saving a batch in one write is the same as saving its accounts one by one: the accounts, the
  owner index, the account counter and everything else end up equal, and the batch is refused exactly
  when one of the single saves is. The batch keeps its own count of new accounts and adds it at the
  end; it agrees with counting at every save for every batch that fits the counter.
\<close>

theorem save_accounts_atomic_sequential:
  assumes "order_ok e" "card (dom accounts) < 2 ^ 64"
  shows "save_accounts_atomic e accounts s = save_seq e (map (\<lambda>k. (k, the (accounts k))) (sv_order e (dom accounts))) s"
proof (cases "dom accounts = {}")
  case True
  then have "sv_order e (dom accounts) = []"
    using assms(1) by (metis True finite order_ok_def set_empty)
  then show ?thesis
    using True by (simp add: save_accounts_atomic_def)
next
  case False
  let ?batch = "map (\<lambda>k. (k, the (accounts k))) (sv_order e (dom accounts))"
  have "distinct (sv_order e (dom accounts))" "set (sv_order e (dom accounts)) = dom accounts"
    using assms(1) [unfolded order_ok_def, rule_format, OF finite] by simp_all
  then have "length ?batch < 2 ^ 64"
    using assms(2) distinct_card [of "sv_order e (dom accounts)"] by (simp only: length_map)
  then have "rbind (save_each e ?batch 0 s) (\<lambda>(added, s). Ok (bump added s)) = save_seq e ?batch (bump 0 s)"
    by (intro save_each_seq) simp
  then show ?thesis
    using False by (simp add: save_accounts_atomic_def bump_def)
qed

lemma save_account_get:
  assumes "save_account e k a s = Ok s'"
  shows "tbl_get (ns_accounts s') k' = (if k' = k then encode (sv_stored e) a else tbl_get (ns_accounts s) k')"
  using assms by (auto simp: save_account_def monad_iffs Let_def)

lemma load_after_save:
  "codec_ok (sv_stored e) \<Longrightarrow> save_account e k a s = Ok s' \<Longrightarrow> load_account e k s' = Ok (Some a)"
  by (auto simp: save_account_def load_account_def from_slice_def monad_iffs Let_def dest: codec_okD)

lemma load_account_cong: "ns_accounts s = ns_accounts t \<Longrightarrow> load_account e k s = load_account e k t"
  by (simp add: load_account_def)

section \<open>Roots and proofs\<close>

lemma state_leaves_of: "map snd (state_leaves e s) = leaves_of (sv_sha e) (tbl_iter (ns_accounts s))"
  by (simp add: state_leaves_def leaves_of_def case_prod_unfold comp_def)

lemma table_index_complete: "x \<in> set xs \<Longrightarrow> \<exists>i. table_index xs x = Some i"
  by (induction xs) auto

text \<open>A stored account has a proof against the root; any other key has none.\<close>

lemma state_proof_missing:
  assumes "tbl_get (ns_accounts s) key = None"
  shows "state_proof e key s = None"
proof -
  let ?es = "tbl_iter (ns_accounts s)"
  have "key \<notin> set (map fst ?es)"
    using assms by (auto simp: tb.set_iter)
  then have "table_index (map fst ?es) key = None"
    by (metis not_None_eq nth_mem table_index_Some)
  then show ?thesis
    by (simp add: state_proof_def state_leaves_def case_prod_unfold comp_def Let_def)
qed

lemma state_proof_verifies:
  assumes stored: "tbl_get (ns_accounts s) key = Some b" and small: "account_total s \<le> 2 ^ 64"
  shows "\<exists>p. state_proof e key s = Some (p, compute_state_root e s)
    \<and> p_leaf p = leaf_hash (sv_sha e) key b \<and> verify (sv_sha e) p (compute_state_root e s)"
proof -
  let ?es = "tbl_iter (ns_accounts s)" and ?sha = "sv_sha e"
  have keys: "map fst (state_leaves e s) = map fst ?es"
    by (simp add: state_leaves_def case_prod_unfold comp_def)
  have mem: "(key, b) \<in> set ?es"
    using stored by (simp add: tb.iter_get)
  then obtain i where i: "table_index (map fst ?es) key = Some i"
    using table_index_complete [of key "map fst ?es"] by force
  then have "i < length ?es" "fst (?es ! i) = key"
    using table_index_Some [OF i] by auto
  moreover from this have "?es ! i = (key, b)"
    using stored nth_mem [of i ?es] by (cases "?es ! i") (simp add: tb.set_iter)
  moreover have "i < 2 ^ 64"
    using \<open>i < length ?es\<close> small by (simp add: account_total_def)
  ultimately show ?thesis
    using i collect_verifies [of i "leaves_of ?sha ?es" ?sha]
    by (auto simp: state_proof_def keys Let_def state_leaves_of build_proof_def compute_state_root_def
        verify_def merkle_root_def leaves_of_def)
qed

text \<open>
  C2. The state root commits to the accounts: every account of the database has an inclusion
  proof against the current root, for the hash of its key and stored bytes, and no other key has
  one; and two databases with the same root hold the same accounts, for a hash without a
  collision on what the two trees hash.
\<close>

theorem state_root_commits:
  assumes "account_total s \<le> 2 ^ 64" "account_total t \<le> 2 ^ 64"
    and "tbl_iter (ns_accounts s) \<noteq> []" "tbl_iter (ns_accounts t) \<noteq> []"
    and "let es = tbl_iter (ns_accounts s); fs = tbl_iter (ns_accounts t); sha = sv_sha e in
      inj_on sha (tree_inputs sha (leaves_of sha es) \<union> tree_inputs sha (leaves_of sha fs)
        \<union> leaf_inputs es \<union> leaf_inputs fs)"
  shows "(case tbl_get (ns_accounts s) key of
        None \<Rightarrow> state_proof e key s = None
      | Some b \<Rightarrow> \<exists>p. state_proof e key s = Some (p, compute_state_root e s)
          \<and> p_leaf p = leaf_hash (sv_sha e) key b \<and> verify (sv_sha e) p (compute_state_root e s))
    \<and> (compute_state_root e s = compute_state_root e t \<longleftrightarrow> ns_accounts s = ns_accounts t)"
proof
  let ?es = "tbl_iter (ns_accounts s)" and ?sha = "sv_sha e"
  show "case tbl_get (ns_accounts s) key of
        None \<Rightarrow> state_proof e key s = None
      | Some b \<Rightarrow> \<exists>p. state_proof e key s = Some (p, compute_state_root e s)
          \<and> p_leaf p = leaf_hash ?sha key b \<and> verify ?sha p (compute_state_root e s)"
    using state_proof_missing state_proof_verifies [OF _ assms(1)] by (auto split: option.splits)
  show "compute_state_root e s = compute_state_root e t \<longleftrightarrow> ns_accounts s = ns_accounts t"
  proof
    assume "compute_state_root e s = compute_state_root e t"
    then have "?es = tbl_iter (ns_accounts t)"
      using assms tb.iter_sorted [of "ns_accounts s"] tb.iter_sorted [of "ns_accounts t"]
      by (intro root_binding [of ?sha])
        (simp_all add: Let_def account_total_def compute_state_root_def state_leaves_of strict_sorted_iff)
    then show "ns_accounts s = ns_accounts t"
      by (simp add: tbl_iter_inject)
  qed (simp add: compute_state_root_def state_leaves_of)
qed

lemma recent_blockhashes_iff:
  "h \<in> recent_blockhashes e max_age s \<longleftrightarrow>
     (\<exists>slot b. unat (current_slot s) - unat max_age \<le> unat slot \<and> slot \<le> current_slot s
        \<and> block_at e slot s = Some b \<and> h = b_blockhash b)"
proof -
  have fold: "h \<in> fold (\<lambda>slot hashes. case block_at e slot s of Some b \<Rightarrow> insert (b_blockhash b) hashes | None \<Rightarrow> hashes) xs H
      \<longleftrightarrow> h \<in> H \<or> (\<exists>slot \<in> set xs. \<exists>b. block_at e slot s = Some b \<and> h = b_blockhash b)" for xs H
    by (induction xs arbitrary: H) (auto split: option.splits)
  have range: "slot \<in> set (slots_upto a b) \<longleftrightarrow> unat a \<le> unat slot \<and> slot \<le> b" for slot a b
  proof
    assume "slot \<in> set (slots_upto a b)"
    then obtain n where n: "slot = word_of_nat n" "unat a \<le> n" "n \<le> unat b"
      by (auto simp: slots_upto_def)
    then have "n < 2 ^ 64"
      using unat_bound [of b] by simp
    then show "unat a \<le> unat slot \<and> slot \<le> b"
      using n by (simp add: word_le_nat_alt unsigned_of_nat take_bit_nat_eq_self)
  next
    assume "unat a \<le> unat slot \<and> slot \<le> b"
    then have "unat slot \<in> set [unat a..<Suc (unat b)]"
      by (auto simp: word_le_nat_alt)
    then have "word_of_nat (unat slot) \<in> set (slots_upto a b)"
      unfolding slots_upto_def set_map by (rule imageI)
    then show "slot \<in> set (slots_upto a b)"
      by simp
  qed
  show ?thesis
    by (auto simp: recent_blockhashes_def Let_def fold range)
qed

section \<open>A total codec for stored accounts\<close>

text \<open>
  A concrete codec that encodes every stored account: a header of fixed length, one byte per
  bit, then the data. It shows that the laws asked of the third-party codec can hold.
\<close>

definition word_bits :: "'a::len word \<Rightarrow> bytes" where
  "word_bits w = map (\<lambda>i. if bit w i then 1 else 0) [0..<LENGTH('a)]"

definition bits_word :: "bytes \<Rightarrow> 'a::len word" where
  "bits_word b = horner_sum of_bool 2 (map (\<lambda>x. x \<noteq> 0) b)"

lemma bits_word_bits [simp]: "bits_word (word_bits w) = w"
proof -
  have "map (\<lambda>x. x \<noteq> 0) (word_bits w) = map (bit w) [0..<LENGTH('a)]"
    by (simp add: word_bits_def)
  then show ?thesis
    using horner_sum_bit_eq_take_bit [of w "LENGTH('a)"] by (simp add: bits_word_def)
qed

lemma length_word_bits [simp]: "length (word_bits (w :: 'a::len word)) = LENGTH('a)"
  by (simp add: word_bits_def)

definition option_bits :: "'a::len word option \<Rightarrow> bytes" where
  "option_bits x = (case x of Some w \<Rightarrow> 1 # word_bits w | None \<Rightarrow> 0 # word_bits (0 :: 'a word))"

definition bits_option :: "bytes \<Rightarrow> 'a::len word option" where
  "bits_option b = (if b \<noteq> [] \<and> hd b = 1 then Some (bits_word (tl b)) else None)"

lemma bits_option_bits [simp]: "bits_option (option_bits x) = x"
  by (simp add: bits_option_def option_bits_def split: option.splits)

lemma length_option_bits [simp]: "length (option_bits (x :: 'a::len word option)) = Suc LENGTH('a)"
  by (simp add: option_bits_def split: option.splits)

definition plain_bytes :: "StoredAccount \<Rightarrow> bytes" where
  "plain_bytes a = (if s_executable a then 1 else 0) # word_bits (s_lamports a) @ word_bits (s_owner a)
     @ option_bits (s_utxo_txid a) @ option_bits (s_utxo_vout a) @ s_data a"

definition plain_parse :: "bytes \<Rightarrow> StoredAccount" where
  "plain_parse b =
     \<lparr> s_lamports = bits_word (take 64 (drop 1 b)), s_data = drop 611 b,
       s_owner = bits_word (take 256 (drop 65 b)), s_executable = hd b = 1,
       s_utxo_txid = bits_option (take 257 (drop 321 b)),
       s_utxo_vout = bits_option (take 33 (drop 578 b)) \<rparr>"

definition plain_codec :: "StoredAccount codec" where
  "plain_codec =
     \<lparr> encode = (\<lambda>a. Some (plain_bytes a)),
       decode = (\<lambda>b. if length b < 611 then None else Some (plain_parse b)) \<rparr>"

lemma plain_parse_bytes: "plain_parse (plain_bytes a) = a"
  by (simp add: plain_parse_def plain_bytes_def)

lemma plain_codec_simps [simp]:
  "encode plain_codec a = Some (plain_bytes a)" "decode plain_codec (plain_bytes a) = Some a"
  by (simp_all add: plain_codec_def plain_parse_bytes) (simp add: plain_bytes_def)

lemma plain_codec_laws [simp]: "codec_ok plain_codec" "codec_total plain_codec"
  by (auto simp: codec_ok_def codec_total_def)

section \<open>A total codec for statuses\<close>

fun status_bytes :: "TxStatus \<Rightarrow> bytes" where
  "status_bytes Pending = [0]"
| "status_bytes (Succeeded n) = 1 # word_bits n"
| "status_bytes (Failed n err) = 2 # word_bits n @ err"

definition status_parse :: "bytes \<Rightarrow> TxStatus option" where
  "status_parse b =
     (if b = [] then None
      else if hd b = 0 then Some Pending
      else if hd b = 1 then Some (Succeeded (bits_word (tl b)))
      else Some (Failed (bits_word (take 64 (tl b))) (drop 64 (tl b))))"

definition status_codec :: "TxStatus codec" where
  "status_codec = \<lparr> encode = (\<lambda>st. Some (status_bytes st)), decode = status_parse \<rparr>"

lemma status_codec_laws [simp]: "codec_ok status_codec" "codec_total status_codec"
proof -
  have "status_parse (status_bytes st) = Some st" for st
    by (cases st) (simp_all add: status_parse_def)
  then show "codec_ok status_codec" "codec_total status_codec"
    by (auto simp: codec_ok_def codec_total_def status_codec_def)
qed

section \<open>Samples\<close>

definition sample_stored :: "Pubkey \<Rightarrow> u64 \<Rightarrow> StoredAccount" where
  "sample_stored owner n = stored_from (new_account 0 owner n 0)"

definition sample_state_env :: state_env where
  "sample_state_env =
     \<lparr> sv_sha = length_hash, sv_stored = table_codec [sample_stored 5 10, sample_stored 6 20],
       sv_anchor = table_codec [], sv_status = table_codec [Pending, Succeeded 1, Failed 2 []],
       sv_utxo = table_codec [], sv_block = table_codec [], sv_order = sorted_list_of_set \<rparr>"

definition sample_state :: NodeState where
  "sample_state = empty_state\<lparr> ns_accounts := tbl_insert (tbl_insert tbl_empty 3 [0]) 2 [1],
     ns_owner_idx := tbl_insert (tbl_insert tbl_empty (5, 3) ()) (6, 2) (),
     ns_meta := [AccountCount \<mapsto> 2] \<rparr>"

lemma sample_state_run:
  "rbind (save_account sample_state_env 3 (sample_stored 5 10) empty_state)
     (save_account sample_state_env 2 (sample_stored 6 20)) = Ok sample_state"
  by (simp add: save_account_def sample_state_env_def table_codec_def to_vec_def sample_stored_def
      stored_from_def new_account_def empty_state_def sample_state_def store_def index_owner_def
      prior_owner_def meta_put_def meta_get_def Let_def)

lemma sample_state_reach: "db_reach sample_state_env sample_state"
proof -
  obtain s where "save_account sample_state_env 3 (sample_stored 5 10) empty_state = Ok s"
    "save_account sample_state_env 2 (sample_stored 6 20) s = Ok sample_state"
    using sample_state_run unfolding rbind_Ok_iff by blast
  then show ?thesis
    by (blast intro: db_reach.intros db_step.intros)
qed

theorem owner_index_refines_scan_witness:
  "\<exists>all. all_accounts sample_state_env 0 sample_state = Ok all
    \<and> accounts_by_owner sample_state_env 6 sample_state = Ok (filter (\<lambda>a. a_owner a = 6) all)
    \<and> fst (stats sample_state) = word_of_nat (length all)"
  by (rule owner_index_refines_scan [OF sample_state_reach]) (simp add: sample_state_env_def)

theorem save_accounts_atomic_sequential_witness:
  "\<exists>s'. save_accounts_atomic sample_state_env [3 \<mapsto> sample_stored 5 10] empty_state = Ok s'
    \<and> save_seq sample_state_env [(3, sample_stored 5 10)] empty_state = Ok s' \<and> fst (stats s') = 1"
proof -
  have "order_ok sample_state_env" and ord: "sv_order sample_state_env {3} = [3]"
    by (simp_all add: order_ok_def sample_state_env_def)
  from save_accounts_atomic_sequential [OF this(1), of "[3 \<mapsto> sample_stored 5 10]" empty_state]
  have eq: "save_accounts_atomic sample_state_env [3 \<mapsto> sample_stored 5 10] empty_state =
      save_seq sample_state_env [(3, sample_stored 5 10)] empty_state"
    by (simp add: ord del: save_seq.simps)
  show ?thesis
    unfolding eq by (simp add: save_account_def sample_state_env_def table_codec_def to_vec_def sample_stored_def
      stored_from_def new_account_def empty_state_def store_def index_owner_def prior_owner_def meta_put_def
      meta_get_def stats_def Let_def)
qed

theorem state_root_commits_witness:
  "compute_state_root sample_state_env (empty_state\<lparr>ns_accounts := tbl_insert tbl_empty 1 []\<rparr>) \<noteq>
   compute_state_root sample_state_env (empty_state\<lparr>ns_accounts := tbl_insert tbl_empty 1 [7]\<rparr>)"
proof -
  let ?s = "empty_state\<lparr>ns_accounts := tbl_insert tbl_empty 1 []\<rparr>"
  let ?t = "empty_state\<lparr>ns_accounts := tbl_insert tbl_empty 1 [7]\<rparr>"
  have "tbl_get (ns_accounts ?s) 1 \<noteq> tbl_get (ns_accounts ?t) 1"
    by simp
  then have "ns_accounts ?s \<noteq> ns_accounts ?t"
    by metis
  moreover have "tree_inputs length_hash [x] = {}" for x
    by (simp add: tree_inputs.simps [of length_hash "[x]"])
  ultimately show ?thesis
    using state_root_commits [of ?s ?t sample_state_env 1]
    by (simp add: account_total_def sample_state_env_def leaves_of_def leaf_inputs_def length_hash_def)
qed

end
