(* ===== verification/Node_Exec.thy ===== *)
theory Node_Exec
  imports Node_State Vm Text
begin

text \<open>
  Execution on the node: \<open>src/himsha-node/src/execution.rs\<close> (the executor that preflights and
  commits), \<open>settlement.rs\<close> (draining of lending settlements) and the test for Lightning
  invoices of \<open>lightning.rs\<close>.

  Bitcoin and Lightning are services outside the program: \<open>ne_pay\<close> is the id of the Bitcoin
  transaction that a settlement was paid with, if the indexer is configured and broadcast one.
  The texts of error messages are the function \<open>ne_text\<close> of the reason.
\<close>

section \<open>Environment\<close>

datatype exec_reason =
    DuplicateAccount ProgramError
  | ExecutionFailed NodeError
  | InvalidReceipt
  | StorageFailed state_error
  | RpcFailed

record ExecError =
  ee_code :: int
  ee_reason :: exec_reason

datatype Mode = Preflight | Commit

record node_env =
  ne_state :: state_env
  ne_vm :: vm_env
  ne_tx :: "unit tx_env"
  ne_pay :: "Settlement \<Rightarrow> bytes32 option"
  ne_anchor :: "u64 \<Rightarrow> bytes32 \<Rightarrow> bytes option"
  ne_text :: "exec_reason \<Rightarrow> bytes"

abbreviation ne_collection :: "node_env \<Rightarrow> CollectionAccount codec" where
  "ne_collection e \<equiv> le_collection (be_lending (vm_builtins (ne_vm e)))"

type_synonym overlay = "Pubkey \<Rightarrow> StoredAccount option"
type_synonym world = "ctx \<times> NodeState"
type_synonym 'a wexec = "(world, ExecError, 'a) exec"

text \<open>A computation on the thread's context, run on the node.\<close>

definition on_ctx :: "(ctx, 'e, 'a) exec \<Rightarrow> (world, 'e, 'a) exec" where
  "on_ctx m = (\<lambda>(c, s). case m c of (r, c') \<Rightarrow> (r, (c', s)))"

definition exec_error :: "int \<Rightarrow> ('e \<Rightarrow> exec_reason) \<Rightarrow> 'e \<Rightarrow> ExecError" where
  "exec_error code f err = \<lparr> ee_code = code, ee_reason = f err \<rparr>"

section \<open>Lightning invoices\<close>

text \<open>\<open>is_invoice\<close> of \<open>lightning.rs\<close>; what is trimmed at the end does not matter for a prefix.\<close>

definition is_invoice :: "bytes \<Rightarrow> bool" where
  "is_invoice recipient \<longleftrightarrow>
     (let r = to_ascii_lowercase (trim_start recipient)
      in starts_with r (ascii ''lnbc'') \<or> starts_with r (ascii ''lntb'')
         \<or> starts_with r (ascii ''lnbcrt'') \<or> starts_with r (ascii ''lnsb''))"

section \<open>Settlement\<close>

definition settle_one :: "node_env \<Rightarrow> bytes32 \<Rightarrow> Settlement \<Rightarrow> NodeState \<Rightarrow> NodeState" where
  "settle_one e himsha_txid x s =
     (if se_kind x = Repayment \<and> is_invoice (se_recipient x) then s
      else case ne_pay e x of
          Some btc \<Rightarrow> index_btc_settlement btc himsha_txid s
        | None \<Rightarrow> s)"

text \<open>\<open>if account.write_data(&coll).is_err() { error!(..) }\<close>\<close>

definition write_or_log :: "'a codec \<Rightarrow> 'a \<Rightarrow> AccountInfo \<Rightarrow> AccountInfo" where
  "write_or_log c v a = (case write_data c v a of Ok a' \<Rightarrow> a' | _ \<Rightarrow> a)"

fun settle_lending :: "node_env \<Rightarrow> bytes32 \<Rightarrow> accounts \<Rightarrow> NodeState \<Rightarrow> accounts \<times> NodeState" where
  "settle_lending e himsha_txid [] s = ([], s)"
| "settle_lending e himsha_txid (a # as) s =
     (let (a', s') =
        (case read_data (ne_collection e) a of
           Ok coll \<Rightarrow>
             if cl_pending_settlements coll = [] then (a, s)
             else (let (queue, coll) = take_settlements coll
                   in (write_or_log (ne_collection e) coll a, fold (settle_one e himsha_txid) queue s))
         | _ \<Rightarrow> (a, s));
        (as', s'') = settle_lending e himsha_txid as s'
      in (a' # as', s''))"

text \<open>\<open>drain_lending\<close> of \<open>settlement.rs\<close> with no indexer: the queue is cleared, nothing is paid.\<close>

definition drain_account :: "CollectionAccount codec \<Rightarrow> AccountInfo \<Rightarrow> AccountInfo" where
  "drain_account c a =
     (case read_data c a of
        Ok coll \<Rightarrow>
          if cl_pending_settlements coll = [] then a
          else write_or_log c (snd (take_settlements coll)) a
      | _ \<Rightarrow> a)"

definition drain_lending :: "CollectionAccount codec \<Rightarrow> accounts \<Rightarrow> accounts" where
  "drain_lending c accounts = map (drain_account c) accounts"

section \<open>The executor\<close>

definition with_flags :: "AccountMeta \<Rightarrow> AccountInfo \<Rightarrow> AccountInfo" where
  "with_flags meta a = a\<lparr>a_is_signer := am_is_signer meta, a_is_writable := am_is_writable meta\<rparr>"

definition materialize :: "state_env \<Rightarrow> NodeState \<Rightarrow> overlay \<Rightarrow> Pubkey \<Rightarrow> AccountMeta \<Rightarrow> AccountInfo" where
  "materialize e s overlay program_id meta =
     with_flags meta
       (case overlay (am_pubkey meta) of
          Some stored \<Rightarrow> into_account stored (am_pubkey meta)
        | None \<Rightarrow>
            (case load_account e (am_pubkey meta) s of
               Ok (Some stored) \<Rightarrow> into_account stored (am_pubkey meta)
             | _ \<Rightarrow> new_account (am_pubkey meta) program_id 0 0))"

text \<open>The guard, the execution and the check of the receipt for one instruction.\<close>

definition run_instruction ::
  "node_env \<Rightarrow> ProgramRegistry \<Rightarrow> u64 \<Rightarrow> Instruction \<Rightarrow> accounts \<Rightarrow> (ctx, ExecError, StateTransition) exec" where
  "run_instruction e reg timestamp instr accounts =
     xbind (xmap_err (exec_error (- 32002) DuplicateAccount) (xlift (reject_duplicate_writable accounts))) (\<lambda>_.
     xbind (xmap_err (exec_error (- 32002) ExecutionFailed)
       (execute_program (ne_vm e) reg (i_program_id instr)
          \<lparr> ei_accounts = accounts, ei_instruction_data = i_data instr, ei_timestamp = timestamp \<rparr> [])) (\<lambda>transition.
     if transition_verify (vm_sha (ne_vm e)) (vm_accounts (ne_vm e)) transition then xret transition
     else xlift (Err (exec_error (- 32004) (\<lambda>_. InvalidReceipt) ()))))"

definition settle_step ::
  "node_env \<Rightarrow> Mode \<Rightarrow> RuntimeTransaction \<Rightarrow> Instruction \<Rightarrow> accounts \<Rightarrow> accounts wexec" where
  "settle_step e mode tx instr accounts =
     (if mode = Commit \<and> i_program_id instr = lending_program (vm_sha (ne_vm e))
      then xbind (xlift (message_hash (ne_tx e) (tx_message tx))) (\<lambda>txid (c, s).
        case settle_lending e txid accounts s of (accounts', s') \<Rightarrow> (Ok accounts', (c, s')))
      else xret accounts)"

definition extend_overlay :: "accounts \<Rightarrow> overlay \<Rightarrow> overlay" where
  "extend_overlay accounts overlay = fold (\<lambda>a ov. ov(a_key a \<mapsto> stored_from a)) accounts overlay"

fun apply_instructions ::
  "node_env \<Rightarrow> ProgramRegistry \<Rightarrow> RuntimeTransaction \<Rightarrow> Mode \<Rightarrow> Instruction list \<Rightarrow> overlay \<Rightarrow> overlay wexec" where
  "apply_instructions e reg tx mode [] overlay = xret overlay"
| "apply_instructions e reg tx mode (instr # instrs) overlay =
     (\<lambda>(c, s).
        xbind (on_ctx (run_instruction e reg (msg_timestamp (tx_message tx)) instr
          (map (materialize (ne_state e) s overlay (i_program_id instr)) (i_accounts instr)))) (\<lambda>transition.
        xbind (settle_step e mode tx instr (st_updated_accounts transition)) (\<lambda>accounts.
        apply_instructions e reg tx mode instrs (extend_overlay accounts overlay))) (c, s))"

definition commit_overlay :: "node_env \<Rightarrow> overlay \<Rightarrow> unit wexec" where
  "commit_overlay e overlay = (\<lambda>(c, s).
     case map_err (exec_error (- 32001) StorageFailed) (save_accounts_atomic (ne_state e) overlay s) of
       Ok s' \<Rightarrow> (Ok (), (c, s'))
     | Err err \<Rightarrow> (Err err, (c, s))
     | Panic \<Rightarrow> (Panic, (c, s)))"

definition apply_tx :: "node_env \<Rightarrow> ProgramRegistry \<Rightarrow> RuntimeTransaction \<Rightarrow> Mode \<Rightarrow> unit wexec" where
  "apply_tx e reg tx mode =
     xbind (apply_instructions e reg tx mode (msg_instructions (tx_message tx)) Map.empty) (\<lambda>overlay.
     if mode = Commit then commit_overlay e overlay else xret ())"

section \<open>Execution does not depend on the thread\<close>

text \<open>
  What a computation returns depends on the thread it runs on only through the nesting depth,
  and it leaves the depth as it was.
\<close>

definition depth_only :: "(ctx, 'e, 'a) exec \<Rightarrow> bool" where
  "depth_only m \<longleftrightarrow> (\<forall>c d. depth c = depth d \<longrightarrow> depth c \<noteq> - 1 \<longrightarrow>
     fst (m c) = fst (m d) \<and> depth (snd (m c)) = depth c)"

named_theorems depth_intros \<open>computations that depend on the nesting depth only\<close>

lemma depth_only_xlift [depth_intros]: "depth_only (xlift r)"
  by (simp add: depth_only_def)

lemma depth_only_xret [depth_intros]: "depth_only (xret a)"
  by (simp add: depth_only_def)

lemma xmap_err_sel: "fst (xmap_err f m s) = map_err f (fst (m s))" "snd (xmap_err f m s) = snd (m s)"
  by (simp_all add: xmap_err_def case_prod_unfold)

lemma depth_only_xmap_err [depth_intros]: "depth_only m \<Longrightarrow> depth_only (xmap_err f m)"
  unfolding depth_only_def xmap_err_sel by metis

lemma depth_only_if [depth_intros]: "depth_only m \<Longrightarrow> depth_only n \<Longrightarrow> depth_only (if b then m else n)"
  by simp

lemma depth_onlyE:
  assumes "depth_only m" "depth c = depth d" "depth c \<noteq> - 1"
  obtains r c' d' where "m c = (r, c')" "m d = (r, d')" "depth c' = depth c" "depth d' = depth c"
proof -
  have "fst (m c) = fst (m d)" "depth (snd (m c)) = depth c" "depth (snd (m d)) = depth c"
    using assms unfolding depth_only_def by metis+
  then show ?thesis
    using that [of "fst (m c)" "snd (m c)" "snd (m d)"] by (metis prod.collapse)
qed

lemma depth_only_xbind [depth_intros]:
  assumes "depth_only m" "\<And>a. depth_only (f a)"
  shows "depth_only (xbind m f)"
  unfolding depth_only_def
proof (intro allI impI)
  fix c d :: ctx
  assume eq: "depth c = depth d" "depth c \<noteq> - 1"
  obtain r c' d' where m: "m c = (r, c')" "m d = (r, d')" "depth c' = depth c" "depth d' = depth c"
    using assms(1) eq by (rule depth_onlyE)
  show "fst (xbind m f c) = fst (xbind m f d) \<and> depth (snd (xbind m f c)) = depth c"
  proof (cases r)
    case (Ok a)
    obtain q c'' d'' where "f a c' = (q, c'')" "f a d' = (q, d'')" "depth c'' = depth c'"
      using depth_onlyE [OF assms(2), of c' d' a thesis] m eq by metis
    then show ?thesis
      using m Ok by simp
  qed (use m in simp_all)
qed

lemma depth_only_dispatch [depth_intros]: "depth_only (dispatch e pid ts accounts data)"
  unfolding depth_only_def using dispatch_cong dispatch_depth by metis

lemma depth_only_gate_output [depth_intros]: "depth_only (gate_output e pid as bs)"
  unfolding depth_only_def using gate_output_cong gate_output_depth by metis

lemma depth_only_execute_program: "depth_only (execute_program e reg pid input utxos)"
  unfolding execute_program_def execute_native_def execute_def Let_def
  by (intro depth_intros)

lemma depth_only_run_instruction: "depth_only (run_instruction e reg ts instr accounts)"
  unfolding run_instruction_def
  by (intro depth_intros depth_only_execute_program)

section \<open>Settlements touch one index\<close>

definition forget_btc :: "NodeState \<Rightarrow> NodeState" where
  "forget_btc s = s\<lparr>ns_btc_tx_idx := Map.empty\<rparr>"

lemma forget_btc_accounts: "forget_btc s = forget_btc t \<Longrightarrow> ns_accounts s = ns_accounts t"
  by (auto simp: forget_btc_def dest: arg_cong [where f = ns_accounts])

lemma settle_one_forget [simp]: "forget_btc (settle_one e txid x s) = forget_btc s"
  by (simp add: settle_one_def forget_btc_def index_btc_settlement_def split: option.splits)

lemma settle_queue_forget [simp]: "forget_btc (fold (settle_one e txid) queue s) = forget_btc s"
  by (induction queue arbitrary: s) simp_all

lemma settle_lending_drains:
  "fst (settle_lending e txid accounts s) = drain_lending (ne_collection e) accounts"
  "forget_btc (snd (settle_lending e txid accounts s)) = forget_btc s"
  by (induction e txid accounts s rule: settle_lending.induct)
    (auto simp: drain_lending_def drain_account_def take_settlements_def Let_def case_prod_unfold
      split: result.splits)

lemma settle_step_outcome:
  assumes "settle_step e mode tx instr accounts (c, s) = (r, (c', s'))"
  shows "c' = c" "forget_btc s' = forget_btc s" "mode = Preflight \<Longrightarrow> s' = s"
    "mode = Commit \<Longrightarrow> r = Ok accounts' \<Longrightarrow> accounts' =
      (if i_program_id instr = lending_program (vm_sha (ne_vm e)) then drain_lending (ne_collection e) accounts else accounts)"
  using assms settle_lending_drains [of e _ accounts s]
  by (auto simp: settle_step_def xbind_def xlift_def case_prod_unfold split: result.splits if_splits)

section \<open>Atomicity\<close>

lemma on_ctx_eq: "on_ctx m (c, s) = (fst (m c), (snd (m c), s))"
  by (simp add: on_ctx_def case_prod_unfold)

lemma on_ctx_Ok_iff: "on_ctx m (c, s) = (r, (c', s')) \<longleftrightarrow> m c = (r, c') \<and> s' = s"
  by (auto simp: on_ctx_def split: prod.splits)

text \<open>A bind that returned, failed or panicked: where it stopped.\<close>

lemma xbind_cases:
  assumes "xbind m f w = (r, w')"
  obtains (cont) a v where "m w = (Ok a, v)" "f a v = (r, w')"
    | (stop) q where "m w = (q, w')" "\<nexists>a. q = Ok a"
  using assms by (cases "m w"; cases "fst (m w)") (auto simp: xbind_def)

lemma xbind_Err_cases:
  assumes "xbind m f w = (Err err, w')"
  obtains (cont) a v where "m w = (Ok a, v)" "f a v = (Err err, w')"
    | (stop) "m w = (Err err, w')"
  using assms by (cases "m w"; cases "fst (m w)") (auto simp: xbind_def)

lemma apply_instructions_frame:
  assumes "apply_instructions e reg tx mode instrs overlay (c, s) = (r, (c', s'))"
  shows "forget_btc s' = forget_btc s \<and> (mode = Preflight \<longrightarrow> s' = s)"
  using assms
proof (induction instrs arbitrary: overlay c s)
  case (Cons instr instrs)
  from Cons.prems show ?case
    unfolding apply_instructions.simps prod.case
  proof (cases rule: xbind_cases)
    case (cont transition v)
    then obtain c1 where v: "v = (c1, s)"
      by (auto simp: on_ctx_eq)
    from cont(2) show ?thesis
    proof (cases rule: xbind_cases)
      case (cont accounts v')
      then show ?thesis
        using settle_step_outcome(2,3) Cons.IH v by (metis prod.collapse)
    next
      case (stop q)
      then show ?thesis
        using settle_step_outcome [OF stop(1) [unfolded v]] by blast
    qed
  qed (auto simp: on_ctx_eq)
qed simp

lemma commit_overlay_cases:
  assumes "commit_overlay e overlay (c, s) = (r, (c', s'))"
  shows "c' = c" "r = Ok () \<Longrightarrow> save_accounts_atomic (ne_state e) overlay s = Ok s'"
    "r \<noteq> Ok () \<Longrightarrow> s' = s"
  using assms by (auto simp: commit_overlay_def map_err_Ok_iff split: result.splits)

lemma transaction_fails_frame:
  assumes "apply_tx e reg tx mode (c, s) = (r, (c', s'))" "r \<noteq> Ok ()"
  shows "forget_btc s' = forget_btc s"
  using assms(1) unfolding apply_tx_def
proof (cases rule: xbind_cases)
  case (cont overlay v)
  obtain c1 s1 where v: "v = (c1, s1)"
    by (cases v)
  then show ?thesis
    using apply_instructions_frame [OF cont(1) [unfolded v]] cont(2) assms(2)
      commit_overlay_cases(3) [of e overlay c1 s1 r c' s'] by (cases mode) simp_all
qed (use apply_instructions_frame in blast)

text \<open>
  C4. Transactions are all or nothing on the ledger: a preflight leaves the database exactly as
  it was, whatever its outcome, and a commit that fails at any instruction, or while saving,
  changes no table but the index of broadcast settlements; a commit that returns keeps the owner
  index and the account counter right.
\<close>

theorem transaction_atomic:
  assumes "apply_tx e reg tx mode (c, s) = (r, (c', s'))"
  shows "(mode = Preflight \<longrightarrow> s' = s) \<and> (r \<noteq> Ok () \<longrightarrow> forget_btc s' = forget_btc s)
    \<and> (codec_ok (sv_stored (ne_state e)) \<and> index_ok (ne_state e) s \<longrightarrow> index_ok (ne_state e) s')"
proof -
  have idx: "index_ok (ne_state e) t' = index_ok (ne_state e) t" if "forget_btc t' = forget_btc t" for t t'
    using arg_cong [OF that, of ns_owner_idx] arg_cong [OF that, of ns_meta] forget_btc_accounts [OF that]
    by (intro index_ok_frame) (simp_all add: forget_btc_def)
  from assms show ?thesis
    unfolding apply_tx_def
  proof (cases rule: xbind_cases)
    case (cont overlay v)
    obtain c1 s1 where v: "v = (c1, s1)"
      by (cases v)
    have f: "forget_btc s1 = forget_btc s" "mode = Preflight \<longrightarrow> s1 = s"
      using apply_instructions_frame cont(1) v by blast+
    show ?thesis
    proof (cases "mode = Commit")
      case True
      then have "commit_overlay e overlay (c1, s1) = (r, (c', s'))"
        using cont(2) v by simp
      then show ?thesis
        using commit_overlay_cases [of e overlay c1 s1 r c' s'] True f idx [OF f(1)] save_accounts_atomic_ok
        by (metis Mode.distinct(1))
    next
      case False
      then show ?thesis
        using cont(2) v f idx [OF f(1)] by (cases mode) simp_all
    qed
  next
    case (stop q)
    then show ?thesis
      using apply_instructions_frame idx by blast
  qed
qed

section \<open>Errors\<close>

lemma writable_keys_materialize:
  "writable_keys (map (materialize e s overlay pid) metas) = map am_pubkey (filter am_is_writable metas)"
proof -
  have "a_key (materialize e s overlay pid m) = am_pubkey m" "a_is_writable (materialize e s overlay pid m) = am_is_writable m" for m
    by (simp_all add: materialize_def with_flags_def into_account_def new_account_def split: option.split result.split)
  then show ?thesis
    by (induction metas) (simp_all add: writable_keys_def)
qed

text \<open>An error that an instruction of the list can cause.\<close>

definition explains :: "Instruction list \<Rightarrow> ExecError \<Rightarrow> bool" where
  "explains instrs err \<longleftrightarrow> ee_code err = - 32002 \<and>
     ((\<exists>reason. ee_reason err = ExecutionFailed reason)
      \<or> ee_reason err = DuplicateAccount DuplicateWritableAccount
        \<and> (\<exists>instr \<in> set instrs. \<not> distinct (map am_pubkey (filter am_is_writable (i_accounts instr)))))"

lemma run_instruction_Err:
  assumes "run_instruction e reg ts instr (map (materialize se s overlay pid) (i_accounts instr)) c = (Err err, c')"
  shows "explains [instr] err"
proof -
  let ?as = "map (materialize se s overlay pid) (i_accounts instr)"
  from assms show ?thesis
    unfolding run_instruction_def
  proof (cases rule: xbind_Err_cases)
    case (cont u v)
    from cont(2) show ?thesis
    proof (cases rule: xbind_Err_cases)
      case (cont t v')
      then have "transition_verify (vm_sha (ne_vm e)) (vm_accounts (ne_vm e)) t"
        using execute_program_verifies by (auto simp: xmap_err_def map_err_Ok_iff split: prod.splits)
      then show ?thesis
        using cont(2) by simp
    next
      case stop
      then show ?thesis
        by (auto simp: xmap_err_def map_err_Err_iff exec_error_def explains_def split: prod.splits)
    qed
  next
    case stop
    then have "reject_duplicate_writable ?as = Err DuplicateWritableAccount" "err = exec_error (- 32002) DuplicateAccount DuplicateWritableAccount"
      using reject_duplicate_writable_total [of ?as] by (auto simp: xmap_err_def xlift_def map_err_Err_iff)
    moreover from this have "\<not> distinct (writable_keys ?as)"
      using reject_duplicate_writable_Ok_iff [of ?as "()"] by simp
    ultimately show ?thesis
      by (simp add: explains_def exec_error_def writable_keys_materialize)
  qed
qed

lemma settle_step_no_Err: "settle_step e mode tx instr accounts w \<noteq> (Err err, w')"
  by (cases w) (auto simp: settle_step_def xbind_def xlift_def message_hash_def case_prod_unfold split: option.splits)

lemma apply_instructions_Err:
  "apply_instructions e reg tx mode instrs overlay (c, s) = (Err err, (c', s')) \<Longrightarrow> explains instrs err"
proof (induction instrs arbitrary: overlay c s)
  case (Cons instr instrs)
  from Cons.prems show ?case
    unfolding apply_instructions.simps prod.case
  proof (cases rule: xbind_Err_cases)
    case (cont transition v)
    then obtain c1 where v: "v = (c1, s)"
      by (auto simp: on_ctx_eq)
    from cont(2) [unfolded v] show ?thesis
    proof (cases rule: xbind_Err_cases)
      case (cont accounts v')
      then have "explains instrs err"
        by (cases v') (auto dest: Cons.IH)
      then show ?thesis
        by (auto simp: explains_def)
    qed (use settle_step_no_Err in blast)
  next
    case stop
    then have "explains [instr] err"
      by (auto simp: on_ctx_Ok_iff dest: run_instruction_Err)
    then show ?thesis
      by (auto simp: explains_def)
  qed
qed simp

lemma save_each_Err: "save_each e batch added s = Err err \<Longrightarrow> err = Unencodable"
  by (induction e batch added s rule: save_each.induct) (auto simp: to_vec_def Let_def rbind_Err_iff ok_or_Err_iff)

text \<open>
  C38. The errors of an execution tell what happened: a transaction that is refused lists an account
  writable twice in one instruction, or a program failed, both with the code -32002, or, on a commit
  only, an account could not be encoded, with -32001. The check of the receipt, -32004, never refuses
  what the node's own executor returned. In every case the accounts are as before.
\<close>

theorem execution_error_codes:
  assumes "apply_tx e reg tx mode (c, s) = (Err err, (c', s'))"
  shows "(case ee_reason err of
      DuplicateAccount reason \<Rightarrow> ee_code err = - 32002 \<and> reason = DuplicateWritableAccount
        \<and> (\<exists>instr \<in> set (msg_instructions (tx_message tx)). \<not> distinct (map am_pubkey (filter am_is_writable (i_accounts instr))))
    | ExecutionFailed reason \<Rightarrow> ee_code err = - 32002
    | StorageFailed reason \<Rightarrow> ee_code err = - 32001 \<and> reason = Unencodable \<and> mode = Commit
    | InvalidReceipt \<Rightarrow> False
    | RpcFailed \<Rightarrow> False)
    \<and> ns_accounts s' = ns_accounts s"
proof
  show "ns_accounts s' = ns_accounts s"
    by (rule forget_btc_accounts [OF transaction_fails_frame [OF assms]]) simp
  from assms show "case ee_reason err of
      DuplicateAccount reason \<Rightarrow> ee_code err = - 32002 \<and> reason = DuplicateWritableAccount
        \<and> (\<exists>instr \<in> set (msg_instructions (tx_message tx)). \<not> distinct (map am_pubkey (filter am_is_writable (i_accounts instr))))
    | ExecutionFailed reason \<Rightarrow> ee_code err = - 32002
    | StorageFailed reason \<Rightarrow> ee_code err = - 32001 \<and> reason = Unencodable \<and> mode = Commit
    | InvalidReceipt \<Rightarrow> False
    | RpcFailed \<Rightarrow> False"
    unfolding apply_tx_def
  proof (cases rule: xbind_Err_cases)
    case (cont overlay v)
    then have "mode = Commit" "commit_overlay e overlay v = (Err err, (c', s'))"
      by (cases "mode = Commit"; simp)+
    then show ?thesis
      by (cases v) (auto simp: commit_overlay_def map_err_Err_iff exec_error_def save_accounts_atomic_def rbind_Err_iff
          split: result.splits if_splits dest: save_each_Err)
  next
    case stop
    then have "explains (msg_instructions (tx_message tx)) err"
      by (rule apply_instructions_Err)
    then show ?thesis
      by (auto simp: explains_def)
  qed
qed

section \<open>Execution keeps the depth and stores what it can\<close>

lemma apply_tx_depth:
  assumes "apply_tx e reg tx mode (c, s) = (r, (c', s'))" "depth c \<noteq> - 1"
  shows "depth c' = depth c"
proof -
  have instrs: "depth c1 = depth c0"
    if "apply_instructions e reg tx mode instrs overlay (c0, s0) = (q, (c1, s1))" "depth c0 \<noteq> - 1"
    for instrs overlay c0 s0 q c1 s1
    using that
  proof (induction instrs arbitrary: overlay c0 s0)
    case (Cons instr instrs)
    let ?as = "map (materialize (ne_state e) s0 overlay (i_program_id instr)) (i_accounts instr)"
    have dep: "depth (snd (run_instruction e reg (msg_timestamp (tx_message tx)) instr ?as c0)) = depth c0"
      using depth_only_run_instruction Cons.prems(2) unfolding depth_only_def by blast
    from Cons.prems(1) show ?case
      unfolding apply_instructions.simps prod.case
    proof (cases rule: xbind_cases)
      case (cont transition v)
      then obtain c2 where v: "v = (c2, s0)" "depth c2 = depth c0"
        using dep by (auto simp: on_ctx_eq)
      from cont(2) show ?thesis
      proof (cases rule: xbind_cases)
        case (cont accounts v')
        then show ?thesis
          using settle_step_outcome(1) Cons.IH Cons.prems(2) v by (metis prod.collapse)
      next
        case (stop q')
        then show ?thesis
          using settle_step_outcome [OF stop(1) [unfolded v(1)]] v by simp
      qed
    qed (use dep in \<open>auto simp: on_ctx_eq\<close>)
  qed simp
  from assms(1) show ?thesis
    unfolding apply_tx_def
  proof (cases rule: xbind_cases)
    case (cont overlay v)
    obtain c1 s1 where v: "v = (c1, s1)"
      by (cases v)
    show ?thesis
      using instrs [OF cont(1) [unfolded v] assms(2)] cont(2) commit_overlay_cases(1) [of e overlay c1 s1 r c' s']
      by (cases mode) (simp_all add: v)
  next
    case (stop q)
    then show ?thesis
      using instrs assms(2) by blast
  qed
qed

lemma save_each_total:
  assumes "codec_total (sv_stored e)"
  shows "\<exists>added' s'. save_each e batch added s = Ok (added', s')"
proof (induction batch arbitrary: added s)
  case (Cons x batch)
  obtain b where "encode (sv_stored e) (snd x) = Some b"
    using assms unfolding codec_total_def by blast
  then show ?case
    using Cons.IH by (cases x) (simp add: to_vec_def Let_def)
qed simp

lemma commit_overlay_total:
  assumes "codec_total (sv_stored (ne_state e))"
  shows "\<exists>c' s'. commit_overlay e overlay (c, s) = (Ok (), (c', s'))"
proof -
  obtain added' s' where "save_each (ne_state e) (map (\<lambda>k. (k, the (overlay k))) (sv_order (ne_state e) (dom overlay))) 0 s = Ok (added', s')"
    using save_each_total [OF assms] by blast
  then show ?thesis
    by (simp add: commit_overlay_def save_accounts_atomic_def)
qed

section \<open>A block with one transfer\<close>

abbreviation sample_system :: Pubkey where
  "sample_system \<equiv> system_program seed_sha"

definition sample_msg :: Message where
  "sample_msg = message_new [1] [\<lparr> i_program_id = sample_system,
     i_accounts = [meta_writable 1 True, meta_writable 2 False], i_data = [0] \<rparr>] 7"

definition paid_accounts :: accounts where
  "paid_accounts = [(new_account 1 sample_system 70 0)\<lparr>a_is_signer := True\<rparr>, new_account 2 sample_system 30 0]"

definition sample_genesis :: Block where
  "sample_genesis = \<lparr> b_slot = 0, b_parent_slot = 0, b_transactions = [], b_blockhash = 0, b_timestamp = 0, b_state_root = 0 \<rparr>"

definition sample_node :: node_env where
  "sample_node =
     \<lparr> ne_state = sample_state_env\<lparr>sv_stored := plain_codec, sv_status := status_codec, 
         sv_block := \<lparr> encode = (\<lambda>_. Some []), decode = (\<lambda>_. Some sample_genesis) \<rparr>\<rparr>,
       ne_vm = sample_vm\<lparr>vm_accounts := table_codec [paid_accounts]\<rparr>,
       ne_tx = sample_tx_env\<lparr>tx_codec := table_codec [sample_msg, sample_msg\<lparr>msg_signers := []\<rparr>]\<rparr>,
       ne_pay = (\<lambda>_. None), ne_anchor = (\<lambda>_ _. None), ne_text = (\<lambda>_. []) \<rparr>"

definition funded :: NodeState where
  "funded = empty_state\<lparr>ns_accounts := tbl_insert tbl_empty 1 (plain_bytes (sample_stored sample_system 100))\<rparr>"

lemma sample_dispatch:
  "dispatch sample_builtins sample_system 7
     [(new_account 1 sample_system 100 0)\<lparr>a_is_signer := True\<rparr>, new_account 2 sample_system 0 0] [0] c =
   (Ok paid_accounts, record_approved (paid_accounts ! 1) (record_approved (paid_accounts ! 0) (begin_execution c)))"
  by (simp add: dispatch_def run_builtin_def sample_builtins_def pure_program_def System_Program.sample_run
      paid_accounts_def validate_writes_def validate_write_def same_state_def xbind_def xlift_def xret_def)

lemma sample_run_instruction:
  "\<exists>c' t. run_instruction sample_node Map.empty 7 (hd (msg_instructions sample_msg))
      [(new_account 1 sample_system 100 0)\<lparr>a_is_signer := True\<rparr>, new_account 2 sample_system 0 0] c = (Ok t, c')
    \<and> st_updated_accounts t = paid_accounts"
proof -
  have "sample_system \<in> set (builtins seed_sha)"
    by (simp add: builtins_def)
  moreover have "reject_duplicate_writable
      [(new_account 1 sample_system 100 0)\<lparr>a_is_signer := True\<rparr>, new_account 2 sample_system 0 0] = Ok ()"
    by (simp add: new_account_def)
  moreover have "vm_builtins (ne_vm sample_node) = sample_builtins" "be_sha sample_builtins = seed_sha"
    by (simp_all add: sample_node_def sample_vm_def sample_builtins_def)
  ultimately show ?thesis
    by (simp add: run_instruction_def execute_program_def execute_native_def is_builtin_def
        sample_msg_def message_new_def sample_dispatch xbind_def xmap_err_def xlift_def xret_def
        transition_verify_def journal_hash_for_def)
      (simp add: sample_node_def table_codec_def)
qed

lemma sample_apply:
  assumes "ns_accounts s = ns_accounts funded"
  shows "\<exists>c' s'. apply_tx sample_node Map.empty (tx_new sample_msg [5]) mode (c, s) = (Ok (), (c', s'))"
proof -
  obtain c' t where run: "run_instruction sample_node Map.empty 7 (hd (msg_instructions sample_msg))
      [(new_account 1 sample_system 100 0)\<lparr>a_is_signer := True\<rparr>, new_account 2 sample_system 0 0] c = (Ok t, c')"
    "st_updated_accounts t = paid_accounts"
    using sample_run_instruction by blast
  have instrs: "msg_instructions sample_msg = [hd (msg_instructions sample_msg)]" "msg_timestamp sample_msg = 7"
    by (simp_all add: sample_msg_def message_new_def)
  have mat: "map (materialize (ne_state sample_node) s Map.empty (i_program_id (hd (msg_instructions sample_msg))))
      (i_accounts (hd (msg_instructions sample_msg))) =
    [(new_account 1 sample_system 100 0)\<lparr>a_is_signer := True\<rparr>, new_account 2 sample_system 0 0]"
    using assms
    by (simp add: sample_msg_def message_new_def materialize_def meta_writable_def with_flags_def load_account_def
        funded_def sample_node_def from_slice_def sample_stored_def stored_from_def into_account_def new_account_def)
  have "sample_system \<noteq> lending_program seed_sha"
    using distinct_seed_builtins(1) by (simp add: builtins_def)
  then have "settle_step sample_node mode (tx_new sample_msg [5]) (hd (msg_instructions sample_msg)) paid_accounts (c', s)
      = (Ok paid_accounts, (c', s))"
    by (simp add: settle_step_def sample_node_def sample_vm_def sample_builtins_def sample_msg_def message_new_def)
  then have "apply_instructions sample_node Map.empty (tx_new sample_msg [5]) mode (msg_instructions sample_msg) Map.empty (c, s) =
      (Ok (extend_overlay paid_accounts Map.empty), (c', s))"
    using run by (subst instrs(1)) (simp add: tx_new_def instrs(2) mat [unfolded list.map] on_ctx_def xbind_def xret_def)
  then have "apply_tx sample_node Map.empty (tx_new sample_msg [5]) mode (c, s) =
      (if mode = Commit then commit_overlay sample_node (extend_overlay paid_accounts Map.empty) else xret ()) (c', s)"
    by (cases mode) (simp_all add: apply_tx_def xbind_def tx_new_def)
  then show ?thesis
    using commit_overlay_total [of sample_node] by (simp add: sample_node_def xret_def)
qed

text \<open>A transaction that lists account 1 as writable twice.\<close>

definition twice_tx :: RuntimeTransaction where
  "twice_tx = tx_new (message_new [] [\<lparr> i_program_id = 5, i_accounts = [meta_writable 1 False, meta_writable 1 False], i_data = [] \<rparr>] 7) []"

theorem execution_error_codes_witness:
  "\<exists>err w. apply_tx sample_node Map.empty twice_tx Commit (fresh_ctx, funded) = (Err err, w) \<and> ee_code err = - 32002
    \<and> ns_accounts (snd w) = ns_accounts funded"
proof -
  have run: "apply_tx sample_node Map.empty twice_tx Commit (fresh_ctx, funded) =
      (Err (exec_error (- 32002) DuplicateAccount DuplicateWritableAccount), (fresh_ctx, funded))"
    by (simp add: twice_tx_def tx_new_def message_new_def apply_tx_def xbind_def on_ctx_eq run_instruction_def xmap_err_def xlift_def
        materialize_def with_flags_def meta_writable_def into_account_def new_account_def split: option.split result.split)
  from execution_error_codes [OF run] show ?thesis
    using run by (simp add: exec_error_def)
qed

theorem transaction_atomic_witness:
  "snd (snd (apply_tx sample_node Map.empty (tx_new sample_msg [5]) Preflight (fresh_ctx, funded))) = funded
    \<and> (\<exists>c' s'. apply_tx sample_node Map.empty (tx_new sample_msg [5]) Commit (fresh_ctx, funded) = (Ok (), (c', s')))"
proof -
  obtain r c' s' where "apply_tx sample_node Map.empty (tx_new sample_msg [5]) Preflight (fresh_ctx, funded) = (r, (c', s'))"
    by (metis prod.collapse)
  then show ?thesis
    using transaction_atomic [of sample_node Map.empty "tx_new sample_msg [5]" Preflight fresh_ctx funded r c' s']
      sample_apply [OF refl] by simp
qed

end
