(* ===== verification/Follower.thy ===== *)
theory Follower
  imports Node_Exec
begin

text \<open>
  Replay of blocks by a replica, \<open>src/himsha-node/src/follower.rs\<close>: transactions are executed
  again on the replica's own state, account by account, and the block's state root is compared.
  The simulation between the primary's overlay and the replica's table is proved here.
\<close>

section \<open>Replay by a follower\<close>

type_synonym 'a fexec = "(world, exec_reason, 'a) exec"

fun save_all :: "state_env \<Rightarrow> accounts \<Rightarrow> unit fexec" where
  "save_all e [] = xret ()"
| "save_all e (a # as) = (\<lambda>(c, s).
     case save_account e (a_key a) (stored_from a) s of
       Ok s' \<Rightarrow> save_all e as (c, s')
     | Err err \<Rightarrow> (Err (StorageFailed err), (c, s))
     | Panic \<Rightarrow> (Panic, (c, s)))"

fun replay_instructions ::
  "node_env \<Rightarrow> ProgramRegistry \<Rightarrow> RuntimeTransaction \<Rightarrow> Instruction list \<Rightarrow> unit fexec" where
  "replay_instructions e reg tx [] = xret ()"
| "replay_instructions e reg tx (instr # instrs) =
     (\<lambda>(c, s).
        xbind (xmap_err ee_reason (on_ctx (run_instruction e reg (msg_timestamp (tx_message tx)) instr
          (map (materialize (ne_state e) s Map.empty (i_program_id instr)) (i_accounts instr))))) (\<lambda>transition.
        xbind (save_all (ne_state e)
          (if i_program_id instr = lending_program (vm_sha (ne_vm e))
           then drain_lending (ne_collection e) (st_updated_accounts transition)
           else st_updated_accounts transition)) (\<lambda>_.
        replay_instructions e reg tx instrs)) (c, s))"

definition apply_transaction :: "node_env \<Rightarrow> ProgramRegistry \<Rightarrow> RuntimeTransaction \<Rightarrow> unit fexec" where
  "apply_transaction e reg tx = replay_instructions e reg tx (msg_instructions (tx_message tx))"

fun replay_all :: "node_env \<Rightarrow> ProgramRegistry \<Rightarrow> RuntimeTransaction list \<Rightarrow> unit fexec" where
  "replay_all e reg [] = xret ()"
| "replay_all e reg (tx # txs) = xbind (apply_transaction e reg tx) (\<lambda>_. replay_all e reg txs)"

definition diverges :: "state_env \<Rightarrow> Block \<Rightarrow> NodeState \<Rightarrow> bool" where
  "diverges e block s \<longleftrightarrow> b_state_root block \<noteq> 0 \<and> compute_state_root e s \<noteq> b_state_root block"

fun index_all :: "node_env \<Rightarrow> u64 \<Rightarrow> RuntimeTransaction list \<Rightarrow> NodeState \<Rightarrow> ('e, NodeState) result" where
  "index_all e slot [] s = Ok s"
| "index_all e slot (tx # txs) s =
     rbind (message_hash (ne_tx e) (tx_message tx)) (\<lambda>txid.
     index_all e slot txs (index_transaction txid slot s))"

text \<open>\<open>while self.state.current_slot()? < block.slot { self.state.advance_slot() }\<close>\<close>

lemma advance_slot_closer:
  assumes "current_slot s < slot"
  shows "unat slot - unat (current_slot (snd (advance_slot s))) < unat slot - unat (current_slot s)"
proof -
  have "unat (current_slot s + 1) = unat (current_slot s) + 1"
    using assms unat_bound [of slot] by (simp add: word_less_nat_alt unat_add_lem [THEN iffD1])
  then show ?thesis
    using assms by (simp add: word_less_nat_alt advance_slot_def current_slot_def Let_def)
qed

function advance_to :: "u64 \<Rightarrow> NodeState \<Rightarrow> NodeState" where
  "advance_to slot s = (if current_slot s < slot then advance_to slot (snd (advance_slot s)) else s)"
  by auto
termination
  by (relation "measure (\<lambda>(slot, s). unat slot - unat (current_slot s))") (auto dest: advance_slot_closer)

declare advance_to.simps [simp del]

text \<open>A block is replayed and then saved; the value tells whether a divergence was logged.\<close>

definition apply_block :: "node_env \<Rightarrow> ProgramRegistry \<Rightarrow> Block \<Rightarrow> bool fexec" where
  "apply_block e reg block =
     xbind (replay_all e reg (b_transactions block)) (\<lambda>_ (c, s).
       let diverged = diverges (ne_state e) block s in
       case rbind (map_err StorageFailed (to_vec (sv_block (ne_state e)) block)) (\<lambda>bytes.
            index_all e (b_slot block) (b_transactions block) (save_block (b_slot block) bytes s)) of
         Ok s' \<Rightarrow> (Ok diverged, (c, advance_to (b_slot block) s'))
       | Err err \<Rightarrow> (Err err, (c, s))
       | Panic \<Rightarrow> (Panic, (c, s)))"

text \<open>
  \<open>sync_once\<close>: the primary's tip and its blocks come over RPC; \<open>fetch\<close> is the answer to
  \<open>getBlock\<close>, \<open>None\<close> when the call fails and \<open>Some None\<close> when there is no such block.
\<close>

function sync_loop :: "node_env \<Rightarrow> ProgramRegistry \<Rightarrow> (u64 \<Rightarrow> Block option option) \<Rightarrow> u64 \<Rightarrow> u64 \<Rightarrow> unit fexec" where
  "sync_loop e reg fetch local target =
     (if local < target then
        (case fetch (local + 1) of
           None \<Rightarrow> xlift (Err RpcFailed)
         | Some None \<Rightarrow> xret ()
         | Some (Some block) \<Rightarrow>
             xbind (apply_block e reg block) (\<lambda>_. sync_loop e reg fetch (local + 1) target))
      else xret ())"
  by auto
termination
proof (relation "measure (\<lambda>(e, reg, fetch, local, target). unat target - unat local)")
  fix local target :: u64 and e :: node_env and reg :: ProgramRegistry and fetch :: "u64 \<Rightarrow> Block option option" and x y z
  assume lt: "local < target"
  have "unat (local + 1) = unat local + 1"
    using lt unat_bound [of target] by (simp add: word_less_nat_alt unat_add_lem [THEN iffD1])
  then show "((e, reg, fetch, local + 1, target), (e, reg, fetch, local, target))
      \<in> measure (\<lambda>(e, reg, fetch, local, target). unat target - unat local)"
    using lt by (simp add: word_less_nat_alt)
qed simp

declare sync_loop.simps [simp del]

definition sync_once :: "node_env \<Rightarrow> ProgramRegistry \<Rightarrow> u64 option \<Rightarrow> (u64 \<Rightarrow> Block option option) \<Rightarrow> unit fexec" where
  "sync_once e reg tip fetch =
     xbind (xlift (ok_or tip RpcFailed)) (\<lambda>target (c, s). sync_loop e reg fetch (current_slot s) target (c, s))"

section \<open>A replica follows the primary\<close>

text \<open>
  The follower's table is the primary's committed table with the overlay of the running
  transaction written into it.
\<close>

definition synced :: "state_env \<Rightarrow> NodeState \<Rightarrow> overlay \<Rightarrow> NodeState \<Rightarrow> bool" where
  "synced e s overlay t \<longleftrightarrow> finite (dom overlay) \<and> (\<forall>k. tbl_get (ns_accounts t) k =
     (case overlay k of Some a \<Rightarrow> encode (sv_stored e) a | None \<Rightarrow> tbl_get (ns_accounts s) k))"

definition stored_codec_ok :: "state_env \<Rightarrow> bool" where
  "stored_codec_ok e \<longleftrightarrow> codec_ok (sv_stored e) \<and> codec_total (sv_stored e)"

lemma stored_encodes:
  assumes "stored_codec_ok e"
  obtains b where "encode (sv_stored e) a = Some b" "decode (sv_stored e) b = Some a"
  using assms unfolding stored_codec_ok_def codec_total_def by (metis codec_okD not_None_eq)

lemma synced_materialize:
  assumes "stored_codec_ok e" "synced e s overlay t"
  shows "materialize e t Map.empty pid m = materialize e s overlay pid m"
proof (cases "overlay (am_pubkey m)")
  case None
  then have "load_account e (am_pubkey m) t = load_account e (am_pubkey m) s"
    using assms(2) by (simp add: synced_def load_account_def)
  then show ?thesis
    using None by (simp add: materialize_def)
next
  case (Some a)
  obtain b where "encode (sv_stored e) a = Some b" "decode (sv_stored e) b = Some a"
    using assms(1) by (rule stored_encodes)
  then have "load_account e (am_pubkey m) t = Ok (Some a)"
    using assms(2) Some by (simp add: synced_def load_account_def from_slice_def)
  then show ?thesis
    using Some by (simp add: materialize_def)
qed

lemma save_all_synced:
  assumes "stored_codec_ok e" "synced e s overlay t"
  shows "\<exists>t'. save_all e accounts (d, t) = (Ok (), (d, t')) \<and> synced e s (extend_overlay accounts overlay) t'"
  using assms(2)
proof (induction accounts arbitrary: overlay t)
  case Nil
  then show ?case
    by (simp add: extend_overlay_def xret_def)
next
  case (Cons a accounts)
  obtain b where "encode (sv_stored e) (stored_from a) = Some b"
    using assms(1) by (rule stored_encodes)
  then obtain t1 where save: "save_account e (a_key a) (stored_from a) t = Ok t1"
    by (auto simp: save_account_def to_vec_def Let_def)
  then have "synced e s (overlay(a_key a \<mapsto> stored_from a)) t1"
    using Cons.prems save_account_get [OF save] by (simp add: synced_def)
  then show ?case
    using Cons.IH save by (simp add: extend_overlay_def)
qed

lemma replay_simulates:
  assumes "stored_codec_ok (ne_state e)" "depth c \<noteq> - 1" "depth d = depth c"
    and "synced (ne_state e) s overlay t"
    and "apply_instructions e reg tx Commit instrs overlay (c, s) = (Ok overlay', (c', s'))"
  shows "\<exists>d' t'. replay_instructions e reg tx instrs (d, t) = (Ok (), (d', t'))
    \<and> depth d' = depth c \<and> depth c' = depth c \<and> synced (ne_state e) s' overlay' t'"
  using assms(2-5)
proof (induction instrs arbitrary: overlay c d s t)
  case Nil
  then show ?case
    by (auto simp: xret_def)
next
  case (Cons instr instrs)
  let ?as = "map (materialize (ne_state e) s overlay (i_program_id instr)) (i_accounts instr)"
  let ?run = "run_instruction e reg (msg_timestamp (tx_message tx)) instr ?as"
  obtain transition accounts c1 c2 s2 where run: "?run c = (Ok transition, c1)"
    and settle: "settle_step e Commit tx instr (st_updated_accounts transition) (c1, s) = (Ok accounts, (c2, s2))"
    and rest: "apply_instructions e reg tx Commit instrs (extend_overlay accounts overlay) (c2, s2) = (Ok overlay', (c', s'))"
    using Cons.prems(4) by (auto simp: monad_iffs on_ctx_Ok_iff)
  obtain q c1' d1 where "?run c = (q, c1')" "?run d = (q, d1)" "depth c1' = depth c" "depth d1 = depth c"
    using depth_only_run_instruction [of e reg "msg_timestamp (tx_message tx)" instr ?as]
      Cons.prems(2) [symmetric] Cons.prems(1) by (rule depth_onlyE)
  then have run': "?run d = (Ok transition, d1)" and dep: "depth c1 = depth c" "depth d1 = depth c"
    using run by auto
  note out = settle_step_outcome [OF settle]
  have synced': "synced (ne_state e) s2 overlay t"
    using Cons.prems(3) unfolding synced_def forget_btc_accounts [OF out(2)] .
  obtain t' where t': "save_all (ne_state e) accounts (d1, t) = (Ok (), (d1, t'))"
    "synced (ne_state e) s2 (extend_overlay accounts overlay) t'"
    using save_all_synced [OF assms(1) synced'] by blast
  have same: "map (materialize (ne_state e) t Map.empty (i_program_id instr)) (i_accounts instr) = ?as"
    using synced_materialize [OF assms(1) Cons.prems(3)] by simp
  have "xmap_err ee_reason (on_ctx ?run) (d, t) = (Ok transition, (d1, t))"
    using run' by (simp add: xmap_err_def on_ctx_def)
  then have "replay_instructions e reg tx (instr # instrs) (d, t) = replay_instructions e reg tx instrs (d1, t')"
    unfolding replay_instructions.simps prod.case same
    using t'(1) out(4) [OF refl refl] by simp
  moreover have "depth c2 \<noteq> - 1" "depth d1 = depth c2" "depth c2 = depth c"
    using dep out(1) Cons.prems(1) by simp_all
  ultimately show ?case
    using Cons.IH [OF _ _ t'(2) rest, of d1] by simp
qed

lemma synced_empty [simp]: "synced e s Map.empty t \<longleftrightarrow> ns_accounts t = ns_accounts s"
  by (auto simp: synced_def intro: tbl_eqI)

lemma transaction_replays:
  assumes "stored_codec_ok (ne_state e)" "order_ok (ne_state e)" "depth c \<noteq> - 1" "depth d = depth c"
    and "ns_accounts t = ns_accounts s" "apply_tx e reg tx Commit (c, s) = (Ok (), (c', s'))"
  shows "\<exists>d' t'. apply_transaction e reg tx (d, t) = (Ok (), (d', t')) \<and> ns_accounts t' = ns_accounts s'
    \<and> depth d' = depth c \<and> depth c' = depth c"
proof -
  obtain overlay c1 s1 where run: "apply_instructions e reg tx Commit (msg_instructions (tx_message tx)) Map.empty (c, s) = (Ok overlay, (c1, s1))"
    and com: "commit_overlay e overlay (c1, s1) = (Ok (), (c', s'))"
    using assms(6) by (auto simp: apply_tx_def monad_iffs)
  obtain d' t' where rep: "apply_transaction e reg tx (d, t) = (Ok (), (d', t'))"
    and dep: "depth d' = depth c" "depth c1 = depth c" and sync: "synced (ne_state e) s1 overlay t'"
    using replay_simulates [OF assms(1,3,4) _ run, of t] assms(5) by (auto simp: apply_transaction_def)
  have "save_accounts_atomic (ne_state e) overlay s1 = Ok s'" "c' = c1"
    using commit_overlay_cases [OF com] by simp_all
  then have "ns_accounts t' = ns_accounts s'"
    using sync save_accounts_atomic_get [OF _ assms(2), of overlay s1 s'] by (intro tbl_eqI) (simp add: synced_def)
  then show ?thesis
    using rep dep \<open>c' = c1\<close> by auto
qed

end
