(* ===== verification/Duplicate_Accounts.thy ===== *)
theory Duplicate_Accounts
  imports Follower
begin

text \<open>
  The duplicate check of the executor (\<open>reject_duplicate_writable\<close> of
  \<open>src/himsha-runtime/src/account.rs\<close>, called in \<open>src/himsha-node/src/execution.rs\<close>) together with
  the system program: what an instruction can do that names one account twice, once writable and
  once read-only.
\<close>

section \<open>A transfer to oneself\<close>

text \<open>The two copies of an account that the executor hands to the program.\<close>

definition paying_copy :: "StoredAccount \<Rightarrow> Pubkey \<Rightarrow> AccountInfo" where
  "paying_copy a k = (into_account a k)\<lparr>a_is_signer := True\<rparr>"

definition receiving_copy :: "StoredAccount \<Rightarrow> Pubkey \<Rightarrow> AccountInfo" where
  "receiving_copy a k = (into_account a k)\<lparr>a_is_writable := False\<rparr>"

definition self_transfer :: "sha256 \<Rightarrow> Pubkey \<Rightarrow> bytes \<Rightarrow> Instruction" where
  "self_transfer sha k data =
     \<lparr> i_program_id = system_program sha, i_accounts = [meta_writable k True, meta_readonly k False], i_data = data \<rparr>"

definition inflated :: "StoredAccount \<Rightarrow> Pubkey \<Rightarrow> u64 \<Rightarrow> accounts" where
  "inflated a k n =
     [(paying_copy a k)\<lparr>a_lamports := s_lamports a - n\<rparr>, (receiving_copy a k)\<lparr>a_lamports := s_lamports a + n\<rparr>]"

lemmas copy_defs = paying_copy_def receiving_copy_def into_account_def inflated_def

lemma self_transfer_process:
  assumes "decode c data = Some (Sys_Transfer n)" "n \<le> s_lamports a" "unat (s_lamports a) + unat n < 2 ^ 64"
  shows "system_process c [paying_copy a k, receiving_copy a k] data = Ok (inflated a k n)"
  using assms by (simp add: system_process_def sys_process_transfer_def ensure_signers_def deduct_lamports_def
      checked_sub_def checked_add_def copy_defs Let_def)

lemma self_transfer_dispatch:
  assumes "decode (be_system be) data = Some (Sys_Transfer n)" "n \<le> s_lamports a"
    and "unat (s_lamports a) + unat n < 2 ^ 64" "s_owner a = system_program (be_sha be)"
  shows "\<exists>c'. dispatch be (system_program (be_sha be)) ts [paying_copy a k, receiving_copy a k] data c = (Ok (inflated a k n), c')"
proof -
  have "a_owner (paying_copy a k) = s_owner a" "a_owner (receiving_copy a k) = s_owner a"
    by (simp_all add: copy_defs)
  moreover have "\<exists>c'. validate_writes (s_owner a) [p, q] [p', q'] c = (Ok [p', q'], c')"
    if "a_owner p = s_owner a" "a_owner q = s_owner a" for p q p' q' c
    using that by (auto simp: validate_writes_def validate_write_def xbind_def xret_def)
  ultimately show ?thesis
    using self_transfer_process [OF assms(1-3), of k] assms(4)
    by (simp add: dispatch_def run_builtin_def pure_program_def xbind_def xlift_def) (simp add: inflated_def)
qed

lemma self_transfer_run:
  assumes "decode (be_system (vm_builtins (ne_vm e))) data = Some (Sys_Transfer n)" "n \<le> s_lamports a"
    and "unat (s_lamports a) + unat n < 2 ^ 64" "s_owner a = system_program (vm_sha (ne_vm e))"
    and "codec_total (vm_accounts (ne_vm e))"
  shows "\<exists>t c'. run_instruction e reg ts (self_transfer (vm_sha (ne_vm e)) k data) [paying_copy a k, receiving_copy a k] c = (Ok t, c')
    \<and> st_updated_accounts t = inflated a k n"
proof -
  obtain c' where run: "dispatch (vm_builtins (ne_vm e)) (system_program (vm_sha (ne_vm e))) ts [paying_copy a k, receiving_copy a k] data c
      = (Ok (inflated a k n), c')"
    using self_transfer_dispatch [OF assms(1-4)] by blast
  obtain b where "encode (vm_accounts (ne_vm e)) (inflated a k n) = Some b"
    using assms(5) unfolding codec_total_def by blast
  moreover have "reject_duplicate_writable [paying_copy a k, receiving_copy a k] = Ok ()"
    by (simp add: copy_defs)
  ultimately show ?thesis
    using run by (simp add: run_instruction_def self_transfer_def execute_program_def execute_native_def is_builtin_def builtins_def
        xbind_def xmap_err_def xlift_def xret_def transition_verify_def journal_hash_for_def)
qed

text \<open>
  Naming one's own account twice makes money: a transaction with one system transfer of \<open>n\<close>
  lamports from an account to itself, listed as writable signer and again as read-only, passes the
  duplicate check, commits, and leaves the account with \<open>n\<close> lamports more than before.
\<close>

theorem self_transfer_inflates:
  assumes "decode (be_system (vm_builtins (ne_vm e))) data = Some (Sys_Transfer n)"
    and "load_account (ne_state e) k s = Ok (Some a)" "s_owner a = system_program (vm_sha (ne_vm e))"
    and "n \<le> s_lamports a" "unat (s_lamports a) + unat n < 2 ^ 64"
    and "msg_instructions (tx_message tx) = [self_transfer (vm_sha (ne_vm e)) k data]"
    and "system_program (vm_sha (ne_vm e)) \<noteq> lending_program (vm_sha (ne_vm e))"
    and "codec_total (vm_accounts (ne_vm e))" "stored_codec_ok (ne_state e)" "order_ok (ne_state e)"
  shows "\<exists>c' s' a'. apply_tx e reg tx Commit (c, s) = (Ok (), (c', s'))
    \<and> load_account (ne_state e) k s' = Ok (Some a') \<and> s_lamports a' = s_lamports a + n"
proof -
  let ?i = "self_transfer (vm_sha (ne_vm e)) k data"
  have mat: "map (materialize (ne_state e) s Map.empty (i_program_id ?i)) (i_accounts ?i) = [paying_copy a k, receiving_copy a k]"
    using assms(2) by (simp add: self_transfer_def materialize_def with_flags_def meta_writable_def meta_readonly_def copy_defs)
  obtain t c' where run: "run_instruction e reg (msg_timestamp (tx_message tx)) ?i [paying_copy a k, receiving_copy a k] c = (Ok t, c')"
    and t: "st_updated_accounts t = inflated a k n"
    using self_transfer_run [OF assms(1,4,5,3,8)] by blast
  have settle: "settle_step e Commit tx ?i (inflated a k n) = xret (inflated a k n)"
    using assms(7) by (simp add: settle_step_def self_transfer_def)
  define a' where "a' = stored_from ((receiving_copy a k)\<lparr>a_lamports := s_lamports a + n\<rparr>)"
  have overlay: "extend_overlay (inflated a k n) Map.empty = [k \<mapsto> a']"
    by (simp add: extend_overlay_def a'_def copy_defs)
  have "apply_instructions e reg tx Commit [?i] Map.empty (c, s) = (Ok [k \<mapsto> a'], (c', s))"
    using run t settle overlay by (simp add: mat [unfolded list.map] mat on_ctx_def xbind_def xret_def)
  moreover obtain d s' where saved: "commit_overlay e [k \<mapsto> a'] (c', s) = (Ok (), (d, s'))"
    using commit_overlay_total [of e] assms(9) unfolding stored_codec_ok_def by blast
  ultimately have "apply_tx e reg tx Commit (c, s) = (Ok (), (d, s'))"
    by (simp add: apply_tx_def assms(6) xbind_def)
  moreover have "load_account (ne_state e) k s' = Ok (Some a')"
  proof -
    have "save_accounts_atomic (ne_state e) [k \<mapsto> a'] s = Ok s'"
      using saved by (cases "save_accounts_atomic (ne_state e) [k \<mapsto> a'] s") (auto simp: commit_overlay_def)
    moreover obtain b where b: "encode (sv_stored (ne_state e)) a' = Some b"
      using assms(9) unfolding stored_codec_ok_def codec_total_def by blast
    ultimately show ?thesis
      using save_accounts_atomic_get [of "ne_state e" "[k \<mapsto> a']" s s' k] assms(9,10) codec_okD [OF _ b]
      by (simp add: stored_codec_ok_def load_account_def from_slice_def)
  qed
  moreover have "s_lamports a' = s_lamports a + n"
    by (simp add: a'_def stored_from_def)
  ultimately show ?thesis
    by blast
qed

definition sample_inflation :: node_env where
  "sample_inflation = sample_node\<lparr>ne_vm := sample_vm\<lparr>vm_accounts := \<lparr> encode = (\<lambda>_. Some []), decode = (\<lambda>_. None) \<rparr>\<rparr>\<rparr>"

theorem self_transfer_inflates_witness:
  "\<exists>c' s' a'. apply_tx sample_inflation Map.empty (tx_new (message_new [1] [self_transfer seed_sha 1 [0]] 7) [5]) Commit (fresh_ctx, funded)
      = (Ok (), (c', s'))
    \<and> load_account (ne_state sample_inflation) 1 s' = Ok (Some a') \<and> s_lamports a' = 130"
proof -
  have env: "vm_builtins (ne_vm sample_inflation) = sample_builtins" "be_sha sample_builtins = seed_sha"
    "be_system sample_builtins = System_Program.sample_codec" "ne_state sample_inflation = ne_state sample_node"
    by (simp_all add: sample_inflation_def sample_vm_def sample_builtins_def)
  have "decode (be_system (vm_builtins (ne_vm sample_inflation))) [0] = Some (Sys_Transfer 30)"
    by (simp add: env System_Program.sample_codec_def table_codec_def)
  moreover have "load_account (ne_state sample_inflation) 1 funded = Ok (Some (sample_stored sample_system 100))"
    by (simp add: env load_account_def funded_def sample_node_def from_slice_def)
  moreover have "sample_system \<noteq> lending_program seed_sha"
    using distinct_seed_builtins(1) by (simp add: builtins_def)
  moreover have "codec_total (vm_accounts (ne_vm sample_inflation))"
    by (simp add: sample_inflation_def codec_total_def)
  moreover have "stored_codec_ok (ne_state sample_inflation)" "order_ok (ne_state sample_inflation)"
    by (simp_all add: env stored_codec_ok_def order_ok_def sample_node_def sample_state_env_def)
  moreover have "msg_instructions (tx_message (tx_new (message_new [1] [self_transfer seed_sha 1 [0]] 7) [5])) = [self_transfer seed_sha 1 [0]]"
    by (simp add: tx_new_def message_new_def)
  ultimately show ?thesis
    using self_transfer_inflates [of sample_inflation "[0]" 30 1 funded "sample_stored sample_system 100"
        "tx_new (message_new [1] [self_transfer seed_sha 1 [0]] 7) [5]" Map.empty fresh_ctx]
    by (simp add: env sample_stored_def stored_from_def new_account_def)
qed

end
