(* ===== verification/Block_Producer.thy ===== *)
theory Block_Producer
  imports Follower
begin

text \<open>
  Production of a block, \<open>src/himsha-node/src/block_producer.rs\<close>: the queued transactions are
  executed in order, the block is formed, saved and indexed, and its root may be anchored. The
  clock is the parameter \<open>ts\<close> and the anchoring interval an argument. The properties of the
  node as a whole, agreement of a replica and final outcomes, are proved here.
\<close>

section \<open>Block production\<close>

text \<open>\<open>let _ = self.state.f(..)\<close>: a failed write is dropped.\<close>

fun or_keep :: "NodeState \<Rightarrow> NodeState sresult \<Rightarrow> NodeState" where
  "or_keep s (Ok s') = s'"
| "or_keep s _ = s"

fun execute_batch ::
  "node_env \<Rightarrow> ProgramRegistry \<Rightarrow> u64 \<Rightarrow> RuntimeTransaction list \<Rightarrow> RuntimeTransaction list fexec" where
  "execute_batch e reg slot [] = xret []"
| "execute_batch e reg slot (tx # batch) = (\<lambda>(c, s).
     case message_hash (ne_tx e) (tx_message tx) of
       Ok txid \<Rightarrow>
         (case apply_tx e reg tx Commit (c, s) of
            (Ok u, w) \<Rightarrow> xbind (execute_batch e reg slot batch) (\<lambda>included. xret (tx # included)) w
          | (Err err, (c', s')) \<Rightarrow>
              execute_batch e reg slot batch
                (c', or_keep s' (rbind (mark_failed_unless_succeeded (ne_state e) txid slot
                        (ne_text e (ee_reason err)) s') (\<lambda>(_, t). Ok t)))
          | (Panic, w) \<Rightarrow> (Panic, w))
     | Err err \<Rightarrow> (Err err, (c, s))
     | Panic \<Rightarrow> (Panic, (c, s)))"

fun finish_all :: "node_env \<Rightarrow> u64 \<Rightarrow> RuntimeTransaction list \<Rightarrow> NodeState \<Rightarrow> ('e, NodeState) result" where
  "finish_all e slot [] s = Ok s"
| "finish_all e slot (tx # txs) s =
     rbind (message_hash (ne_tx e) (tx_message tx)) (\<lambda>txid.
     let s = index_transaction txid slot s in
     finish_all e slot txs (or_keep s (set_tx_status (ne_state e) txid (Succeeded slot) s)))"

definition anchor_block :: "node_env \<Rightarrow> u64 \<Rightarrow> u64 \<Rightarrow> bytes32 \<Rightarrow> NodeState \<Rightarrow> NodeState" where
  "anchor_block e anchor_interval slot state_root s =
     (if 0 < anchor_interval \<and> slot mod anchor_interval = 0 then
        (case ne_anchor e slot state_root of
           Some txid \<Rightarrow> or_keep s (record_anchor (ne_state e) slot state_root txid s)
         | None \<Rightarrow> s)
      else s)"

text \<open>What a round does once its transactions have run: form the block, save it, index it, anchor it.\<close>

definition form_block ::
  "node_env \<Rightarrow> u64 \<Rightarrow> u64 \<Rightarrow> u64 \<Rightarrow> RuntimeTransaction list \<Rightarrow> NodeState \<Rightarrow> (exec_reason, Block \<times> NodeState) result" where
  "form_block e anchor_interval ts slot included s =
     (let state_root = compute_state_root (ne_state e) s in
      rbind (new_with_root (ne_tx e) slot (saturating_sub slot 1) included ts state_root) (\<lambda>block.
      let bytes = (case encode (sv_block (ne_state e)) block of Some b \<Rightarrow> b | None \<Rightarrow> []) in
      rbind (finish_all e slot (b_transactions block) (save_block slot bytes s)) (\<lambda>s.
      Ok (block, anchor_block e anchor_interval slot state_root s))))"

text \<open>One round of \<open>BlockProducer::run\<close> on the transactions drained from the queue.\<close>

definition produce_block ::
  "node_env \<Rightarrow> ProgramRegistry \<Rightarrow> u64 \<Rightarrow> u64 \<Rightarrow> RuntimeTransaction list \<Rightarrow> Block option fexec" where
  "produce_block e reg anchor_interval ts batch =
     (if batch = [] then xret None
      else (\<lambda>(c, s).
        case advance_slot s of (slot, s) \<Rightarrow>
        xbind (execute_batch e reg slot batch) (\<lambda>included (c, s).
          case form_block e anchor_interval ts slot included s of
            Ok (block, s') \<Rightarrow> (Ok (Some block), (c, s'))
          | Err err \<Rightarrow> (Err err, (c, s))
          | Panic \<Rightarrow> (Panic, (c, s))) (c, s)))"

lemma mark_failed_accounts:
  "ns_accounts (or_keep s (rbind (mark_failed_unless_succeeded e txid slot err s) (\<lambda>(_, t). Ok t))) = ns_accounts s"
  by (cases "get_tx_status e txid s"; cases "encode (sv_status e) (Failed slot err)")
    (simp_all add: mark_failed_unless_succeeded_def set_tx_status_def to_vec_def)

lemma batch_replays:
  assumes "stored_codec_ok (ne_state e)" "order_ok (ne_state e)" "depth c \<noteq> - 1" "depth d = depth c"
    and "ns_accounts t = ns_accounts s" "execute_batch e reg slot batch (c, s) = (Ok included, (c', s'))"
  shows "\<exists>d' t'. replay_all e reg included (d, t) = (Ok (), (d', t')) \<and> ns_accounts t' = ns_accounts s'
    \<and> depth d' = depth c \<and> depth c' = depth c"
  using assms(3-6)
proof (induction batch arbitrary: c d s t included)
  case Nil
  then show ?case
    by (auto simp: xret_def)
next
  case (Cons tx batch)
  obtain txid where txid: "message_hash (ne_tx e) (tx_message tx) = (Ok txid :: (exec_reason, bytes32) result)"
    using Cons.prems(4) by (auto split: result.splits)
  obtain r c1 s1 where run: "apply_tx e reg tx Commit (c, s) = (r, (c1, s1))"
    by (metis prod.collapse)
  note dep = apply_tx_depth [OF run Cons.prems(1)]
  show ?case
  proof (cases r)
    case (Ok u)
    then obtain rest where inc: "included = tx # rest"
      and more: "execute_batch e reg slot batch (c1, s1) = (Ok rest, (c', s'))"
      using Cons.prems(4) txid run by (auto simp: monad_iffs)
    obtain d1 t1 where one: "apply_transaction e reg tx (d, t) = (Ok (), (d1, t1))"
      "ns_accounts t1 = ns_accounts s1" "depth d1 = depth c"
      using transaction_replays [OF assms(1,2) Cons.prems(1-3), of reg tx c1 s1] run Ok by auto
    obtain d2 t2 where "replay_all e reg rest (d1, t1) = (Ok (), (d2, t2))" "ns_accounts t2 = ns_accounts s'"
      "depth d2 = depth c" "depth c' = depth c"
      using Cons.IH [of c1 d1 t1 s1 rest] one dep Cons.prems(1) more by auto
    then show ?thesis
      using inc one(1) by (auto simp: monad_iffs)
  next
    case (Err err)
    let ?s2 = "or_keep s1 (rbind (mark_failed_unless_succeeded (ne_state e) txid slot (ne_text e (ee_reason err)) s1) (\<lambda>(_, t). Ok t))"
    have more: "execute_batch e reg slot batch (c1, ?s2) = (Ok included, (c', s'))"
      using Cons.prems(4) txid run Err by simp
    have "ns_accounts s1 = ns_accounts s"
      using transaction_fails_frame [OF run] Err by (intro forget_btc_accounts) simp
    then have "depth c1 \<noteq> - 1" "depth d = depth c1" "ns_accounts t = ns_accounts ?s2"
      using dep Cons.prems(1-3) unfolding mark_failed_accounts by simp_all
    from Cons.IH [OF this more] show ?thesis
      using dep by simp
  next
    case Panic
    then show ?thesis
      using Cons.prems(4) txid run by simp
  qed
qed

section \<open>Blocks\<close>

lemma compute_state_root_cong:
  "ns_accounts s = ns_accounts t \<Longrightarrow> compute_state_root e s = compute_state_root e t"
  by (simp add: compute_state_root_def state_leaves_def)

lemma index_transaction_sel [simp]:
  "ns_accounts (index_transaction tx slot s) = ns_accounts s"
  "meta_get (index_transaction tx slot s) Slot = meta_get s Slot"
  by (simp_all add: index_transaction_def Let_def meta_get_def meta_put_def)

lemma or_keep_status [simp]:
  "ns_accounts (or_keep s (set_tx_status e txid st s)) = ns_accounts s"
  "ns_meta (or_keep s (set_tx_status e txid st s)) = ns_meta s"
  by (cases "encode (sv_status e) st"; simp add: set_tx_status_def to_vec_def)+

lemma finish_all_accounts: "finish_all e slot txs s = Ok s' \<Longrightarrow> ns_accounts s' = ns_accounts s"
  by (induction e slot txs s rule: finish_all.induct) (auto simp: monad_iffs Let_def)

text \<open>Indexing replays whatever finishing did: both only need the message hashes.\<close>

lemma index_all_follows:
  assumes "finish_all e slot txs s = Ok s'"
  shows "\<exists>t'. index_all e slot txs t = Ok t' \<and> ns_accounts t' = ns_accounts t \<and> current_slot t' = current_slot t"
  using assms
proof (induction txs arbitrary: s t)
  case (Cons tx txs)
  obtain b where "encode (tx_codec (ne_tx e)) (tx_message tx) = Some b"
    using Cons.prems by (auto simp: monad_iffs)
  then show ?case
    using Cons by (fastforce simp: message_hash_def current_slot_def Let_def)
qed simp

lemma advance_to_sel:
  "ns_accounts (advance_to slot s) = ns_accounts s \<and> (current_slot s \<le> slot \<longrightarrow> current_slot (advance_to slot s) = slot)"
proof (induction slot s rule: advance_to.induct)
  case (1 slot s)
  show ?case
  proof (cases "current_slot s < slot")
    case True
    moreover have "ns_accounts (snd (advance_slot s)) = ns_accounts s" "current_slot (snd (advance_slot s)) = current_slot s + 1"
      by (simp_all add: advance_slot_def current_slot_def Let_def)
    moreover have "current_slot s + 1 \<le> slot"
      using True by (rule inc_le)
    ultimately show ?thesis
      using "1.IH" [OF True] advance_to.simps [of slot s] by simp
  next
    case False
    then show ?thesis
      using advance_to.simps [of slot s] by auto
  qed
qed

lemma anchor_block_accounts [simp]: "ns_accounts (anchor_block e n slot root s) = ns_accounts s"
  by (auto simp: anchor_block_def record_anchor_def to_vec_def meta_put_def Let_def split: option.splits)
    (cases "encode (sv_anchor (ne_state e)) \<lparr>ar_slot = slot, ar_state_root = root, ar_btc_txid = the (ne_anchor e slot root)\<rparr>"; simp)

lemma save_account_slot: "save_account e k a s = Ok s' \<Longrightarrow> current_slot s' = current_slot s"
  by (auto simp: save_account_def monad_iffs Let_def current_slot_def)

lemma save_all_slot: "save_all e accounts (d, t) = (r, (d', t')) \<Longrightarrow> current_slot t' = current_slot t"
  by (induction accounts arbitrary: d t) (auto dest: save_account_slot split: result.splits)

lemma replay_slot:
  "replay_instructions e reg tx instrs (d, t) = (Ok u, (d', t')) \<Longrightarrow> current_slot t' = current_slot t"
  by (induction instrs arbitrary: d t)
    (auto simp: monad_iffs on_ctx_Ok_iff split: if_splits dest!: save_all_slot)

lemma replay_all_slot: "replay_all e reg txs (d, t) = (Ok u, (d', t')) \<Longrightarrow> current_slot t' = current_slot t"
  by (induction txs arbitrary: d t) (auto simp: monad_iffs apply_transaction_def dest!: replay_slot)

lemma committed_iff:
  "(case r of Ok (x, y) \<Rightarrow> (Ok (Some x), (c, y)) | Err err \<Rightarrow> (Err err, w) | Panic \<Rightarrow> (Panic, w)) = (Ok (Some a), (c', b))
     \<longleftrightarrow> r = Ok (a, b) \<and> c' = c"
  by (cases r) auto

lemma produce_block_cases:
  assumes "produce_block e reg n ts batch (c, s) = (Ok (Some block), (c', s'))"
  obtains s1 s2 where
    "execute_batch e reg (b_slot block) batch (c, snd (advance_slot s)) = (Ok (b_transactions block), (c', s1))"
    "b_state_root block = compute_state_root (ne_state e) s1" "b_slot block = current_slot s + 1"
    "finish_all e (b_slot block) (b_transactions block) (save_block (b_slot block)
       (case encode (sv_block (ne_state e)) block of Some b \<Rightarrow> b | None \<Rightarrow> []) s1) = (Ok s2 :: (exec_reason, NodeState) result)"
    "s' = anchor_block e n (b_slot block) (b_state_root block) s2"
proof -
  let ?slot = "current_slot s + 1"
  define s0 where "s0 = snd (advance_slot s)"
  then have slot: "advance_slot s = (?slot, s0)"
    by (simp add: advance_slot_def current_slot_def Let_def)
  obtain included s1 s2 where run: "execute_batch e reg ?slot batch (c, s0) = (Ok included, (c', s1))"
    and new: "new_with_root (ne_tx e) ?slot (saturating_sub ?slot 1) included ts (compute_state_root (ne_state e) s1)
      = (Ok block :: (exec_reason, Block) result)"
    and fin: "finish_all e ?slot (b_transactions block) (save_block ?slot
       (case encode (sv_block (ne_state e)) block of Some b \<Rightarrow> b | None \<Rightarrow> []) s1) = (Ok s2 :: (exec_reason, NodeState) result)"
    and s': "s' = anchor_block e n ?slot (compute_state_root (ne_state e) s1) s2"
    using assms slot by (auto simp: produce_block_def form_block_def monad_iffs committed_iff Let_def split: if_splits)
  show ?thesis
    using new_with_root_Ok [OF new] run fin s' that unfolding s0_def by simp
qed

lemma replica_block:
  assumes "stored_codec_ok (ne_state e)" "order_ok (ne_state e)" "depth c \<noteq> - 1" "depth d = depth c"
    and "ns_accounts t = ns_accounts s" "encode (sv_block (ne_state e)) block \<noteq> None"
    and "produce_block e reg n ts batch (c, s) = (Ok (Some block), (c', s'))"
  shows "\<exists>d' t'. apply_block e reg block (d, t) = (Ok False, (d', t')) \<and> ns_accounts t' = ns_accounts s'
    \<and> compute_state_root (ne_state e) t' = b_state_root block
    \<and> (current_slot t \<le> b_slot block \<longrightarrow> current_slot t' = b_slot block)
    \<and> depth d' = depth c \<and> depth c' = depth c"
proof -
  obtain s1 s2 where p: "execute_batch e reg (b_slot block) batch (c, snd (advance_slot s)) = (Ok (b_transactions block), (c', s1))"
    "b_state_root block = compute_state_root (ne_state e) s1"
    "finish_all e (b_slot block) (b_transactions block) (save_block (b_slot block)
       (case encode (sv_block (ne_state e)) block of Some b \<Rightarrow> b | None \<Rightarrow> []) s1) = (Ok s2 :: (exec_reason, NodeState) result)"
    "s' = anchor_block e n (b_slot block) (b_state_root block) s2"
    using assms(7) by (rule produce_block_cases)
  have acc: "ns_accounts s' = ns_accounts s1"
    using finish_all_accounts [OF p(3)] by (simp add: p(4) save_block_def)
  have "ns_accounts t = ns_accounts (snd (advance_slot s))"
    using assms(5) by (simp add: advance_slot_def Let_def)
  then obtain d' t1 where rep: "replay_all e reg (b_transactions block) (d, t) = (Ok (), (d', t1))" "ns_accounts t1 = ns_accounts s1"
    and dep: "depth d' = depth c" "depth c' = depth c"
    using batch_replays [OF assms(1-4) _ p(1)] by blast
  have "\<not> diverges (ne_state e) block t1"
    using rep(2) compute_state_root_cong [OF rep(2), of "ne_state e"] p(2) by (simp add: diverges_def)
  moreover obtain b where b: "encode (sv_block (ne_state e)) block = Some b"
    using assms(6) by blast
  moreover obtain t2 where "index_all e (b_slot block) (b_transactions block) (save_block (b_slot block) b t1)
      = (Ok t2 :: (exec_reason, NodeState) result)" "ns_accounts t2 = ns_accounts t1" "current_slot t2 = current_slot t1"
    using index_all_follows [OF p(3), of "save_block (b_slot block) b t1"]
    by (auto simp: save_block_def current_slot_def meta_get_def)
  ultimately have "apply_block e reg block (d, t) = (Ok False, (d', advance_to (b_slot block) t2))"
    using rep(1) by (simp add: apply_block_def to_vec_def Let_def)
  moreover have "ns_accounts (advance_to (b_slot block) t2) = ns_accounts s'"
    using advance_to_sel [of "b_slot block" t2] \<open>ns_accounts t2 = ns_accounts t1\<close> rep(2) acc by simp
  moreover have "current_slot t2 = current_slot t"
    using \<open>current_slot t2 = current_slot t1\<close> replay_all_slot [OF rep(1)] by simp
  ultimately show ?thesis
    using advance_to_sel [of "b_slot block" t2] p(2) acc compute_state_root_cong [of _ s1 "ne_state e"] dep by metis
qed

text \<open>
  A replica that replays a produced block arrives at the producer's accounts: from equal
  account tables, for any batch of transactions of which some fail and are left out, replaying
  the block returns without a divergence, ends with the producer's account table, at the state
  root the block carries and at its slot. The nodes may run on different threads, walk hash maps
  of accounts in different orders and differ in every other table; they share the program
  registry, the guest prover and the iteration order of the lending program's bids.
\<close>

theorem replica_follows_block:
  assumes "stored_codec_ok (ne_state e)" "order_ok (ne_state e)" "depth c \<noteq> - 1" "depth d = depth c"
    and "ns_accounts t = ns_accounts s" "encode (sv_block (ne_state e)) block \<noteq> None"
    and "produce_block e reg n ts batch (c, s) = (Ok (Some block), (c', s'))"
  shows "\<exists>d' t'. apply_block e reg block (d, t) = (Ok False, (d', t')) \<and> ns_accounts t' = ns_accounts s'
    \<and> compute_state_root (ne_state e) t' = b_state_root block
    \<and> (current_slot t \<le> b_slot block \<longrightarrow> current_slot t' = b_slot block)"
  using replica_block [OF assms] by blast

section \<open>Slots\<close>

lemma save_each_meta: "save_each e batch added s = Ok (added', s') \<Longrightarrow> ns_meta s' = ns_meta s"
  by (induction e batch added s rule: save_each.induct) (auto simp: monad_iffs Let_def)

lemma save_accounts_atomic_slot: "save_accounts_atomic e m s = Ok s' \<Longrightarrow> current_slot s' = current_slot s"
  by (auto simp: save_accounts_atomic_def monad_iffs current_slot_def meta_get_def meta_put_def
      dest!: save_each_meta split: if_splits)

lemma apply_tx_slot:
  assumes "apply_tx e reg tx mode (c, s) = (r, (c', s'))"
  shows "current_slot s' = current_slot s"
proof -
  have same: "current_slot t' = current_slot t" if "forget_btc t' = forget_btc t" for t t'
    using arg_cong [OF that, of ns_meta] by (simp add: forget_btc_def current_slot_def meta_get_def)
  from assms show ?thesis
    unfolding apply_tx_def
  proof (cases rule: xbind_cases)
    case (cont overlay v)
    obtain c1 s1 where v: "v = (c1, s1)"
      by (cases v)
    show ?thesis
      using apply_instructions_frame [OF cont(1) [unfolded v]] cont(2) same [of s1 s] v
        save_accounts_atomic_slot [of "ne_state e" overlay s1 s'] commit_overlay_cases [of e overlay c1 s1 r c' s']
      by (cases mode; cases "r = Ok ()") simp_all
  qed (use apply_instructions_frame same in blast)
qed

lemma mark_failed_slot:
  "current_slot (or_keep s (rbind (mark_failed_unless_succeeded e txid slot err s) (\<lambda>(_, t). Ok t))) = current_slot s"
  by (cases "get_tx_status e txid s"; cases "encode (sv_status e) (Failed slot err)")
    (simp_all add: mark_failed_unless_succeeded_def set_tx_status_def to_vec_def current_slot_def meta_get_def)

lemma execute_batch_slot:
  "execute_batch e reg slot batch (c, s) = (Ok included, (c', s')) \<Longrightarrow> current_slot s' = current_slot s"
proof (induction batch arbitrary: c s included)
  case (Cons tx batch)
  obtain txid where hash: "message_hash (ne_tx e) (tx_message tx) = (Ok txid :: (exec_reason, bytes32) result)"
    using Cons.prems by (auto split: result.splits)
  obtain r c1 s1 where run: "apply_tx e reg tx Commit (c, s) = (r, (c1, s1))"
    by (metis prod.collapse)
  have "current_slot s' = current_slot s1"
    using Cons.prems hash run Cons.IH mark_failed_slot by (cases r) (fastforce simp: monad_iffs)+
  then show ?case
    using apply_tx_slot [OF run] by simp
qed simp

lemma current_slot_simps [simp]:
  "current_slot (index_transaction tx slot s) = current_slot s"
  "current_slot (or_keep s (set_tx_status e txid st s)) = current_slot s"
  "current_slot (save_block slot b s) = current_slot s"
  by (simp_all add: current_slot_def) (simp_all add: meta_get_def save_block_def)

lemma finish_all_slot: "finish_all e slot txs s = Ok s' \<Longrightarrow> current_slot s' = current_slot s"
  by (induction e slot txs s rule: finish_all.induct) (auto simp: monad_iffs Let_def)

lemma anchor_block_slot: "current_slot (anchor_block e n slot root s) = current_slot s"
  by (cases "ne_anchor e slot root";
      cases "encode (sv_anchor (ne_state e)) \<lparr>ar_slot = slot, ar_state_root = root, ar_btc_txid = the (ne_anchor e slot root)\<rparr>";
      simp add: anchor_block_def record_anchor_def to_vec_def current_slot_def meta_get_def meta_put_def Let_def)

lemma produce_block_slot:
  assumes "produce_block e reg n ts batch (c, s) = (Ok (Some block), (c', s'))"
  shows "current_slot s' = current_slot s + 1" "b_slot block = current_slot s + 1"
proof -
  obtain s1 s2 where p: "execute_batch e reg (b_slot block) batch (c, snd (advance_slot s)) = (Ok (b_transactions block), (c', s1))"
    "b_slot block = current_slot s + 1"
    "finish_all e (b_slot block) (b_transactions block) (save_block (b_slot block)
       (case encode (sv_block (ne_state e)) block of Some b \<Rightarrow> b | None \<Rightarrow> []) s1) = (Ok s2 :: (exec_reason, NodeState) result)"
    "s' = anchor_block e n (b_slot block) (b_state_root block) s2"
    using assms by (rule produce_block_cases)
  have "current_slot (snd (advance_slot s)) = current_slot s + 1"
    by (simp add: advance_slot_def current_slot_def Let_def)
  then show "current_slot s' = current_slot s + 1" "b_slot block = current_slot s + 1"
    using execute_batch_slot [OF p(1)] finish_all_slot [OF p(3)] p(2,4)
    by (simp_all add: anchor_block_slot)
qed

section \<open>Catching up\<close>

text \<open>The blocks a producer makes in successive rounds, and the world it ends in.\<close>

inductive produced :: "node_env \<Rightarrow> ProgramRegistry \<Rightarrow> u64 \<Rightarrow> world \<Rightarrow> Block list \<Rightarrow> world \<Rightarrow> bool" for e reg n where
  produced_none: "produced e reg n w [] w"
| produced_more: "produce_block e reg n ts batch w = (Ok (Some b), w') \<Longrightarrow> produced e reg n w' bs w'' \<Longrightarrow>
    produced e reg n w (b # bs) w''"

inductive_cases produced_ConsE: "produced e reg n w (b # bs) w''"
inductive_cases produced_NilE: "produced e reg n w [] w''"

lemma sync_loop_follows:
  assumes "stored_codec_ok (ne_state e)" "order_ok (ne_state e)" "depth c \<noteq> - 1" "depth d = depth c"
    and "produced e reg n (c, s) blocks (c', s')" "\<forall>b \<in> set blocks. encode (sv_block (ne_state e)) b \<noteq> None"
    and "ns_accounts t = ns_accounts s" "current_slot t = current_slot s"
    and "unat (current_slot s) + length blocks < 2 ^ 64" "\<forall>b \<in> set blocks. fetch (b_slot b) = Some (Some b)"
  shows "unat (current_slot s') = unat (current_slot s) + length blocks \<and>
    (\<exists>d' t'. sync_loop e reg fetch (current_slot s) (current_slot s') (d, t) = (Ok (), (d', t'))
       \<and> ns_accounts t' = ns_accounts s' \<and> current_slot t' = current_slot s')"
  using assms(3-10)
proof (induction blocks arbitrary: c d s t)
  case Nil
  then have "s' = s"
    by (auto elim: produced_NilE)
  then show ?case
    using Nil sync_loop.simps [of e reg fetch "current_slot s" "current_slot s"] by (auto simp: xret_def)
next
  case (Cons b blocks)
  from Cons.prems(3) obtain ts batch c1 s1 where run: "produce_block e reg n ts batch (c, s) = (Ok (Some b), (c1, s1))"
    and rest: "produced e reg n (c1, s1) blocks (c', s')"
    by (auto elim!: produced_ConsE)
  note slot = produce_block_slot [OF run]
  have inc: "unat (current_slot s + 1) = unat (current_slot s) + 1"
    using Cons.prems(7) by (simp add: unat_add_lem [THEN iffD1])
  then have le: "current_slot s < current_slot s + 1"
    by (simp add: word_less_nat_alt)
  have "encode (sv_block (ne_state e)) b \<noteq> None"
    using Cons.prems(4) by simp
  then obtain d1 t1 where one: "apply_block e reg b (d, t) = (Ok False, (d1, t1))" "ns_accounts t1 = ns_accounts s1"
    "current_slot t1 = current_slot s1" "depth d1 = depth c" "depth c1 = depth c"
    using replica_block [OF assms(1,2) Cons.prems(1,2,5) _ run] Cons.prems(6) slot le by auto
  have "depth c1 \<noteq> - 1" "depth d1 = depth c1" "\<forall>b \<in> set blocks. encode (sv_block (ne_state e)) b \<noteq> None"
    "unat (current_slot s1) + length blocks < 2 ^ 64" "\<forall>b \<in> set blocks. fetch (b_slot b) = Some (Some b)"
    using one Cons.prems slot inc by simp_all
  from Cons.IH [OF this(1,2) rest this(3) one(2,3) this(4,5)]
  obtain d' t' where IH: "unat (current_slot s') = unat (current_slot s1) + length blocks"
    "sync_loop e reg fetch (current_slot s1) (current_slot s') (d1, t1) = (Ok (), (d', t'))"
    "ns_accounts t' = ns_accounts s'" "current_slot t' = current_slot s'"
    by blast
  have "current_slot s < current_slot s'"
    using IH(1) slot inc by (simp add: word_less_nat_alt)
  moreover have "fetch (current_slot s + 1) = Some (Some b)"
    using Cons.prems(8) slot(2) by simp
  ultimately have "sync_loop e reg fetch (current_slot s) (current_slot s') (d, t) = (Ok (), (d', t'))"
    using sync_loop.simps [of e reg fetch "current_slot s" "current_slot s'"] IH(2) slot(1)
    by (simp add: xbind_Ok [of "apply_block e reg b", OF one(1)])
  then show ?case
    using IH slot inc by auto
qed


section \<open>Every queued transaction gets an outcome\<close>

definition status_of :: "state_env \<Rightarrow> NodeState \<Rightarrow> bytes32 \<Rightarrow> TxStatus option" where
  "status_of e s txid = Option.bind (ns_tx_status s txid) (decode (sv_status e))"

definition statuses_ok :: "state_env \<Rightarrow> NodeState \<Rightarrow> bool" where
  "statuses_ok e s \<longleftrightarrow> (\<forall>txid b. ns_tx_status s txid = Some b \<longrightarrow> decode (sv_status e) b \<noteq> None)"

definition settled :: "TxStatus option \<Rightarrow> bool" where
  "settled st \<longleftrightarrow> st \<noteq> None \<and> st \<noteq> Some Pending"

definition txid_of :: "node_env \<Rightarrow> RuntimeTransaction \<Rightarrow> bytes32" where
  "txid_of e tx = tx_sha (ne_tx e) (the (encode (tx_codec (ne_tx e)) (tx_message tx)))"

lemma message_hash_txid: "message_hash (ne_tx e) (tx_message tx) = Ok h \<Longrightarrow> h = txid_of e tx"
  by (auto simp: monad_iffs txid_of_def)

lemma get_tx_status_of: "statuses_ok e s \<Longrightarrow> get_tx_status e txid s = Ok (status_of e s txid)"
  by (auto simp: statuses_ok_def get_tx_status_def status_of_def from_slice_def split: option.splits)
    (metis ok_or.simps(1) rbind.simps(1))

text \<open>How the outcomes of two databases compare: nothing that was settled or succeeded is lost.\<close>

definition outcomes_kept :: "state_env \<Rightarrow> NodeState \<Rightarrow> NodeState \<Rightarrow> bool" where
  "outcomes_kept e s s' \<longleftrightarrow> statuses_ok e s' \<and> (\<forall>txid.
     (settled (status_of e s txid) \<longrightarrow> settled (status_of e s' txid))
     \<and> (is_succeeded (status_of e s txid) \<longrightarrow> is_succeeded (status_of e s' txid)))"

lemma outcomes_kept_trans: "outcomes_kept e s t \<Longrightarrow> outcomes_kept e t u \<Longrightarrow> outcomes_kept e s u"
  by (auto simp: outcomes_kept_def)

lemma outcomes_kept_same: "ns_tx_status s' = ns_tx_status s \<Longrightarrow> statuses_ok e s \<Longrightarrow> outcomes_kept e s s'"
  by (simp add: outcomes_kept_def statuses_ok_def status_of_def)

lemma set_status_outcome:
  assumes "codec_ok (sv_status e)" "codec_total (sv_status e)" "statuses_ok e s"
    and "s' = or_keep s (set_tx_status e txid st s)"
  shows "statuses_ok e s'" "status_of e s' t = (if t = txid then Some st else status_of e s t)"
proof -
  obtain b where b: "encode (sv_status e) st = Some b"
    using assms(2) unfolding codec_total_def by blast
  then show "statuses_ok e s'" "status_of e s' t = (if t = txid then Some st else status_of e s t)"
    using assms(3,4) codec_okD [OF assms(1) b]
    by (auto simp: set_tx_status_def to_vec_def statuses_ok_def status_of_def)
qed

lemma mark_failed_outcome:
  assumes "codec_ok (sv_status e)" "codec_total (sv_status e)" "statuses_ok e s"
    and "s' = or_keep s (rbind (mark_failed_unless_succeeded e txid slot err s) (\<lambda>(_, t). Ok t))"
  shows "outcomes_kept e s s' \<and> settled (status_of e s' txid)"
proof (cases "is_succeeded (status_of e s txid)")
  case True
  then have "s' = s"
    using assms(3,4) by (simp add: mark_failed_unless_succeeded_def get_tx_status_of)
  then show ?thesis
    using True assms(3) outcomes_kept_same [of s s e] by (cases "status_of e s txid") (auto simp: settled_def)
next
  case False
  then have "s' = or_keep s (set_tx_status e txid (Failed slot err) s)"
    using assms(3,4) by (cases "set_tx_status e txid (Failed slot err) s")
      (simp_all add: mark_failed_unless_succeeded_def get_tx_status_of)
  then show ?thesis
    using set_status_outcome [OF assms(1-3)] False by (auto simp: outcomes_kept_def settled_def)
qed

lemma save_each_status: "save_each e batch added s = Ok (added', s') \<Longrightarrow> ns_tx_status s' = ns_tx_status s"
  by (induction e batch added s rule: save_each.induct)
    (auto simp: monad_iffs Let_def store_def index_owner_def)

lemma apply_tx_status:
  assumes "apply_tx e reg tx mode (c, s) = (r, (c', s'))"
  shows "ns_tx_status s' = ns_tx_status s"
proof -
  have same: "ns_tx_status t' = ns_tx_status t" if "forget_btc t' = forget_btc t" for t t'
    using arg_cong [OF that, of ns_tx_status] by (simp add: forget_btc_def)
  have save: "ns_tx_status t' = ns_tx_status t" if "save_accounts_atomic (ne_state e) m t = Ok t'" for m t t'
    using that save_each_status
    by (auto simp: save_accounts_atomic_def monad_iffs meta_put_def split: if_splits)
  from assms show ?thesis
    unfolding apply_tx_def
  proof (cases rule: xbind_cases)
    case (cont overlay v)
    obtain c1 s1 where v: "v = (c1, s1)"
      by (cases v)
    show ?thesis
      using apply_instructions_frame [OF cont(1) [unfolded v]] cont(2) same [of s1 s] save [of overlay s1 s']
        commit_overlay_cases [of e overlay c1 s1 r c' s'] v
      by (cases mode; cases "r = Ok ()") simp_all
  qed (use apply_instructions_frame same in blast)
qed

lemma execute_batch_outcome:
  assumes "codec_ok (sv_status (ne_state e))" "codec_total (sv_status (ne_state e))"
    and "statuses_ok (ne_state e) s" "execute_batch e reg slot batch (c, s) = (Ok included, (c', s'))"
  shows "outcomes_kept (ne_state e) s s'
    \<and> (\<forall>tx \<in> set batch. tx \<in> set included \<or> settled (status_of (ne_state e) s' (txid_of e tx)))"
  using assms(3,4)
proof (induction batch arbitrary: c s included)
  case Nil
  then show ?case
    by (auto intro: outcomes_kept_same)
next
  case (Cons tx batch)
  obtain txid where hash: "message_hash (ne_tx e) (tx_message tx) = (Ok txid :: (exec_reason, bytes32) result)"
    using Cons.prems(2) by (auto split: result.splits)
  obtain r c1 s1 where run: "apply_tx e reg tx Commit (c, s) = (r, (c1, s1))"
    by (metis prod.collapse)
  have kept: "outcomes_kept (ne_state e) s s1"
    by (rule outcomes_kept_same [OF apply_tx_status [OF run] Cons.prems(1)])
  then have ok: "statuses_ok (ne_state e) s1"
    by (simp add: outcomes_kept_def)
  show ?case
  proof (cases r)
    case (Ok u)
    then obtain rest where "included = tx # rest" "execute_batch e reg slot batch (c1, s1) = (Ok rest, (c', s'))"
      using Cons.prems(2) hash run by (auto simp: monad_iffs)
    then show ?thesis
      using Cons.IH [OF ok] kept outcomes_kept_trans by fastforce
  next
    case (Err err)
    define s2 where "s2 = or_keep s1 (rbind (mark_failed_unless_succeeded (ne_state e) txid slot (ne_text e (ee_reason err)) s1) (\<lambda>(_, t). Ok t))"
    then have more: "execute_batch e reg slot batch (c1, s2) = (Ok included, (c', s'))"
      using Cons.prems(2) hash run Err by simp
    have marked: "outcomes_kept (ne_state e) s1 s2" "settled (status_of (ne_state e) s2 (txid_of e tx))"
      using mark_failed_outcome [OF assms(1,2) ok s2_def] message_hash_txid [OF hash] by simp_all
    then have "statuses_ok (ne_state e) s2"
      by (simp add: outcomes_kept_def)
    note IH = Cons.IH [OF this more]
    then have "settled (status_of (ne_state e) s' (txid_of e tx))"
      using marked(2) by (simp add: outcomes_kept_def)
    then show ?thesis
      using IH kept marked(1) outcomes_kept_trans by (metis set_ConsD)
  next
    case Panic
    then show ?thesis
      using Cons.prems(2) hash run by simp
  qed
qed

lemma index_transaction_idx [simp]:
  "ns_tx_status (index_transaction tx slot s) = ns_tx_status s"
  "ns_tx_idx (index_transaction tx slot s) = (ns_tx_idx s)(tx \<mapsto> slot)"
  by (simp_all add: index_transaction_def Let_def meta_put_def)

lemma or_keep_status_idx [simp]: "ns_tx_idx (or_keep s (set_tx_status e txid st s)) = ns_tx_idx s"
  by (cases "encode (sv_status e) st"; simp add: set_tx_status_def to_vec_def)

lemma finish_all_outcome:
  assumes "codec_ok (sv_status (ne_state e))" "codec_total (sv_status (ne_state e))"
    and "statuses_ok (ne_state e) s" "finish_all e slot txs s = (Ok s' :: (exec_reason, NodeState) result)"
  shows "outcomes_kept (ne_state e) s s' \<and> (\<forall>txid. if txid \<in> txid_of e ` set txs
      then status_of (ne_state e) s' txid = Some (Succeeded slot) \<and> ns_tx_idx s' txid = Some slot
      else status_of (ne_state e) s' txid = status_of (ne_state e) s txid \<and> ns_tx_idx s' txid = ns_tx_idx s txid)"
  using assms(3,4)
proof (induction txs arbitrary: s)
  case Nil
  then show ?case
    by (auto intro: outcomes_kept_same)
next
  case (Cons tx txs)
  define s1 where "s1 = index_transaction (txid_of e tx) slot s"
  define s2 where "s2 = or_keep s1 (set_tx_status (ne_state e) (txid_of e tx) (Succeeded slot) s1)"
  have run: "finish_all e slot txs s2 = (Ok s' :: (exec_reason, NodeState) result)"
    using Cons.prems(2) by (auto simp: s1_def s2_def txid_of_def monad_iffs Let_def)
  have ok: "statuses_ok (ne_state e) s1"
    using Cons.prems(1) by (simp add: s1_def statuses_ok_def)
  have st: "status_of (ne_state e) s1 t = status_of (ne_state e) s t" for t
    by (simp add: s1_def status_of_def)
  note set = set_status_outcome [OF assms(1,2) ok s2_def]
  have idx: "ns_tx_idx s2 = (ns_tx_idx s)(txid_of e tx \<mapsto> slot)"
    by (simp add: s1_def s2_def)
  have "outcomes_kept (ne_state e) s s2"
    using set st by (simp add: outcomes_kept_def settled_def)
  then show ?case
    using Cons.IH [OF set(1) run] set(2) st idx outcomes_kept_trans by (fastforce split: if_splits)
qed

lemma anchor_block_status [simp]:
  "ns_tx_status (anchor_block e n slot root s) = ns_tx_status s" "ns_tx_idx (anchor_block e n slot root s) = ns_tx_idx s"
  by (cases "ne_anchor e slot root";
      cases "encode (sv_anchor (ne_state e)) \<lparr>ar_slot = slot, ar_state_root = root, ar_btc_txid = the (ne_anchor e slot root)\<rparr>";
      simp add: anchor_block_def record_anchor_def to_vec_def meta_put_def Let_def)+

text \<open>The two halves of a round: the batch is executed up to a middle state, then the block is finished.\<close>

lemma status_of_same: "ns_tx_status s' = ns_tx_status s \<Longrightarrow> status_of e s' = status_of e s \<and> statuses_ok e s' = statuses_ok e s"
  by (auto simp: status_of_def statuses_ok_def fun_eq_iff)

lemma produce_block_outcome:
  assumes "codec_ok (sv_status (ne_state e))" "codec_total (sv_status (ne_state e))" "statuses_ok (ne_state e) s"
    and "produce_block e reg n ts batch (c, s) = (Ok (Some block), (c', s'))"
  obtains sm where "outcomes_kept (ne_state e) s sm" "outcomes_kept (ne_state e) sm s'"
    and "\<forall>tx \<in> set batch. tx \<in> set (b_transactions block) \<or> settled (status_of (ne_state e) sm (txid_of e tx))"
    and "\<forall>tx \<in> set (b_transactions block).
      status_of (ne_state e) s' (txid_of e tx) = Some (Succeeded (b_slot block)) \<and> ns_tx_idx s' (txid_of e tx) = Some (b_slot block)"
proof -
  obtain s1 s2 where p: "execute_batch e reg (b_slot block) batch (c, snd (advance_slot s)) = (Ok (b_transactions block), (c', s1))"
    "finish_all e (b_slot block) (b_transactions block) (save_block (b_slot block)
       (case encode (sv_block (ne_state e)) block of Some b \<Rightarrow> b | None \<Rightarrow> []) s1) = (Ok s2 :: (exec_reason, NodeState) result)"
    "s' = anchor_block e n (b_slot block) (b_state_root block) s2"
    using assms(4) by (rule produce_block_cases)
  define s0 where "s0 = snd (advance_slot s)"
  define s3 where "s3 = save_block (b_slot block) (case encode (sv_block (ne_state e)) block of Some b \<Rightarrow> b | None \<Rightarrow> []) s1"
  have "ns_tx_status s0 = ns_tx_status s" "ns_tx_status s3 = ns_tx_status s1" "ns_tx_status s' = ns_tx_status s2"
    and idx: "ns_tx_idx s' = ns_tx_idx s2"
    by (simp_all add: s0_def s3_def advance_slot_def meta_put_def save_block_def p(3) Let_def)
  note same = this(1-3) [THEN status_of_same, of "ne_state e"]
  have batch: "outcomes_kept (ne_state e) s0 s1"
    "\<forall>tx \<in> set batch. tx \<in> set (b_transactions block) \<or> settled (status_of (ne_state e) s1 (txid_of e tx))"
    using execute_batch_outcome [OF assms(1,2) _ p(1) [folded s0_def]] same assms(3) by auto
  then have "statuses_ok (ne_state e) s3"
    using same by (simp add: outcomes_kept_def)
  then show thesis
    using finish_all_outcome [OF assms(1,2) _ p(2) [folded s3_def]] batch same idx
    by (intro that [of s1]) (auto simp: outcomes_kept_def)
qed

text \<open>
  C6. No transaction is dropped silently: after a block is produced, every transaction of the
  batch, included or not, has a final status; every included one is marked succeeded at the
  block's slot and is found there by its id; and a transaction that had succeeded before is never
  marked failed, even when it was submitted again and failed.
\<close>

theorem producer_settles_batch:
  assumes "codec_ok (sv_status (ne_state e))" "codec_total (sv_status (ne_state e))" "statuses_ok (ne_state e) s"
    and "produce_block e reg n ts batch (c, s) = (Ok (Some block), (c', s'))"
  shows "(\<forall>tx \<in> set batch. settled (status_of (ne_state e) s' (txid_of e tx)))
    \<and> (\<forall>tx \<in> set (b_transactions block). tx_slot (txid_of e tx) s' = Some (b_slot block)
         \<and> get_tx_status (ne_state e) (txid_of e tx) s' = Ok (Some (Succeeded (b_slot block))))
    \<and> (\<forall>txid. is_succeeded (status_of (ne_state e) s txid) \<longrightarrow> is_succeeded (status_of (ne_state e) s' txid))"
proof -
  obtain sm where kept: "outcomes_kept (ne_state e) s sm" "outcomes_kept (ne_state e) sm s'"
    and batch: "\<forall>tx \<in> set batch. tx \<in> set (b_transactions block) \<or> settled (status_of (ne_state e) sm (txid_of e tx))"
    and inc: "\<forall>tx \<in> set (b_transactions block).
      status_of (ne_state e) s' (txid_of e tx) = Some (Succeeded (b_slot block)) \<and> ns_tx_idx s' (txid_of e tx) = Some (b_slot block)"
    using produce_block_outcome [OF assms] by blast
  have "settled (status_of (ne_state e) s' (txid_of e tx))" if "tx \<in> set batch" for tx
    using bspec [OF batch that] bspec [OF inc, of tx] kept(2) by (auto simp: outcomes_kept_def settled_def)
  moreover have "tx_slot (txid_of e tx) s' = Some (b_slot block)
      \<and> get_tx_status (ne_state e) (txid_of e tx) s' = Ok (Some (Succeeded (b_slot block)))"
    if "tx \<in> set (b_transactions block)" for tx
    using bspec [OF inc that] kept(2) by (simp add: tx_slot_def get_tx_status_of outcomes_kept_def)
  moreover have "outcomes_kept (ne_state e) s s'"
    using kept by (rule outcomes_kept_trans)
  ultimately show ?thesis
    by (simp add: outcomes_kept_def)
qed

lemma sample_hash: "message_hash (ne_tx sample_node) sample_msg = Ok (tx_sha (ne_tx sample_node) [0])"
  by (simp add: message_hash_def sample_node_def table_codec_def)

lemma sample_produce:
  "\<exists>block c' s'. produce_block sample_node Map.empty 0 9 [tx_new sample_msg [5]] (fresh_ctx, funded) = (Ok (Some block), (c', s'))"
proof -
  obtain s0 where slot: "advance_slot funded = (1, s0)" and acc: "ns_accounts s0 = ns_accounts funded"
    by (simp add: advance_slot_def funded_def empty_state_def meta_get_def Let_def)
  obtain c' s' where run: "apply_tx sample_node Map.empty (tx_new sample_msg [5]) Commit (fresh_ctx, s0) = (Ok (), (c', s'))"
    using sample_apply [OF acc, of Commit fresh_ctx] by blast
  have "execute_batch sample_node Map.empty 1 [tx_new sample_msg [5]] (fresh_ctx, s0) = (Ok [tx_new sample_msg [5]], (c', s'))"
    using run by (simp add: sample_hash tx_new_def xbind_def xret_def)
  then show ?thesis
    by (simp add: produce_block_def form_block_def slot xbind_def new_with_root_def Let_def del: execute_batch.simps)
      (simp add: tx_new_def sample_hash Let_def)
qed

theorem replica_follows_block_witness:
  "\<exists>block w d' t'. produce_block sample_node Map.empty 0 9 [tx_new sample_msg [5]] (fresh_ctx, funded) = (Ok (Some block), w)
    \<and> apply_block sample_node Map.empty block (fresh_ctx, funded\<lparr>ns_tx_idx := [3 \<mapsto> 4]\<rparr>) = (Ok False, (d', t'))
    \<and> ns_accounts t' = ns_accounts (snd w)"
proof -
  obtain block c' s' where run: "produce_block sample_node Map.empty 0 9 [tx_new sample_msg [5]] (fresh_ctx, funded) = (Ok (Some block), (c', s'))"
    using sample_produce by blast
  have "stored_codec_ok (ne_state sample_node)" "order_ok (ne_state sample_node)"
    by (simp_all add: stored_codec_ok_def order_ok_def sample_node_def sample_state_env_def)
  moreover have "depth fresh_ctx \<noteq> - 1" "encode (sv_block (ne_state sample_node)) block \<noteq> None"
    by (simp_all add: fresh_ctx_def sample_node_def)
  moreover have "ns_accounts (funded\<lparr>ns_tx_idx := [3 \<mapsto> 4]\<rparr>) = ns_accounts funded"
    by simp
  ultimately show ?thesis
    using replica_follows_block [OF _ _ _ refl _ _ run, of "funded\<lparr>ns_tx_idx := [3 \<mapsto> 4]\<rparr>"] run by fastforce
qed

theorem producer_settles_batch_witness:
  "\<exists>block c' s'. produce_block sample_node Map.empty 0 9 [tx_new sample_msg [5]] (fresh_ctx, funded) = (Ok (Some block), (c', s'))
    \<and> settled (status_of (ne_state sample_node) s' (txid_of sample_node (tx_new sample_msg [5])))"
proof -
  obtain block c' s' where run: "produce_block sample_node Map.empty 0 9 [tx_new sample_msg [5]] (fresh_ctx, funded) = (Ok (Some block), (c', s'))"
    using sample_produce by blast
  have "codec_ok (sv_status (ne_state sample_node))" "codec_total (sv_status (ne_state sample_node))"
    "statuses_ok (ne_state sample_node) funded"
    by (simp_all add: sample_node_def statuses_ok_def funded_def empty_state_def)
  from producer_settles_batch [OF this run] show ?thesis
    using run by auto
qed


end
