(* ===== verification/Election.thy ===== *)
theory Election
  imports Prelude
begin

text \<open>
  Leader election, \<open>src/himsha-node/src/election.rs\<close>, and the decisions of the failover loop of
  \<open>src/himsha-node/src/follower.rs\<close>. The election state of one node and its operations are
  functions; the cluster, in which nodes call each other and replies may be late or lost, is a
  step relation. A node is named by its URL.
\<close>

section \<open>One node\<close>

type_synonym node_id = string

record ElectionState =
  current_term :: u64
  voted_for :: "node_id option"
  is_leader :: bool
  leader :: "node_id option"

record VoteReply =
  vr_term :: u64
  vr_granted :: bool

record LeaderInfo =
  li_term :: u64
  li_leader :: "node_id option"

definition default_election :: ElectionState where
  "default_election = \<lparr> current_term = 0, voted_for = None, is_leader = False, leader = None \<rparr>"

definition step_down :: "u64 \<Rightarrow> ElectionState \<Rightarrow> ElectionState" where
  "step_down term s =
     s\<lparr>current_term := term, voted_for := None, is_leader := False, leader := None\<rparr>"

definition consider_vote :: "u64 \<Rightarrow> node_id \<Rightarrow> ElectionState \<Rightarrow> VoteReply \<times> ElectionState" where
  "consider_vote term candidate s =
     (if term < current_term s then (\<lparr> vr_term = current_term s, vr_granted = False \<rparr>, s)
      else
        let s = (if current_term s < term then step_down term s else s) in
        (case voted_for s of
           None \<Rightarrow> (\<lparr> vr_term = current_term s, vr_granted = True \<rparr>, s\<lparr>voted_for := Some candidate\<rparr>)
         | Some c \<Rightarrow> (\<lparr> vr_term = current_term s, vr_granted = (c = candidate) \<rparr>, s)))"

definition consider_pre_vote :: "u64 \<Rightarrow> ElectionState \<Rightarrow> VoteReply" where
  "consider_pre_vote term s =
     \<lparr> vr_term = current_term s, vr_granted = (current_term s \<le> term \<and> \<not> is_leader s) \<rparr>"

definition start_candidacy :: "node_id \<Rightarrow> ElectionState \<Rightarrow> u64 \<times> ElectionState" where
  "start_candidacy self_id s =
     (let term = current_term s + 1
      in (term, s\<lparr>current_term := term, voted_for := Some self_id, is_leader := False, leader := None\<rparr>))"

definition observe_term :: "u64 \<Rightarrow> ElectionState \<Rightarrow> ElectionState" where
  "observe_term term s = (if current_term s < term then step_down term s else s)"

definition become_leader :: "node_id \<Rightarrow> ElectionState \<Rightarrow> ElectionState" where
  "become_leader self_id s = s\<lparr>is_leader := True, leader := Some self_id\<rparr>"

definition observe_leader :: "u64 \<Rightarrow> node_id \<Rightarrow> ElectionState \<Rightarrow> ElectionState" where
  "observe_leader term ldr s =
     (if current_term s \<le> term
      then s\<lparr>current_term := term, leader := Some ldr, is_leader := False\<rparr> else s)"

definition leader_info :: "ElectionState \<Rightarrow> LeaderInfo" where
  "leader_info s = \<lparr> li_term = current_term s, li_leader = leader s \<rparr>"

definition quorum :: "nat \<Rightarrow> nat" where
  "quorum members = members div 2 + 1"

definition has_quorum :: "nat \<Rightarrow> nat \<Rightarrow> bool" where
  "has_quorum granted_votes members \<longleftrightarrow> 0 < members \<and> quorum members \<le> granted_votes"

text \<open>
  The number of votes a candidate has: one for itself, one for each other member that granted.
\<close>

definition tally :: "node_id \<Rightarrow> node_id list \<Rightarrow> (node_id \<Rightarrow> bool) \<Rightarrow> nat" where
  "tally self_id members granted =
     fold (\<lambda>m votes. if m = self_id then votes else if granted m then votes + 1 else votes) members 1"

section \<open>The failover loop\<close>

definition should_promote :: "u32 \<Rightarrow> u32 option \<Rightarrow> bool" where
  "should_promote consecutive_misses max_misses \<longleftrightarrow>
     (case max_misses of Some m \<Rightarrow> 0 < m \<and> m \<le> consecutive_misses | None \<Rightarrow> False)"

definition wins_election :: "bool \<Rightarrow> bool \<Rightarrow> bool" where
  "wins_election primary_unreachable higher_priority_peer_alive \<longleftrightarrow>
     primary_unreachable \<and> \<not> higher_priority_peer_alive"

text \<open>
  \<open>discover_leader\<close> on the members' answers to \<open>getLeader\<close>, where \<open>None\<close> is a call that
  failed: the highest advertised term, the first one on a tie.
\<close>

definition discover_leader ::
  "node_id \<Rightarrow> (node_id \<Rightarrow> LeaderInfo option) \<Rightarrow> node_id list \<Rightarrow> (u64 \<times> node_id) option" where
  "discover_leader self_id answer members =
     fold (\<lambda>m best.
       if m = self_id then best
       else case answer m of
           None \<Rightarrow> best
         | Some info \<Rightarrow>
             (case li_leader info of
                None \<Rightarrow> best
              | Some l \<Rightarrow> if (case best of Some (bt, _) \<Rightarrow> bt < li_term info | None \<Rightarrow> True)
                  then Some (li_term info, l) else best)) members None"

definition count_misses :: "bool \<Rightarrow> u32 \<Rightarrow> u32" where
  "count_misses synced misses = (if synced then 0 else misses + 1)"

text \<open>
  A loop of \<open>elect\<close> over the members: \<open>None\<close> is a call that failed; a refusal reports the
  member's term, which the node observes.
\<close>

fun collect_votes ::
  "node_id \<Rightarrow> (node_id \<Rightarrow> VoteReply option) \<Rightarrow> node_id list \<Rightarrow> nat \<Rightarrow> ElectionState \<Rightarrow> nat \<times> ElectionState" where
  "collect_votes self_id answer [] votes s = (votes, s)"
| "collect_votes self_id answer (m # ms) votes s =
     (if m = self_id then collect_votes self_id answer ms votes s
      else case answer m of
          None \<Rightarrow> collect_votes self_id answer ms votes s
        | Some v \<Rightarrow>
            if vr_granted v then collect_votes self_id answer ms (votes + 1) s
            else collect_votes self_id answer ms votes (observe_term (vr_term v) s))"

text \<open>
  \<open>elect\<close> with the answers of the members to \<open>preVote\<close> and \<open>requestVote\<close>, which depend on the term
  asked for. Calls that arrive at the node in between are steps of the cluster below.
\<close>

type_synonym answers = "u64 \<Rightarrow> node_id \<Rightarrow> VoteReply option"

definition elect ::
  "node_id \<Rightarrow> node_id list \<Rightarrow> answers \<Rightarrow> answers \<Rightarrow> ElectionState \<Rightarrow> bool \<times> ElectionState" where
  "elect self_id members pre_vote request_vote s =
     (if members = [] then (False, s)
      else
        let pv_term = current_term s + 1;
            (pre_votes, s) = collect_votes self_id (pre_vote pv_term) members 1 s
        in if \<not> has_quorum pre_votes (length members) then (False, s)
           else
             let (term, s) = start_candidacy self_id s;
                 (votes, s) = collect_votes self_id (request_vote term) members 1 s
             in (has_quorum votes (length members), s))"

text \<open>The answers to \<open>isNodeReady\<close>; \<open>None\<close> is a call that failed.\<close>

definition any_higher_peer_alive :: "(node_id \<Rightarrow> bool option) \<Rightarrow> node_id list \<Rightarrow> bool" where
  "any_higher_peer_alive ready higher_peers = list_ex (\<lambda>url. ready url = Some True) higher_peers"

record follower =
  fo_primary :: node_id
  fo_misses :: u32
  fo_election :: "ElectionState option"

record poll_answers =
  pa_synced :: bool
  pa_leader :: "node_id \<Rightarrow> LeaderInfo option"
  pa_pre_vote :: answers
  pa_request_vote :: answers
  pa_ready :: "node_id \<Rightarrow> bool option"

text \<open>One turn of the loop of \<open>run_until_promote\<close>; \<open>True\<close> is the decision to promote.\<close>

definition poll_turn ::
  "node_id \<Rightarrow> node_id list \<Rightarrow> node_id list \<Rightarrow> u32 option \<Rightarrow> poll_answers \<Rightarrow> follower \<Rightarrow> bool \<times> follower" where
  "poll_turn self_id members higher_peers max_misses a f =
     (let f = f\<lparr>fo_misses := count_misses (pa_synced a) (fo_misses f)\<rparr>;
          (promote, s) =
            (case fo_election f of
               Some s \<Rightarrow>
                 if members \<noteq> [] then
                   (case elect self_id members (pa_pre_vote a) (pa_request_vote a) s of (won, s) \<Rightarrow> (won, Some s))
                 else (wins_election True (any_higher_peer_alive (pa_ready a) higher_peers), Some s)
             | None \<Rightarrow> (wins_election True (any_higher_peer_alive (pa_ready a) higher_peers), None));
          run = (if promote then (True, f\<lparr>fo_election := map_option (become_leader self_id) s\<rparr>)
                 else (False, f\<lparr>fo_election := s\<rparr>))
      in if \<not> should_promote (fo_misses f) max_misses then (False, f)
         else case discover_leader self_id (pa_leader a) members of
             Some (term, l) \<Rightarrow>
               if l \<noteq> fo_primary f \<and> l \<noteq> self_id then
                 (False, f\<lparr>fo_primary := l, fo_election := map_option (observe_leader term l) (fo_election f), fo_misses := 0\<rparr>)
               else run
           | None \<Rightarrow> run)"

text \<open>The loop on the answers of the first turns; \<open>None\<close> while it has not promoted.\<close>

fun run_until_promote ::
  "node_id \<Rightarrow> node_id list \<Rightarrow> node_id list \<Rightarrow> u32 option \<Rightarrow> poll_answers list \<Rightarrow> follower \<Rightarrow> follower option" where
  "run_until_promote self_id members higher_peers max_misses [] f = None"
| "run_until_promote self_id members higher_peers max_misses (a # as) f =
     (case poll_turn self_id members higher_peers max_misses a f of
        (True, f) \<Rightarrow> Some f
      | (False, f) \<Rightarrow> run_until_promote self_id members higher_peers max_misses as f)"

section \<open>The cluster\<close>

text \<open>
  \<open>cl_running i\<close> is the candidacy that node \<open>i\<close> is collecting votes for: its term and the
  members that granted so far. \<open>cl_won\<close> and \<open>cl_cast\<close> are history variables: who reached a
  quorum in which term, and which vote each node gave.
\<close>

record cluster =
  cl_node :: "node_id \<Rightarrow> ElectionState"
  cl_running :: "node_id \<Rightarrow> (u64 \<times> node_id set) option"
  cl_won :: "(u64 \<times> node_id) set"
  cl_cast :: "(u64 \<times> node_id \<times> node_id) set"

definition cluster_init :: cluster where
  "cluster_init = \<lparr> cl_node = (\<lambda>_. default_election), cl_running = (\<lambda>_. None), cl_won = {}, cl_cast = {} \<rparr>"

definition at_node :: "node_id \<Rightarrow> ElectionState \<Rightarrow> cluster \<Rightarrow> cluster" where
  "at_node i s c = c\<lparr>cl_node := (cl_node c)(i := s)\<rparr>"

text \<open>
  The steps: a candidacy starts (short of the last term, where the counter would wrap); a member
  answers a vote request, and the answer is counted, makes the candidate observe a newer term, or
  is lost; a candidate with a quorum has won; a winner marks itself leader, at any later time; a
  node observes a term or a leader that another one reported.
\<close>

inductive cluster_step :: "node_id list \<Rightarrow> cluster \<Rightarrow> cluster \<Rightarrow> bool" for members where
  start: "\<lbrakk>i \<in> set members; current_term (cl_node c i) \<noteq> - 1; start_candidacy i (cl_node c i) = (t, s)\<rbrakk> \<Longrightarrow>
    cluster_step members c
      (at_node i s c\<lparr>cl_running := (cl_running c)(i \<mapsto> (t, {i})), cl_cast := insert (t, i, i) (cl_cast c)\<rparr>)"
| grant: "\<lbrakk>cl_running c i = Some (t, votes); j \<in> set members; j \<noteq> i;
    consider_vote t i (cl_node c j) = (reply, s); vr_granted reply\<rbrakk> \<Longrightarrow>
    cluster_step members c
      (at_node j s c\<lparr>cl_running := (cl_running c)(i \<mapsto> (t, insert j votes)), cl_cast := insert (t, j, i) (cl_cast c)\<rparr>)"
| lost: "\<lbrakk>cl_running c i = Some (t, votes); j \<in> set members; j \<noteq> i;
    consider_vote t i (cl_node c j) = (reply, s); vr_granted reply\<rbrakk> \<Longrightarrow>
    cluster_step members c (at_node j s c\<lparr>cl_cast := insert (t, j, i) (cl_cast c)\<rparr>)"
| refuse: "\<lbrakk>cl_running c i = Some (t, votes); j \<in> set members; j \<noteq> i;
    consider_vote t i (cl_node c j) = (reply, s); \<not> vr_granted reply\<rbrakk> \<Longrightarrow>
    cluster_step members c (at_node i (observe_term (vr_term reply) (cl_node c i)) (at_node j s c))"
| win: "\<lbrakk>cl_running c i = Some (t, votes); has_quorum (tally i members (\<lambda>m. m \<in> votes)) (length members)\<rbrakk> \<Longrightarrow>
    cluster_step members c (c\<lparr>cl_won := insert (t, i) (cl_won c)\<rparr>)"
| lead: "(t, i) \<in> cl_won c \<Longrightarrow> cluster_step members c (at_node i (become_leader i (cl_node c i)) c)"
| see_term: "cluster_step members c (at_node i (observe_term (current_term (cl_node c j)) (cl_node c i)) c)"
| see_leader: "\<lbrakk>leader_info (cl_node c j) = \<lparr> li_term = t, li_leader = Some l \<rparr>\<rbrakk> \<Longrightarrow>
    cluster_step members c (at_node i (observe_leader t l (cl_node c i)) c)"

inductive cluster_reach :: "node_id list \<Rightarrow> cluster \<Rightarrow> bool" for members where
  cluster_start: "cluster_reach members cluster_init"
| cluster_next: "cluster_reach members c \<Longrightarrow> cluster_step members c c' \<Longrightarrow> cluster_reach members c'"

section \<open>Quorums\<close>

locale quorum_system =
  fixes is_quorum :: "'a set \<Rightarrow> bool"
  assumes quorums_meet: "is_quorum Q \<Longrightarrow> is_quorum R \<Longrightarrow> Q \<inter> R \<noteq> {}"
begin

text \<open>If everybody votes at most once, no two candidates get a quorum.\<close>

lemma one_winner:
  assumes "\<And>v a b. (v, a) \<in> cast \<Longrightarrow> (v, b) \<in> cast \<Longrightarrow> a = b"
    and "is_quorum Q" "\<forall>v \<in> Q. (v, a) \<in> cast" "is_quorum R" "\<forall>v \<in> R. (v, b) \<in> cast"
  shows "a = b"
  using assms quorums_meet by blast

end

text \<open>The quorums of \<open>has_quorum\<close>: majorities of the members.\<close>

definition majority :: "node_id list \<Rightarrow> node_id set \<Rightarrow> bool" where
  "majority members Q \<longleftrightarrow> distinct members \<and> Q \<subseteq> set members \<and> has_quorum (card Q) (length members)"

interpretation maj: quorum_system "majority members" for members
proof
  fix Q R assume Q: "majority members Q" and R: "majority members R"
  have fin: "finite Q" "finite R"
    using Q R finite_subset unfolding majority_def by auto
  show "Q \<inter> R \<noteq> {}"
  proof
    assume "Q \<inter> R = {}"
    then have "card Q + card R = card (Q \<union> R)"
      using fin by (simp add: card_Un_disjoint)
    also have "\<dots> \<le> length members"
      using Q R card_mono [of "set members" "Q \<union> R"] by (simp add: majority_def distinct_card)
    finally show False
      using Q R unfolding majority_def has_quorum_def quorum_def by linarith
  qed
qed

lemma tally_card:
  assumes "distinct members" "self_id \<in> set members"
  shows "tally self_id members granted = card (insert self_id {m \<in> set members. granted m})"
proof -
  have "fold (\<lambda>m votes. if m = self_id then votes else if granted m then votes + 1 else votes) ms n =
      n + card {m \<in> set ms. m \<noteq> self_id \<and> granted m}" if "distinct ms" for ms n
    using that
  proof (induction ms arbitrary: n)
    case (Cons m ms)
    have "{x \<in> set (m # ms). x \<noteq> self_id \<and> granted x} =
        (if m \<noteq> self_id \<and> granted m then insert m {x \<in> set ms. x \<noteq> self_id \<and> granted x}
         else {x \<in> set ms. x \<noteq> self_id \<and> granted x})"
      by auto
    then show ?case
      using Cons by simp
  qed simp
  then have "tally self_id members granted = 1 + card {m \<in> set members. m \<noteq> self_id \<and> granted m}"
    using assms(1) by (simp add: tally_def)
  also have "\<dots> = card (insert self_id {m \<in> set members. m \<noteq> self_id \<and> granted m})"
    by simp
  also have "insert self_id {m \<in> set members. m \<noteq> self_id \<and> granted m} = insert self_id {m \<in> set members. granted m}"
    by auto
  finally show ?thesis .
qed

section \<open>At most one winner per term\<close>

lemmas election_defs = consider_vote_def start_candidacy_def observe_term_def step_down_def
  become_leader_def observe_leader_def leader_info_def Let_def

text \<open>A vote once cast binds its voter: it is in an older term, or it is the vote the node holds.\<close>

definition binds :: "ElectionState \<Rightarrow> u64 \<Rightarrow> node_id \<Rightarrow> bool" where
  "binds s t c \<longleftrightarrow> t < current_term s \<or> (t = current_term s \<and> voted_for s = Some c)"

definition cluster_inv :: "node_id list \<Rightarrow> cluster \<Rightarrow> bool" where
  "cluster_inv members c \<longleftrightarrow>
     (\<forall>t v a. (t, v, a) \<in> cl_cast c \<longrightarrow> binds (cl_node c v) t a)
     \<and> (\<forall>t v a b. (t, v, a) \<in> cl_cast c \<longrightarrow> (t, v, b) \<in> cl_cast c \<longrightarrow> a = b)
     \<and> (\<forall>i t votes. cl_running c i = Some (t, votes) \<longrightarrow>
          i \<in> votes \<and> votes \<subseteq> set members \<and> (\<forall>v \<in> votes. (t, v, i) \<in> cl_cast c))
     \<and> (\<forall>t i. (t, i) \<in> cl_won c \<longrightarrow> (\<exists>Q. majority members Q \<and> (\<forall>v \<in> Q. (t, v, i) \<in> cl_cast c)))"

lemma binds_kept:
  "binds s t c \<Longrightarrow> binds (observe_term u s) t c"
  "binds s t c \<Longrightarrow> binds (become_leader i s) t c"
  "binds s t c \<Longrightarrow> binds (observe_leader u l s) t c"
  "binds s t c \<Longrightarrow> consider_vote u d s = (r, s') \<Longrightarrow> binds s' t c"
  by (auto simp: binds_def election_defs split: if_splits option.splits)

lemma start_binds:
  assumes "start_candidacy i s = (t, s')" "current_term s \<noteq> - 1"
  shows "t = current_term s + 1" "binds s' t i" "binds s u c \<Longrightarrow> binds s' u c" "binds s u c \<Longrightarrow> u < t"
proof -
  have "1 + current_term s \<noteq> 0"
    using assms(2) by (metis add.commute eq_neg_iff_add_eq_0)
  then have "current_term s < current_term s + 1"
    using unatSuc [of "current_term s"] by (simp add: word_less_nat_alt add.commute)
  then show "t = current_term s + 1" "binds s' t i" "binds s u c \<Longrightarrow> binds s' u c" "binds s u c \<Longrightarrow> u < t"
    using assms(1) by (auto simp: binds_def start_candidacy_def Let_def)
qed

text \<open>A granted vote is the vote the node holds, and agrees with any vote it cast in the term.\<close>

lemma grant_binds:
  assumes "consider_vote t i s = (r, s')" "vr_granted r"
  shows "binds s' t i" "binds s t c \<Longrightarrow> c = i"
  using assms by (auto simp: binds_def election_defs split: if_splits option.splits)

lemma at_node_sel [simp]:
  "cl_node (at_node i s c) = (cl_node c)(i := s)" "cl_running (at_node i s c) = cl_running c"
  "cl_won (at_node i s c) = cl_won c" "cl_cast (at_node i s c) = cl_cast c"
  by (simp_all add: at_node_def)

lemma cluster_invD:
  assumes "cluster_inv members c"
  shows "(t, v, a) \<in> cl_cast c \<Longrightarrow> binds (cl_node c v) t a"
    "(t, v, a) \<in> cl_cast c \<Longrightarrow> (t, v, b) \<in> cl_cast c \<Longrightarrow> a = b"
    "cl_running c i = Some (t, votes) \<Longrightarrow> i \<in> votes \<and> votes \<subseteq> set members \<and> (\<forall>v \<in> votes. (t, v, i) \<in> cl_cast c)"
    "(t, i) \<in> cl_won c \<Longrightarrow> \<exists>Q. majority members Q \<and> (\<forall>v \<in> Q. (t, v, i) \<in> cl_cast c)"
  using assms unfolding cluster_inv_def by blast+

text \<open>Steps that cast no vote keep the invariant when every node stays bound to its votes.\<close>

lemma cluster_inv_quiet:
  assumes "cluster_inv members c" "cl_running c' = cl_running c" "cl_won c' = cl_won c" "cl_cast c' = cl_cast c"
    and "\<And>v t a. binds (cl_node c v) t a \<Longrightarrow> binds (cl_node c' v) t a"
  shows "cluster_inv members c'"
  using assms(1) unfolding cluster_inv_def assms(2-4) using assms(5) by blast

text \<open>A new vote that binds its voter and agrees with its earlier votes keeps the invariant.\<close>

lemma cluster_inv_cast:
  assumes "cluster_inv members c" "cl_won c' = cl_won c" "cl_cast c' = insert (t, j, i) (cl_cast c)"
    and "\<And>v u a. binds (cl_node c v) u a \<Longrightarrow> binds (cl_node c' v) u a" "binds (cl_node c' j) t i"
    and "\<And>a. binds (cl_node c j) t a \<Longrightarrow> a = i" "j \<in> set members"
    and "cl_running c' = cl_running c \<or> cl_running c' = (cl_running c)(i \<mapsto> (t, {i})) \<and> j = i
      \<or> (\<exists>votes. cl_running c i = Some (t, votes) \<and> cl_running c' = (cl_running c)(i \<mapsto> (t, insert j votes)))"
  shows "cluster_inv members c'"
  unfolding cluster_inv_def assms(2,3)
proof (intro conjI allI impI)
  note inv = cluster_invD [OF assms(1)]
  show "binds (cl_node c' v) u a" if "(u, v, a) \<in> insert (t, j, i) (cl_cast c)" for u v a
    using that assms(4,5) inv(1) by blast
  show "a = b" if "(u, v, a) \<in> insert (t, j, i) (cl_cast c)" "(u, v, b) \<in> insert (t, j, i) (cl_cast c)" for u v a b
    using that assms(6) inv(1,2) by blast
  show "\<exists>Q. majority members Q \<and> (\<forall>v \<in> Q. (u, v, k) \<in> insert (t, j, i) (cl_cast c))" if "(u, k) \<in> cl_won c" for u k
    using inv(4) [OF that] by blast
  fix k u votes assume run: "cl_running c' k = Some (u, votes)"
  have old: "cl_running c k = Some (u, votes) \<or> k = i \<and> u = t \<and> (j = i \<and> votes = {i}
      \<or> (\<exists>vs. cl_running c i = Some (t, vs) \<and> votes = insert j vs))"
    using run assms(8) by (auto split: if_splits)
  then show "k \<in> votes" "votes \<subseteq> set members" "\<forall>v \<in> votes. (u, v, k) \<in> insert (t, j, i) (cl_cast c)"
    using inv(3) assms(7) by blast+
qed

lemma cluster_inv_win:
  assumes "cluster_inv members c" "distinct members" "cl_running c i = Some (t, votes)"
    and "has_quorum (tally i members (\<lambda>m. m \<in> votes)) (length members)"
  shows "cluster_inv members (c\<lparr>cl_won := insert (t, i) (cl_won c)\<rparr>)"
proof -
  note run = cluster_invD(3) [OF assms(1,3)]
  have "tally i members (\<lambda>m. m \<in> votes) = card votes"
    using tally_card [OF assms(2), of i "\<lambda>m. m \<in> votes"] run by (auto simp: insert_absorb Int_def [symmetric] Int_absorb1
        intro!: arg_cong [where f = card])
  then have "majority members votes"
    using assms(4) run assms(2) by (simp add: majority_def)
  then show ?thesis
    using assms(1) run unfolding cluster_inv_def by auto
qed

lemma cluster_step_inv:
  assumes "cluster_step members c c'" "cluster_inv members c" "distinct members"
  shows "cluster_inv members c'"
  using assms(1)
proof cases
  case (start i t s)
  note b = start_binds [OF start(4,3)]
  show ?thesis
    by (rule cluster_inv_cast [OF assms(2), where t = t and i = i and j = i])
      (use start b in \<open>auto dest: b(4)\<close>)
next
  case (grant i t votes j reply s)
  show ?thesis
    by (rule cluster_inv_cast [OF assms(2), where t = t and i = i and j = j])
      (use grant grant_binds [OF grant(5,6)] binds_kept(4) [OF _ grant(5)] in auto)
next
  case (lost i t votes j reply s)
  show ?thesis
    by (rule cluster_inv_cast [OF assms(2), where t = t and i = i and j = j])
      (use lost grant_binds [OF lost(5,6)] binds_kept(4) [OF _ lost(5)] in auto)
next
  case (refuse i t votes j reply s)
  show ?thesis
    by (rule cluster_inv_quiet [OF assms(2)])
      (use refuse binds_kept(1) binds_kept(4) [OF _ refuse(5)] in auto)
next
  case (win i t votes)
  then show ?thesis
    using cluster_inv_win [OF assms(2,3)] by simp
next
  case (lead t i)
  show ?thesis
    by (rule cluster_inv_quiet [OF assms(2)]) (use lead binds_kept(2) in auto)
next
  case (see_term i j)
  show ?thesis
    by (rule cluster_inv_quiet [OF assms(2)]) (use see_term binds_kept(1) in auto)
next
  case (see_leader j t l i)
  show ?thesis
    by (rule cluster_inv_quiet [OF assms(2)]) (use see_leader binds_kept(3) in auto)
qed

lemma cluster_reach_inv: "cluster_reach members c \<Longrightarrow> distinct members \<Longrightarrow> cluster_inv members c"
proof (induction rule: cluster_reach.induct)
  case cluster_start
  then show ?case
    by (simp add: cluster_inv_def cluster_init_def)
qed (rule cluster_step_inv)

text \<open>
  C11. Election safety: however vote requests, answers, losses and observations interleave, no two
  nodes reach a quorum of votes in the same term.
\<close>

theorem election_safety:
  assumes "cluster_reach members c" "distinct members" "(t, i) \<in> cl_won c" "(t, j) \<in> cl_won c"
  shows "i = j"
proof -
  note inv = cluster_invD [OF cluster_reach_inv [OF assms(1,2)]]
  obtain Q R where "majority members Q" "\<forall>v \<in> Q. (v, i) \<in> {(v, a). (t, v, a) \<in> cl_cast c}"
    "majority members R" "\<forall>v \<in> R. (v, j) \<in> {(v, a). (t, v, a) \<in> cl_cast c}"
    using inv(4) assms(3,4) by (metis (no_types, lifting) case_prodI mem_Collect_eq)
  then show ?thesis
    using maj.one_winner [of "{(v, a). (t, v, a) \<in> cl_cast c}" members Q i R j] inv(2) by auto
qed

section \<open>Runs\<close>

text \<open>The steps as functions, to build runs of three members.\<close>

definition do_start :: "node_id \<Rightarrow> cluster \<Rightarrow> cluster" where
  "do_start i c = (case start_candidacy i (cl_node c i) of (t, s) \<Rightarrow>
     at_node i s c\<lparr>cl_running := (cl_running c)(i \<mapsto> (t, {i})), cl_cast := insert (t, i, i) (cl_cast c)\<rparr>)"

definition do_grant :: "node_id \<Rightarrow> node_id \<Rightarrow> cluster \<Rightarrow> cluster" where
  "do_grant i j c = (case cl_running c i of Some (t, votes) \<Rightarrow>
     at_node j (snd (consider_vote t i (cl_node c j))) c
       \<lparr>cl_running := (cl_running c)(i \<mapsto> (t, insert j votes)), cl_cast := insert (t, j, i) (cl_cast c)\<rparr> | None \<Rightarrow> c)"

definition do_win :: "node_id \<Rightarrow> cluster \<Rightarrow> cluster" where
  "do_win i c = (case cl_running c i of Some (t, votes) \<Rightarrow> c\<lparr>cl_won := insert (t, i) (cl_won c)\<rparr> | None \<Rightarrow> c)"

definition do_lead :: "node_id \<Rightarrow> cluster \<Rightarrow> cluster" where
  "do_lead i c = at_node i (become_leader i (cl_node c i)) c"

lemma reach_start:
  "cluster_reach ms c \<Longrightarrow> i \<in> set ms \<Longrightarrow> current_term (cl_node c i) \<noteq> - 1 \<Longrightarrow> cluster_reach ms (do_start i c)"
  by (cases "start_candidacy i (cl_node c i)") (auto simp: do_start_def intro: cluster_next cluster_step.start)

lemma reach_grant:
  assumes "cluster_reach ms c" "cl_running c i = Some (t, votes)" "j \<in> set ms" "j \<noteq> i"
    and "vr_granted (fst (consider_vote t i (cl_node c j)))"
  shows "cluster_reach ms (do_grant i j c)"
  using assms by (cases "consider_vote t i (cl_node c j)")
    (auto simp: do_grant_def intro: cluster_next cluster_step.grant)

lemma reach_win:
  assumes "cluster_reach ms c" "cl_running c i = Some (t, votes)"
    and "has_quorum (tally i ms (\<lambda>m. m \<in> votes)) (length ms)"
  shows "cluster_reach ms (do_win i c)"
  using assms by (auto simp: do_win_def intro: cluster_next cluster_step.win)

lemma reach_lead: "cluster_reach ms c \<Longrightarrow> (t, i) \<in> cl_won c \<Longrightarrow> cluster_reach ms (do_lead i c)"
  by (auto simp: do_lead_def intro: cluster_next cluster_step.lead)

abbreviation abc :: "node_id list" where
  "abc \<equiv> [''A'', ''B'', ''C'']"

definition a_wins :: cluster where
  "a_wins = do_win ''A'' (do_grant ''A'' ''C'' (do_start ''A'' cluster_init))"

lemmas run_defs = do_start_def do_grant_def do_win_def do_lead_def election_defs cluster_init_def default_election_def
  has_quorum_def quorum_def tally_def

lemma a_wins_reach: "cluster_reach abc a_wins"
  unfolding a_wins_def
  by (rule reach_win, rule reach_grant, rule reach_start, rule cluster_start) ((simp add: run_defs)+)

theorem election_safety_witness:
  "cluster_reach abc a_wins \<and> (1, ''A'') \<in> cl_won a_wins \<and> (1, ''B'') \<notin> cl_won a_wins"
proof -
  have won: "(1, ''A'') \<in> cl_won a_wins"
    by (simp add: a_wins_def run_defs)
  moreover have "(1, ''B'') \<notin> cl_won a_wins"
    using election_safety [OF a_wins_reach _ won, of "''B''"] by auto
  ultimately show ?thesis
    using a_wins_reach by blast
qed

text \<open>
  \<open>elect\<close> does not look at the term again before the node marks itself leader: a node that won
  term 1 and was then called to vote in term 2 marks itself leader of term 2, next to the winner
  of term 2.
\<close>

definition two_leaders :: cluster where
  "two_leaders = do_lead ''A'' (do_lead ''B'' (do_win ''B'' (do_grant ''B'' ''A'' (do_start ''B'' (do_start ''B'' a_wins)))))"

lemma leader_flags_may_clash:
  "cluster_reach abc two_leaders
    \<and> is_leader (cl_node two_leaders ''A'') \<and> is_leader (cl_node two_leaders ''B'')
    \<and> current_term (cl_node two_leaders ''A'') = current_term (cl_node two_leaders ''B'')"
proof -
  have "cluster_reach abc (do_win ''B'' (do_grant ''B'' ''A'' (do_start ''B'' (do_start ''B'' a_wins))))"
    by (rule reach_win, rule reach_grant, rule reach_start, rule reach_start, rule a_wins_reach)
      ((simp add: a_wins_def run_defs)+)
  then have "cluster_reach abc two_leaders"
    unfolding two_leaders_def
    by (intro reach_lead [where i = "''A''" and t = 1] reach_lead [where i = "''B''" and t = 2])
      (simp_all add: a_wins_def run_defs)
  then show ?thesis
    by (simp add: two_leaders_def a_wins_def run_defs)
qed

text \<open>
  The election state is kept in memory only: a node that restarts has forgotten its vote and may
  give a second one in the same term, to another candidate.
\<close>

lemma restart_votes_twice:
  assumes "0 < t" "consider_vote t a default_election = (r, s)" "consider_vote t b default_election = (r', s')"
  shows "vr_granted r \<and> vr_granted r' \<and> voted_for s = Some a \<and> voted_for s' = Some b
    \<and> current_term s = current_term s'"
  using assms by (auto simp: election_defs default_election_def)

text \<open>A node that learns of the leader of a newer term keeps the vote of its old term for it.\<close>

lemma observe_leader_keeps_vote:
  "current_term s < t \<Longrightarrow> voted_for s = Some a \<Longrightarrow> b \<noteq> a \<Longrightarrow>
   \<not> vr_granted (fst (consider_vote t b (observe_leader t l s)))"
  by (simp add: election_defs order.strict_implies_order)

section \<open>Following and promoting\<close>

text \<open>Discovery finds the highest term that any other member advertised a leader for.\<close>

lemma discover_leader_max:
  assumes "discover_leader self_id answer members = Some (t, l)" "m \<in> set members" "m \<noteq> self_id"
    and "answer m = Some info" "li_leader info \<noteq> None"
  shows "li_term info \<le> t"
proof -
  define step where "step = (\<lambda>m best.
       if m = self_id then best
       else case answer m of
           None \<Rightarrow> best
         | Some info \<Rightarrow>
             (case li_leader info of
                None \<Rightarrow> best
              | Some l \<Rightarrow> if (case best of Some (bt, _) \<Rightarrow> bt < li_term info | None \<Rightarrow> True)
                  then Some (li_term info, l) else best))"
  have grows: "\<exists>bt' l'. fold step ms (Some (bt, l)) = Some (bt', l') \<and> bt \<le> bt'" for ms bt l
  proof (induction ms arbitrary: bt l)
    case (Cons x ms)
    have "\<exists>bt1 l1. step x (Some (bt, l)) = Some (bt1, l1) \<and> bt \<le> bt1"
      by (auto simp: step_def order.strict_implies_order split: option.split)
    then obtain bt1 l1 where "step x (Some (bt, l)) = Some (bt1, l1)" "bt \<le> bt1"
      by blast
    then show ?case
      using Cons.IH [of bt1 l1] by fastforce
  qed simp
  have ends: "\<exists>bt' l'. fold step ms best = Some (bt', l') \<and> li_term info \<le> bt'" if "m \<in> set ms" for ms best
    using that
  proof (induction ms arbitrary: best)
    case (Cons x ms)
    show ?case
    proof (cases "x = m")
      case True
      have "\<exists>bt1 l1. step x best = Some (bt1, l1) \<and> li_term info \<le> bt1"
        using assms(3-5) True by (cases best) (auto simp: step_def not_less)
      then obtain bt1 l1 where "step x best = Some (bt1, l1)" "li_term info \<le> bt1"
        by blast
      then show ?thesis
        using grows [of ms bt1 l1] by fastforce
    qed (use Cons in simp)
  qed simp
  show ?thesis
    using ends [OF assms(2), of None] assms(1) unfolding discover_leader_def step_def [symmetric] by auto
qed

text \<open>The votes collected are the tally of the members that granted.\<close>

definition granted_by :: "(node_id \<Rightarrow> VoteReply option) \<Rightarrow> node_id \<Rightarrow> bool" where
  "granted_by answer m \<longleftrightarrow> (case answer m of Some v \<Rightarrow> vr_granted v | None \<Rightarrow> False)"

lemma collect_votes_tally: "fst (collect_votes self_id answer members 1 s) = tally self_id members (granted_by answer)"
proof -
  have "fst (collect_votes self_id answer ms n s) =
      fold (\<lambda>m votes. if m = self_id then votes else if granted_by answer m then votes + 1 else votes) ms n" for ms n
    by (induction ms arbitrary: n s) (auto simp: granted_by_def split: option.splits)
  then show ?thesis
    by (simp add: tally_def)
qed

text \<open>Collecting votes raises the term only to one that a member reported.\<close>

lemma observe_term_term: "current_term (observe_term t s) = max (current_term s) t"
  by (auto simp: observe_term_def step_down_def max_def)

lemma collect_votes_term:
  "current_term s \<le> current_term (snd (collect_votes self_id answer members n s))
   \<and> (current_term (snd (collect_votes self_id answer members n s)) = current_term s
      \<or> (\<exists>m v. m \<in> set members \<and> answer m = Some v
           \<and> vr_term v = current_term (snd (collect_votes self_id answer members n s))))"
proof (induction members arbitrary: n s)
  case (Cons m ms)
  show ?case
  proof (cases "m = self_id \<or> answer m = None \<or> vr_granted (the (answer m))")
    case True
    then have "collect_votes self_id answer (m # ms) n s \<in> {collect_votes self_id answer ms n s, collect_votes self_id answer ms (n + 1) s}"
      by (cases "answer m") auto
    then obtain k where "collect_votes self_id answer (m # ms) n s = collect_votes self_id answer ms k s"
      by blast
    then show ?thesis
      using Cons.IH [of s k] by auto
  next
    case False
    then obtain v where v: "answer m = Some v" "\<not> vr_granted v" "m \<noteq> self_id"
      by auto
    then show ?thesis
      using Cons.IH [of "observe_term (vr_term v) s" n] by (auto simp: observe_term_term max_def split: if_splits)
  qed
qed simp

definition voters :: "node_id \<Rightarrow> node_id list \<Rightarrow> (node_id \<Rightarrow> VoteReply option) \<Rightarrow> node_id set" where
  "voters self_id members answer = insert self_id {m \<in> set members. granted_by answer m}"

lemma collect_votes_majority:
  assumes "distinct members" "self_id \<in> set members"
  shows "has_quorum (fst (collect_votes self_id answer members 1 s)) (length members)
    \<longleftrightarrow> majority members (voters self_id members answer)"
  unfolding collect_votes_tally tally_card [OF assms] using assms by (auto simp: majority_def voters_def)

lemma elect_unfold:
  assumes "distinct members" "self_id \<in> set members"
  shows "elect self_id members pre_vote request_vote s =
    (let s1 = snd (collect_votes self_id (pre_vote (current_term s + 1)) members 1 s);
         t = current_term s1 + 1
     in if majority members (voters self_id members (pre_vote (current_term s + 1)))
        then (majority members (voters self_id members (request_vote t)),
              snd (collect_votes self_id (request_vote t) members 1 (snd (start_candidacy self_id s1))))
        else (False, s1))"
proof -
  have "members \<noteq> []"
    using assms(2) by auto
  then show ?thesis
    by (simp add: elect_def case_prod_beta start_candidacy_def Let_def collect_votes_majority [OF assms]
        del: collect_votes.simps One_nat_def)
qed

text \<open>A node that fails the pre-vote has not started a candidacy: no term comes from itself.\<close>

lemma failed_pre_vote_keeps_term:
  assumes "elect self_id members pre_vote request_vote s = (won, s')" "distinct members" "self_id \<in> set members"
    and "\<not> majority members (voters self_id members (pre_vote (current_term s + 1)))"
  shows "\<not> won \<and> (current_term s' = current_term s
    \<or> (\<exists>m v. m \<in> set members \<and> pre_vote (current_term s + 1) m = Some v \<and> vr_term v = current_term s'))"
  using assms(1,4) collect_votes_term [of s self_id "pre_vote (current_term s + 1)" members 1]
  by (auto simp: elect_unfold [OF assms(2,3)])


definition sample_answers :: poll_answers where
  "sample_answers = \<lparr> pa_synced = False, pa_leader = (\<lambda>_. None),
     pa_pre_vote = (\<lambda>t m. if m = ''B'' then Some (consider_pre_vote t default_election) else None),
     pa_request_vote = (\<lambda>t m. if m = ''B'' then Some (fst (consider_vote t ''A'' default_election)) else None),
     pa_ready = (\<lambda>_. None) \<rparr>"

definition sample_follower :: follower where
  "sample_follower = \<lparr> fo_primary = ''P'', fo_misses = 2, fo_election = Some default_election \<rparr>"


end
