(* ===== verification/Rpc.thy ===== *)
theory Rpc
  imports Block_Producer Election
begin

text \<open>
  The node's JSON-RPC handlers, \<open>src/himsha-node/src/main.rs\<close>: admission of transactions, the
  faucet, deployment, and the queries of the explorer. Parsing of base58 keys and hexadecimal
  text is third-party code, the functions \<open>rp_key\<close> and \<open>rp_hex\<close>; identifiers are returned as
  values instead of their text. The environment variables of the faucet are \<open>rp_faucet\<close>: the
  cap when it is enabled.
\<close>

section \<open>State\<close>

datatype rpc_reason =
    InvalidSignature
  | Replayed replay_error
  | DuplicateTransaction
  | AlreadySubmitted
  | PreflightFailed exec_reason
  | FaucetDisabled
  | FaucetCap u64
  | BadText
  | BadLength
  | AccountExists
  | StateFailed state_error

record rpc_error =
  re_code :: int
  re_reason :: rpc_reason

record rpc_env =
  rp_node :: node_env
  rp_key :: "bytes \<Rightarrow> Pubkey option"
  rp_hex :: "bytes \<Rightarrow> bytes option"
  rp_chain_id :: u64
  rp_faucet :: "u64 option"

record HimshaNode =
  hn_state :: NodeState
  hn_registry :: ProgramRegistry
  hn_pending :: "RuntimeTransaction list"
  hn_election :: ElectionState

type_synonym 'a rpc = "HimshaNode \<Rightarrow> (rpc_error, 'a) result"

definition MAX_BLOCKHASH_AGE :: u64 where
  "MAX_BLOCKHASH_AGE = 150"

definition chain_id_for_network :: "string \<Rightarrow> u64" where
  "chain_id_for_network network =
     (if network = ''mainnet'' \<or> network = ''bitcoin'' then 1
      else if network = ''testnet'' then 2
      else if network = ''signet'' then 3
      else 4)"

definition rpc_err :: "int \<Rightarrow> rpc_reason \<Rightarrow> rpc_error" where
  "rpc_err code reason = \<lparr> re_code = code, re_reason = reason \<rparr>"

abbreviation rp_state :: "rpc_env \<Rightarrow> state_env" where
  "rp_state e \<equiv> ne_state (rp_node e)"

definition parse_key :: "rpc_env \<Rightarrow> int \<Rightarrow> bytes \<Rightarrow> (rpc_error, Pubkey) result" where
  "parse_key e code text = ok_or (rp_key e text) (rpc_err code BadText)"

definition state_err :: "int \<Rightarrow> 'a sresult \<Rightarrow> (rpc_error, 'a) result" where
  "state_err code r = map_err (\<lambda>err. rpc_err code (StateFailed err)) r"

section \<open>Admission\<close>

definition faucet_guard :: "rpc_env \<Rightarrow> u64 \<Rightarrow> (rpc_error, unit) result" where
  "faucet_guard e lamports =
     (case rp_faucet e of
        None \<Rightarrow> Err (rpc_err (- 32020) FaucetDisabled)
      | Some cap \<Rightarrow> if cap < lamports then Err (rpc_err (- 32029) (FaucetCap cap)) else Ok ())"

text \<open>\<open>matches!(status, Some(Pending) | Some(Succeeded { .. }))\<close>\<close>

fun in_flight :: "TxStatus option sresult \<Rightarrow> bool" where
  "in_flight (Ok (Some Pending)) = True"
| "in_flight (Ok (Some (Succeeded slot))) = True"
| "in_flight _ = False"

text \<open>The checks of \<open>send_transaction\<close> before the preflight; the value is the transaction's id.\<close>

definition admission_checks :: "rpc_env \<Rightarrow> RuntimeTransaction \<Rightarrow> bytes32 rpc" where
  "admission_checks e tx h =
     rbind (verify_signatures (ne_tx (rp_node e)) tx) (\<lambda>valid_sigs.
     if \<not> valid_sigs then Err (rpc_err (- 32000) InvalidSignature)
     else
       let valid = recent_blockhashes (rp_state e) MAX_BLOCKHASH_AGE (hn_state h) in
       rbind (map_err (\<lambda>reason. rpc_err (- 32001) (Replayed reason))
         (check_chain_and_blockhash tx (rp_chain_id e) valid)) (\<lambda>_.
       rbind (message_hash (ne_tx (rp_node e)) (tx_message tx)) (\<lambda>txid.
       if tx_slot txid (hn_state h) \<noteq> None then Err (rpc_err (- 32002) DuplicateTransaction)
       else if in_flight (get_tx_status (rp_state e) txid (hn_state h))
         then Err (rpc_err (- 32002) AlreadySubmitted)
       else Ok txid)))"

definition accept :: "rpc_env \<Rightarrow> RuntimeTransaction \<Rightarrow> bytes32 \<Rightarrow> HimshaNode \<Rightarrow> HimshaNode" where
  "accept e tx txid h =
     h\<lparr>hn_state := or_keep (hn_state h) (set_tx_status (rp_state e) txid Pending (hn_state h)),
       hn_pending := hn_pending h @ [tx]\<rparr>"

definition send_transaction ::
  "rpc_env \<Rightarrow> RuntimeTransaction \<Rightarrow> (ctx \<times> HimshaNode, rpc_error, bytes32) exec" where
  "send_transaction e tx = (\<lambda>(c, h).
     case admission_checks e tx h of
       Ok txid \<Rightarrow>
         (case apply_tx (rp_node e) (hn_registry h) tx Preflight (c, hn_state h) of
            (Ok u, (c', s')) \<Rightarrow> (Ok txid, (c', accept e tx txid (h\<lparr>hn_state := s'\<rparr>)))
          | (Err err, (c', s')) \<Rightarrow>
              (Err (rpc_err (ee_code err) (PreflightFailed (ee_reason err))), (c', h\<lparr>hn_state := s'\<rparr>))
          | (Panic, (c', s')) \<Rightarrow> (Panic, (c', h\<lparr>hn_state := s'\<rparr>)))
     | Err err \<Rightarrow> (Err err, (c, h))
     | Panic \<Rightarrow> (Panic, (c, h)))"

fun send_transactions ::
  "rpc_env \<Rightarrow> RuntimeTransaction list \<Rightarrow> (ctx \<times> HimshaNode, rpc_error, bytes32 list) exec" where
  "send_transactions e [] = xret []"
| "send_transactions e (tx # txs) =
     xbind (send_transaction e tx) (\<lambda>txid. xbind (send_transactions e txs) (\<lambda>ids. xret (txid # ids)))"

section \<open>Faucet and deployment\<close>

definition request_airdrop :: "rpc_env \<Rightarrow> bytes \<Rightarrow> u64 \<Rightarrow> HimshaNode \<Rightarrow> (rpc_error, u64 \<times> HimshaNode) result" where
  "request_airdrop e pubkey lamports h =
     rbind (faucet_guard e lamports) (\<lambda>_.
     rbind (parse_key e (- 32021) pubkey) (\<lambda>key.
     rbind (state_err (- 32022) (load_account (rp_state e) key (hn_state h))) (\<lambda>stored.
     let account = (case stored of
           Some st \<Rightarrow> into_account st key
         | None \<Rightarrow> new_account key (system_program (vm_sha (ne_vm (rp_node e)))) 0 0);
         account = account\<lparr>a_lamports := saturating_add (a_lamports account) lamports\<rparr>
     in rbind (state_err (- 32023) (save_account (rp_state e) key (stored_from account) (hn_state h))) (\<lambda>s.
     Ok (a_lamports account, h\<lparr>hn_state := s\<rparr>)))))"

definition create_account_with_faucet ::
  "rpc_env \<Rightarrow> bytes \<Rightarrow> u64 \<Rightarrow> u64 \<Rightarrow> HimshaNode \<Rightarrow> (rpc_error, AccountInfo \<times> HimshaNode) result" where
  "create_account_with_faucet e pubkey lamports space h =
     rbind (faucet_guard e lamports) (\<lambda>_.
     rbind (parse_key e (- 32026) pubkey) (\<lambda>key.
     if account_exists (rp_state e) key (hn_state h) then Err (rpc_err (- 32027) AccountExists)
     else if 2 ^ 63 \<le> unat space then Panic
     else
       let account = new_account key (system_program (vm_sha (ne_vm (rp_node e)))) lamports (unat space) in
       rbind (state_err (- 32028) (save_account (rp_state e) key (stored_from account) (hn_state h))) (\<lambda>s.
       Ok (account, h\<lparr>hn_state := s\<rparr>))))"

text \<open>\<open>copy_from_slice\<close> panics unless the image id has 32 bytes.\<close>

definition deploy_program ::
  "rpc_env \<Rightarrow> bytes \<Rightarrow> bytes \<Rightarrow> HimshaNode \<Rightarrow> (rpc_error, Pubkey \<times> HimshaNode) result" where
  "deploy_program e elf_hex image_id_hex h =
     rbind (ok_or (rp_hex e elf_hex) (rpc_err (- 32005) BadText)) (\<lambda>elf.
     rbind (ok_or (rp_hex e image_id_hex) (rpc_err (- 32006) BadText)) (\<lambda>image_id_bytes.
     if length image_id_bytes \<noteq> 32 then Panic
     else
       let image_id = bytes_to_word image_id_bytes; program_id = image_id in
       Ok (program_id,
         h\<lparr>hn_state := deploy_program_state program_id elf image_id (hn_state h),
           hn_registry := register (hn_registry h) program_id elf image_id\<rparr>)))"

section \<open>Queries\<close>

definition get_account_info :: "rpc_env \<Rightarrow> bytes \<Rightarrow> AccountInfo option rpc" where
  "get_account_info e pubkey h =
     rbind (parse_key e (- 32003) pubkey) (\<lambda>key.
     rbind (state_err (- 32004) (load_account (rp_state e) key (hn_state h))) (\<lambda>stored.
     Ok (map_option (\<lambda>s. into_account s key) stored)))"

definition get_program_accounts :: "rpc_env \<Rightarrow> bytes \<Rightarrow> accounts rpc" where
  "get_program_accounts e program_id h =
     rbind (parse_key e (- 32009) program_id) (\<lambda>owner.
     state_err (- 32010) (accounts_by_owner (rp_state e) owner (hn_state h)))"

fun get_multiple_accounts :: "rpc_env \<Rightarrow> bytes list \<Rightarrow> AccountInfo option list rpc" where
  "get_multiple_accounts e [] h = Ok []"
| "get_multiple_accounts e (p # ps) h =
     rbind (parse_key e (- 32024) p) (\<lambda>key.
     rbind (state_err (- 32025) (load_account (rp_state e) key (hn_state h))) (\<lambda>stored.
     rbind (get_multiple_accounts e ps h) (\<lambda>out.
     Ok (map_option (\<lambda>s. into_account s key) stored # out))))"

definition get_block :: "rpc_env \<Rightarrow> u64 \<Rightarrow> Block option rpc" where
  "get_block e slot h = Ok (block_at (rp_state e) slot (hn_state h))"

definition get_slot :: "rpc_env \<Rightarrow> u64 rpc" where
  "get_slot e h = Ok (current_slot (hn_state h))"

definition block_hash_at :: "rpc_env \<Rightarrow> u64 \<Rightarrow> HimshaNode \<Rightarrow> bytes32 option" where
  "block_hash_at e slot h = map_option b_blockhash (block_at (rp_state e) slot (hn_state h))"

definition get_block_hash :: "rpc_env \<Rightarrow> u64 \<Rightarrow> bytes32 option rpc" where
  "get_block_hash e slot h = Ok (block_hash_at e slot h)"

definition get_best_block_hash :: "rpc_env \<Rightarrow> bytes32 option rpc" where
  "get_best_block_hash e h = Ok (block_hash_at e (current_slot (hn_state h)) h)"

fun find_tx :: "rpc_env \<Rightarrow> bytes32 \<Rightarrow> RuntimeTransaction list \<Rightarrow> (rpc_error, RuntimeTransaction option) result" where
  "find_tx e txid [] = Ok None"
| "find_tx e txid (tx # txs) =
     rbind (message_hash (ne_tx (rp_node e)) (tx_message tx)) (\<lambda>h.
     if h = txid then Ok (Some tx) else find_tx e txid txs)"

definition get_processed_transaction :: "rpc_env \<Rightarrow> bytes \<Rightarrow> RuntimeTransaction option rpc" where
  "get_processed_transaction e txid h =
     (case rp_hex e txid of
        Some raw \<Rightarrow>
          if length raw = 32 then
            (case tx_slot (bytes_to_word raw) (hn_state h) of
               Some slot \<Rightarrow>
                 (case block_at (rp_state e) slot (hn_state h) of
                    Some block \<Rightarrow> find_tx e (bytes_to_word raw) (b_transactions block)
                  | None \<Rightarrow> Ok None)
             | None \<Rightarrow> Ok None)
          else Ok None
      | None \<Rightarrow> Ok None)"

text \<open>The inner loop pushes and then stops when the limit is reached.\<close>

fun push_upto :: "u32 \<Rightarrow> RuntimeTransaction list \<Rightarrow> RuntimeTransaction list \<Rightarrow> RuntimeTransaction list" where
  "push_upto limit out [] = out"
| "push_upto limit out (tx # txs) =
     (let out = out @ [tx] in if limit \<le> word_of_nat (length out) then out else push_upto limit out txs)"

lemma pred_slot: "floor < (slot :: u64) \<Longrightarrow> unat (slot - 1) = unat slot - 1"
  by (metis unat_minus_one word_not_simps(1))

function recent_loop ::
  "rpc_env \<Rightarrow> NodeState \<Rightarrow> u64 \<Rightarrow> u32 \<Rightarrow> u64 \<Rightarrow> RuntimeTransaction list \<Rightarrow> RuntimeTransaction list" where
  "recent_loop e s floor limit slot out =
     (if floor < slot \<and> word_of_nat (length out) < limit then
        recent_loop e s floor limit (slot - 1)
          (case block_at (rp_state e) slot s of
             Some block \<Rightarrow> push_upto limit out (b_transactions block)
           | None \<Rightarrow> out)
      else out)"
  by auto
termination
  by (relation "measure (\<lambda>(e, s, floor, limit, slot, out). unat slot)")
    (auto simp: pred_slot word_less_nat_alt)

declare recent_loop.simps [simp del]

definition recent_transactions :: "rpc_env \<Rightarrow> u32 \<Rightarrow> RuntimeTransaction list rpc" where
  "recent_transactions e limit h =
     (let tip = current_slot (hn_state h)
      in Ok (recent_loop e (hn_state h) (saturating_sub tip 1024) limit tip []))"

definition get_all_accounts :: "rpc_env \<Rightarrow> u64 \<Rightarrow> accounts rpc" where
  "get_all_accounts e limit h = state_err (- 32050) (all_accounts (rp_state e) (unat limit) (hn_state h))"

definition get_txid_from_btc_txid :: "rpc_env \<Rightarrow> bytes \<Rightarrow> bytes32 option rpc" where
  "get_txid_from_btc_txid e btc_txid h =
     rbind (ok_or (rp_hex e btc_txid) (rpc_err (- 32051) BadText)) (\<lambda>raw.
     if length raw \<noteq> 32 then Err (rpc_err (- 32052) BadLength)
     else Ok (himsha_txid_for_btc (bytes_to_word raw) (hn_state h)))"

record SignatureStatus =
  ss_status :: string
  ss_slot :: "u64 option"
  ss_error :: "bytes option"

fun signature_status :: "TxStatus \<Rightarrow> SignatureStatus" where
  "signature_status Pending = \<lparr> ss_status = ''pending'', ss_slot = None, ss_error = None \<rparr>"
| "signature_status (Succeeded slot) = \<lparr> ss_status = ''succeeded'', ss_slot = Some slot, ss_error = None \<rparr>"
| "signature_status (Failed slot err) = \<lparr> ss_status = ''failed'', ss_slot = Some slot, ss_error = Some err \<rparr>"

definition get_signature_status :: "rpc_env \<Rightarrow> bytes \<Rightarrow> SignatureStatus option rpc" where
  "get_signature_status e txid h =
     rbind (ok_or (rp_hex e txid) (rpc_err (- 32003) BadText)) (\<lambda>raw.
     if length raw \<noteq> 32 then Err (rpc_err (- 32003) BadLength)
     else rbind (state_err (- 32057) (get_tx_status (rp_state e) (bytes_to_word raw) (hn_state h))) (\<lambda>status.
       Ok (map_option signature_status status)))"

record StateProof =
  sp_state_root :: bytes32
  sp_leaf :: bytes32
  sp_index :: u64
  sp_siblings :: "bytes32 list"
  sp_anchored_slot :: "u64 option"
  sp_anchored_state_root :: "bytes32 option"
  sp_anchored_btc_txid :: "bytes option"

definition get_state_proof :: "rpc_env \<Rightarrow> bytes \<Rightarrow> StateProof option rpc" where
  "get_state_proof e pubkey h =
     rbind (parse_key e (- 32003) pubkey) (\<lambda>key.
     case state_proof (rp_state e) key (hn_state h) of
       None \<Rightarrow> Ok None
     | Some (p, root) \<Rightarrow>
         rbind (state_err (- 32056) (latest_anchor (rp_state e) (hn_state h))) (\<lambda>anchor.
         Ok (Some \<lparr> sp_state_root = root, sp_leaf = p_leaf p, sp_index = p_index p,
                    sp_siblings = p_siblings p, sp_anchored_slot = map_option ar_slot anchor,
                    sp_anchored_state_root = map_option ar_state_root anchor,
                    sp_anchored_btc_txid = map_option ar_btc_txid anchor \<rparr>)))"

definition pre_vote :: "u64 \<Rightarrow> HimshaNode \<Rightarrow> VoteReply" where
  "pre_vote term h = consider_pre_vote term (hn_election h)"

definition request_vote :: "u64 \<Rightarrow> node_id \<Rightarrow> HimshaNode \<Rightarrow> VoteReply \<times> HimshaNode" where
  "request_vote term candidate h =
     (case consider_vote term candidate (hn_election h) of (reply, s) \<Rightarrow> (reply, h\<lparr>hn_election := s\<rparr>))"

definition get_leader :: "HimshaNode \<Rightarrow> LeaderInfo" where
  "get_leader h = leader_info (hn_election h)"

text \<open>A fresh chain starts with a genesis block at slot 0.\<close>

definition seed_genesis :: "node_env \<Rightarrow> NodeState \<Rightarrow> NodeState sresult" where
  "seed_genesis e s =
     (case load_block 0 s of
        None \<Rightarrow>
          rbind (block_new (ne_tx e) 0 0 [] 0) (\<lambda>genesis.
          rbind (to_vec (sv_block (ne_state e)) genesis) (\<lambda>bytes. Ok (save_block 0 bytes s)))
      | Some b \<Rightarrow> Ok s)"

definition register_native :: "sha256 \<Rightarrow> ProgramRegistry" where
  "register_native sha = fold (\<lambda>pid reg. register reg pid [] 0) (builtins sha) Map.empty"

section \<open>What is admitted\<close>

lemma preflight_frame: "apply_tx e reg tx Preflight (c, s) = (r, (c', s')) \<Longrightarrow> s' = s"
  unfolding apply_tx_def by (erule xbind_cases) (auto dest: apply_instructions_frame)

lemma map_err_iffs: "map_err f r = Ok a \<longleftrightarrow> r = Ok a"
  by (cases r) auto

lemma check_chain_Ok_iff:
  "check_chain_and_blockhash tx chain valid = Ok u \<longleftrightarrow>
     msg_chain_id (tx_message tx) = chain \<and> msg_recent_blockhash (tx_message tx) \<in> valid"
  by (auto simp: check_chain_and_blockhash_def)

lemma admission_checks_Ok_iff:
  "admission_checks e tx h = Ok txid \<longleftrightarrow>
     verify_signatures (ne_tx (rp_node e)) tx = (Ok True :: (rpc_error, bool) result)
     \<and> msg_chain_id (tx_message tx) = rp_chain_id e
     \<and> msg_recent_blockhash (tx_message tx) \<in> recent_blockhashes (rp_state e) MAX_BLOCKHASH_AGE (hn_state h)
     \<and> message_hash (ne_tx (rp_node e)) (tx_message tx) = (Ok txid :: (rpc_error, bytes32) result)
     \<and> tx_slot txid (hn_state h) = None \<and> \<not> in_flight (get_tx_status (rp_state e) txid (hn_state h))"
  by (auto simp: admission_checks_def rbind_Ok_iff map_err_iffs check_chain_Ok_iff Let_def split: if_splits)

lemma send_transaction_cases:
  assumes "send_transaction e tx (c, h) = (r, (c', h'))"
  obtains (accepted) txid where "r = Ok txid" "admission_checks e tx h = Ok txid"
      "apply_tx (rp_node e) (hn_registry h) tx Preflight (c, hn_state h) = (Ok (), (c', hn_state h))"
      "h' = accept e tx txid h"
    | (rejected) "\<nexists>txid. r = Ok txid" "h' = h"
proof (cases "admission_checks e tx h")
  case (Ok txid)
  obtain q c1 s1 where run: "apply_tx (rp_node e) (hn_registry h) tx Preflight (c, hn_state h) = (q, (c1, s1))"
    by (metis prod.collapse)
  then have "s1 = hn_state h"
    by (rule preflight_frame)
  then show ?thesis
  proof (cases q)
    case (Ok u)
    then show ?thesis
      using assms \<open>admission_checks e tx h = Ok txid\<close> run \<open>s1 = hn_state h\<close> that(1) [of txid]
      by (simp add: send_transaction_def)
  qed (use assms \<open>admission_checks e tx h = Ok txid\<close> run \<open>s1 = hn_state h\<close> that(2) in
      \<open>auto simp: send_transaction_def\<close>)
next
  case (Err err)
  then have "r = Err err" "h' = h"
    using assms by (simp_all add: send_transaction_def)
  then show ?thesis
    using that(2) by simp
next
  case Panic
  then have "r = Panic" "h' = h"
    using assms by (simp_all add: send_transaction_def)
  then show ?thesis
    using that(2) by simp
qed


text \<open>
  No replay: once a transaction is admitted, sending the same message again, under whatever
  signatures, is refused and changes nothing, for as long as its status is the one admission gave it.
\<close>

theorem no_resubmission:
  assumes "codec_ok (sv_status (rp_state e))" "codec_total (sv_status (rp_state e))"
    and "send_transaction e tx (c, h) = (Ok txid, (c', h'))" "tx_message tx' = tx_message tx"
    and "ns_tx_status (hn_state h'') txid = ns_tx_status (hn_state h') txid"
  shows "\<exists>err. send_transaction e tx' (d, h'') = (Err err, (d, h''))"
  using assms(3)
proof (cases rule: send_transaction_cases)
  case (accepted txid')
  then have txid: "txid' = txid" and hash: "message_hash (ne_tx (rp_node e)) (tx_message tx') = (Ok txid :: (rpc_error, bytes32) result)"
    using assms(4) by (auto simp: admission_checks_Ok_iff)
  obtain b where b: "encode (sv_status (rp_state e)) Pending = Some b"
    using assms(2) unfolding codec_total_def by blast
  then have "ns_tx_status (hn_state h') txid = Some b"
    using accepted txid by (simp add: accept_def set_tx_status_def to_vec_def)
  then have "in_flight (get_tx_status (rp_state e) txid (hn_state h''))"
    using assms(5) codec_okD [OF assms(1) b] by (simp add: get_tx_status_def from_slice_def)
  moreover have "\<exists>v. verify_signatures (ne_tx (rp_node e)) tx' = (Ok v :: (rpc_error, bool) result)"
    using hash by (simp add: verify_signatures_def) blast
  ultimately have "\<exists>err. admission_checks e tx' h'' = Err err"
    using hash by (cases "check_chain_and_blockhash tx' (rp_chain_id e) (recent_blockhashes (rp_state e) MAX_BLOCKHASH_AGE (hn_state h''))")
      (auto simp: admission_checks_def Let_def check_chain_and_blockhash_def split: if_splits)
  then show ?thesis
    by (auto simp: send_transaction_def)
qed simp

section \<open>Signatures are not tied to the accounts that sign\<close>

text \<open>Execution reads the instructions and the timestamp of a message, never its signers.\<close>

lemma preflight_ignores_signers:
  assumes "msg_instructions (tx_message tx') = msg_instructions (tx_message tx)"
    and "msg_timestamp (tx_message tx') = msg_timestamp (tx_message tx)"
  shows "apply_tx e reg tx' Preflight = apply_tx e reg tx Preflight"
proof -
  have "apply_instructions e reg tx' Preflight instrs overlay = apply_instructions e reg tx Preflight instrs overlay" for instrs overlay
    by (induction instrs arbitrary: overlay) (simp_all add: assms(2) settle_step_def)
  then show ?thesis
    by (simp add: apply_tx_def assms(1))
qed

text \<open>
  Nobody has to sign: the flags that tell programs which accounts signed come from the
  instructions and are never compared with the signers of the message. Whatever transaction the
  node accepts, it also accepts the same instructions with no signer and no signature at all,
  as long as that message was not sent before.
\<close>

theorem signatures_can_be_dropped:
  assumes "send_transaction e tx (c, h) = (Ok txid, (c', h'))"
    and "message_hash (ne_tx (rp_node e)) ((tx_message tx)\<lparr>msg_signers := []\<rparr>) = (Ok txid' :: (rpc_error, bytes32) result)"
    and "tx_slot txid' (hn_state h) = None" "\<not> in_flight (get_tx_status (rp_state e) txid' (hn_state h))"
  shows "\<exists>h''. send_transaction e (tx_new ((tx_message tx)\<lparr>msg_signers := []\<rparr>) []) (c, h) = (Ok txid', (c', h''))
    \<and> hn_pending h'' = hn_pending h @ [tx_new ((tx_message tx)\<lparr>msg_signers := []\<rparr>) []]"
  using assms(1)
proof (cases rule: send_transaction_cases)
  case (accepted txid0)
  let ?tx = "tx_new ((tx_message tx)\<lparr>msg_signers := []\<rparr>) []"
  have "admission_checks e ?tx h = Ok txid'"
    using accepted(2) assms(2-4) by (simp add: admission_checks_Ok_iff tx_new_def verify_signatures_def)
  moreover have "apply_tx (rp_node e) (hn_registry h) ?tx Preflight = apply_tx (rp_node e) (hn_registry h) tx Preflight"
    by (rule preflight_ignores_signers) (simp_all add: tx_new_def)
  ultimately show ?thesis
    using accepted(3) by (simp add: send_transaction_def accept_def)
qed simp

section \<open>An included transaction is found by its id\<close>

lemma finish_all_tables:
  assumes "finish_all e slot txs s = (Ok s' :: (exec_reason, NodeState) result)"
  shows "ns_blocks s' = ns_blocks s"
    "ns_tx_idx s' txid = (if txid \<in> txid_of e ` set txs then Some slot else ns_tx_idx s txid)"
    "tx \<in> set txs \<Longrightarrow> message_hash (ne_tx e) (tx_message tx) = (Ok (txid_of e tx) :: (rpc_error, bytes32) result)"
proof -
  have "ns_blocks s' = ns_blocks s
    \<and> ns_tx_idx s' txid = (if txid \<in> txid_of e ` set txs then Some slot else ns_tx_idx s txid)
    \<and> (tx \<in> set txs \<longrightarrow> message_hash (ne_tx e) (tx_message tx) = (Ok (txid_of e tx) :: (rpc_error, bytes32) result))"
    using assms
  proof (induction txs arbitrary: s)
    case (Cons t txs)
    define s1 where "s1 = index_transaction (txid_of e t) slot s"
    define s2 where "s2 = or_keep s1 (set_tx_status (ne_state e) (txid_of e t) (Succeeded slot) s1)"
    have run: "finish_all e slot txs s2 = (Ok s' :: (exec_reason, NodeState) result)"
      and hash: "message_hash (ne_tx e) (tx_message t) = (Ok (txid_of e t) :: (rpc_error, bytes32) result)"
      using Cons.prems by (auto simp: s1_def s2_def txid_of_def monad_iffs Let_def message_hash_Ok_iff)
    have "ns_blocks s2 = ns_blocks s" "ns_tx_idx s2 = (ns_tx_idx s)(txid_of e t \<mapsto> slot)"
      by (cases "encode (sv_status (ne_state e)) (Succeeded slot)";
          simp add: s1_def s2_def set_tx_status_def to_vec_def index_transaction_def meta_put_def Let_def)+
    then show ?case
      using Cons.IH [OF run] hash by auto
  qed simp
  then show "ns_blocks s' = ns_blocks s"
    "ns_tx_idx s' txid = (if txid \<in> txid_of e ` set txs then Some slot else ns_tx_idx s txid)"
    "tx \<in> set txs \<Longrightarrow> message_hash (ne_tx e) (tx_message tx) = (Ok (txid_of e tx) :: (rpc_error, bytes32) result)"
    by auto
qed

lemma anchor_block_blocks [simp]: "ns_blocks (anchor_block e n slot root s) = ns_blocks s"
  by (cases "ne_anchor e slot root";
      cases "encode (sv_anchor (ne_state e)) \<lparr>ar_slot = slot, ar_state_root = root, ar_btc_txid = the (ne_anchor e slot root)\<rparr>";
      simp add: anchor_block_def record_anchor_def to_vec_def meta_put_def Let_def)

lemma find_tx_found:
  assumes "\<And>t. t \<in> set txs \<Longrightarrow> message_hash (ne_tx (rp_node e)) (tx_message t) = (Ok (txid_of (rp_node e) t) :: (rpc_error, bytes32) result)"
    and "tx \<in> set txs"
  shows "\<exists>tx' \<in> set txs. find_tx e (txid_of (rp_node e) tx) txs = Ok (Some tx') \<and> txid_of (rp_node e) tx' = txid_of (rp_node e) tx"
  using assms by (induction txs) auto

text \<open>
  Once a block is produced, the explorer finds every transaction in it by its id, the hash of
  its message in hexadecimal, and finds a transaction of that block with that very id.
\<close>

theorem included_transaction_found:
  assumes "produce_block (rp_node e) reg n ts batch (c, s) = (Ok (Some block), (c', hn_state h))"
    and "codec_ok (sv_block (rp_state e))" "encode (sv_block (rp_state e)) block \<noteq> None"
    and "tx \<in> set (b_transactions block)" "rp_hex e text = Some (be_bytes (txid_of (rp_node e) tx))"
  shows "\<exists>tx' \<in> set (b_transactions block). get_processed_transaction e text h = Ok (Some tx')
    \<and> txid_of (rp_node e) tx' = txid_of (rp_node e) tx"
proof -
  obtain s1 s2 where p: "finish_all (rp_node e) (b_slot block) (b_transactions block) (save_block (b_slot block)
       (case encode (sv_block (rp_state e)) block of Some b \<Rightarrow> b | None \<Rightarrow> []) s1) = (Ok s2 :: (exec_reason, NodeState) result)"
    "hn_state h = anchor_block (rp_node e) n (b_slot block) (b_state_root block) s2"
    using assms(1) by (rule produce_block_cases)
  obtain b where b: "encode (sv_block (rp_state e)) block = Some b"
    using assms(3) by blast
  note tables = finish_all_tables [OF p(1)]
  have "block_at (rp_state e) (b_slot block) (hn_state h) = Some block"
    using tables(1) p(2) b codec_okD [OF assms(2) b] by (simp add: block_at_def load_block_def save_block_def)
  moreover have "tx_slot (txid_of (rp_node e) tx) (hn_state h) = Some (b_slot block)"
    using tables(2) p(2) assms(4) by (simp add: tx_slot_def)
  ultimately show ?thesis
    using find_tx_found [OF tables(3) assms(4)] assms(5)
    by (simp add: get_processed_transaction_def bytes_to_word_be_bytes)
qed

text \<open>The list of recent transactions is never longer than asked for.\<close>

lemma unat_small: "n < 2 ^ 32 \<Longrightarrow> unat (word_of_nat n :: u32) = n"
  by (simp add: unat_of_nat take_bit_nat_eq_self)

lemma push_upto_bounded:
  "length out < unat limit \<Longrightarrow> length (push_upto limit out txs) \<le> unat limit"
proof (induction txs arbitrary: out)
  case (Cons tx txs)
  have "unat limit < 2 ^ 32"
    using unat_bound [of limit] by simp
  then have "(limit \<le> word_of_nat (length (out @ [tx]))) = (unat limit \<le> length (out @ [tx]))"
    using Cons.prems unat_small [of "length (out @ [tx])"] by (simp only: word_le_nat_alt) simp
  then show ?case
    using Cons by (simp add: Let_def)
qed simp

lemma recent_loop_bounded:
  "length out \<le> unat limit \<Longrightarrow> length (recent_loop e s floor limit slot out) \<le> unat limit"
proof (induction e s floor limit slot out rule: recent_loop.induct)
  case (1 e s floor limit slot out)
  have "length out < 2 ^ 32"
    using "1.prems" unat_bound [of limit] by simp
  then show ?case
    using 1 push_upto_bounded [of out limit] by (subst recent_loop.simps) (auto simp: word_less_nat_alt unat_small split: option.split)
qed

lemma recent_transactions_bounded:
  "\<exists>txs. recent_transactions e limit h = Ok txs \<and> length txs \<le> unat limit"
  by (simp add: recent_transactions_def recent_loop_bounded Let_def)

section \<open>Samples\<close>

text \<open>A node on chain 0 with a genesis block and 100 lamports at key 1; key 1 pays 30 to key 2.\<close>

definition sample_rpc :: rpc_env where
  "sample_rpc = \<lparr> rp_node = sample_node, rp_key = (\<lambda>_. None), rp_hex = Some, rp_chain_id = 0, rp_faucet = None \<rparr>"

definition sample_himsha :: HimshaNode where
  "sample_himsha = \<lparr> hn_state = funded\<lparr>ns_blocks := [0 \<mapsto> []]\<rparr>, hn_registry = Map.empty, hn_pending = [],
     hn_election = default_election \<rparr>"

lemma sample_admission: "admission_checks sample_rpc (tx_new sample_msg [5]) sample_himsha = Ok 1"
proof -
  have "block_at (rp_state sample_rpc) 0 (hn_state sample_himsha) = Some sample_genesis"
    "current_slot (hn_state sample_himsha) = 0"
    by (simp_all add: block_at_def load_block_def sample_rpc_def sample_himsha_def sample_node_def
        funded_def empty_state_def current_slot_def meta_get_def)
  then have "0 \<in> recent_blockhashes (rp_state sample_rpc) MAX_BLOCKHASH_AGE (hn_state sample_himsha)"
    by (auto simp: recent_blockhashes_iff sample_genesis_def intro!: exI [of _ 0])
  moreover have hash: "message_hash (ne_tx sample_node) sample_msg = (Ok 1 :: (rpc_error, bytes32) result)"
    by (simp add: message_hash_def sample_node_def sample_tx_env_def table_codec_def)
  moreover have "verify_signatures (ne_tx sample_node) (tx_new sample_msg [5]) = (Ok True :: (rpc_error, bool) result)"
    using hash by (simp add: verify_signatures_def tx_new_def) (simp add: sample_msg_def message_new_def sample_node_def sample_tx_env_def)
  ultimately show ?thesis
    by (simp add: admission_checks_Ok_iff sample_rpc_def)
      (simp add: sample_msg_def message_new_def tx_new_def sample_himsha_def funded_def empty_state_def tx_slot_def get_tx_status_def)
qed

lemma sample_send:
  "\<exists>c'. send_transaction sample_rpc (tx_new sample_msg [5]) (fresh_ctx, sample_himsha) =
     (Ok 1, (c', accept sample_rpc (tx_new sample_msg [5]) 1 sample_himsha))"
proof -
  have "ns_accounts (hn_state sample_himsha) = ns_accounts funded"
    by (simp add: sample_himsha_def)
  from sample_apply [OF this, of Preflight fresh_ctx] obtain c' s'
    where run: "apply_tx sample_node Map.empty (tx_new sample_msg [5]) Preflight (fresh_ctx, hn_state sample_himsha) = (Ok (), (c', s'))"
    by blast
  moreover have "s' = hn_state sample_himsha"
    using run by (rule preflight_frame)
  moreover have "rp_node sample_rpc = sample_node" "hn_registry sample_himsha = Map.empty"
    by (simp_all add: sample_rpc_def sample_himsha_def)
  ultimately show ?thesis
    by (simp add: send_transaction_def sample_admission)
qed


theorem no_resubmission_witness:
  "\<exists>c' h' err. send_transaction sample_rpc (tx_new sample_msg [5]) (fresh_ctx, sample_himsha) = (Ok 1, (c', h'))
    \<and> send_transaction sample_rpc (tx_new sample_msg [6]) (c', h') = (Err err, (c', h'))"
proof -
  obtain c' where run: "send_transaction sample_rpc (tx_new sample_msg [5]) (fresh_ctx, sample_himsha) =
      (Ok 1, (c', accept sample_rpc (tx_new sample_msg [5]) 1 sample_himsha))"
    using sample_send by blast
  have "codec_ok (sv_status (rp_state sample_rpc))" "codec_total (sv_status (rp_state sample_rpc))"
    by (simp_all add: sample_rpc_def sample_node_def)
  from no_resubmission [OF this run _ refl, of "tx_new sample_msg [6]" c'] show ?thesis
    using run by (auto simp: tx_new_def)
qed

theorem signatures_can_be_dropped_witness:
  "\<exists>c' h'. send_transaction sample_rpc (tx_new (sample_msg\<lparr>msg_signers := []\<rparr>) []) (fresh_ctx, sample_himsha) = (Ok 1, (c', h'))"
proof -
  obtain c' h' where run: "send_transaction sample_rpc (tx_new sample_msg [5]) (fresh_ctx, sample_himsha) = (Ok 1, (c', h'))"
    using sample_send by blast
  have "message_hash (ne_tx (rp_node sample_rpc)) ((tx_message (tx_new sample_msg [5]))\<lparr>msg_signers := []\<rparr>) = (Ok 1 :: (rpc_error, bytes32) result)"
    by (simp add: message_hash_def sample_rpc_def sample_node_def sample_tx_env_def table_codec_def tx_new_def)
  moreover have "tx_slot 1 (hn_state sample_himsha) = None" "\<not> in_flight (get_tx_status (rp_state sample_rpc) 1 (hn_state sample_himsha))"
    by (simp_all add: sample_himsha_def funded_def empty_state_def tx_slot_def get_tx_status_def)
  ultimately show ?thesis
    using signatures_can_be_dropped [OF run] by (auto simp: tx_new_def)
qed

text \<open>An empty chain whose first block holds one transaction without instructions.\<close>

definition bare_tx :: RuntimeTransaction where
  "bare_tx = tx_new (message_new [] [] 7) []"

definition bare_block :: Block where
  "bare_block = \<lparr> b_slot = 1, b_parent_slot = 0, b_transactions = [bare_tx], b_blockhash = 72, b_timestamp = 9,
     b_state_root = EMPTY_ROOT \<rparr>"

definition bare_rpc :: rpc_env where
  "bare_rpc = sample_rpc\<lparr>rp_node := sample_node\<lparr>ne_tx := sample_tx_env,
     ne_state := (ne_state sample_node)\<lparr>sv_block := table_codec [bare_block]\<rparr>\<rparr>\<rparr>"

lemma bare_hash: "message_hash sample_tx_env (tx_message bare_tx) = Ok 1"
  by (simp add: message_hash_def bare_tx_def tx_new_def sample_tx_env_def table_codec_def)

lemma bare_produce:
  "\<exists>s'. produce_block (rp_node bare_rpc) Map.empty 0 9 [bare_tx] (fresh_ctx, empty_state) = (Ok (Some bare_block), (fresh_ctx, s'))"
proof -
  obtain s0 where slot: "advance_slot empty_state = (1, s0)" and acc: "ns_accounts s0 = tbl_empty"
    by (simp add: advance_slot_def empty_state_def meta_get_def Let_def)
  have env: "ne_tx (rp_node bare_rpc) = sample_tx_env"
    by (simp add: bare_rpc_def)
  have fin: "\<exists>s'. finish_all (rp_node bare_rpc) 1 (b_transactions bare_block) s = (Ok s' :: (exec_reason, NodeState) result)" for s
    by (simp add: bare_block_def env bare_hash Let_def)
  have "apply_tx (rp_node bare_rpc) Map.empty bare_tx Commit (fresh_ctx, s0) = (Ok (), (fresh_ctx, s0))"
    by (simp add: apply_tx_def bare_tx_def tx_new_def message_new_def xbind_def xret_def commit_overlay_def save_accounts_atomic_def)
  then have "execute_batch (rp_node bare_rpc) Map.empty 1 [bare_tx] (fresh_ctx, s0) = (Ok [bare_tx], (fresh_ctx, s0))"
    by (simp add: env bare_hash xbind_def xret_def)
  moreover have "compute_state_root (rp_state bare_rpc) s0 = EMPTY_ROOT"
    by (simp add: compute_state_root_def state_leaves_def acc merkle_root_def)
  moreover have "new_with_root sample_tx_env 1 0 [bare_tx] 9 EMPTY_ROOT = (Ok bare_block :: (exec_reason, Block) result)"
    by (simp add: new_with_root_def bare_hash bare_block_def) (simp add: sample_tx_env_def)
  moreover have "saturating_sub 1 1 = (0 :: u64)"
    by (simp add: saturating_sub_def checked_sub_def)
  moreover obtain s2 where "finish_all (rp_node bare_rpc) 1 (b_transactions bare_block)
      (save_block 1 (case encode (sv_block (rp_state bare_rpc)) bare_block of None \<Rightarrow> [] | Some b \<Rightarrow> b) s0) = (Ok s2 :: (exec_reason, NodeState) result)"
    using fin by blast
  ultimately show ?thesis
    by (simp add: produce_block_def form_block_def slot xbind_def env Let_def del: execute_batch.simps finish_all.simps)
qed

theorem included_transaction_found_witness:
  "\<exists>h. get_processed_transaction bare_rpc (be_bytes 1) h = Ok (Some bare_tx)"
proof -
  obtain s' where run: "produce_block (rp_node bare_rpc) Map.empty 0 9 [bare_tx] (fresh_ctx, empty_state) = (Ok (Some bare_block), (fresh_ctx, s'))"
    using bare_produce by blast
  let ?h = "sample_himsha\<lparr>hn_state := s'\<rparr>"
  have "txid_of (rp_node bare_rpc) bare_tx = 1"
    by (rule message_hash_txid [symmetric]) (simp add: bare_rpc_def bare_hash)
  moreover have "codec_ok (sv_block (rp_state bare_rpc))"
    by (simp add: bare_rpc_def)
  moreover have "encode (sv_block (rp_state bare_rpc)) bare_block \<noteq> None" "rp_hex bare_rpc = Some" "b_transactions bare_block = [bare_tx]"
    by (simp_all add: bare_rpc_def sample_rpc_def table_codec_def bare_block_def)
  ultimately show ?thesis
    using included_transaction_found [of bare_rpc Map.empty 0 9 "[bare_tx]" fresh_ctx empty_state bare_block fresh_ctx ?h bare_tx "be_bytes 1"] run
    by auto
qed

end
