(* ===== verification/Threshold.thy ===== *)
theory Threshold
  imports Tables
begin

text \<open>
  The threshold-signing committee, \<open>src/himsha-threshold/src/lib.rs\<close>, and its Taproot twin,
  \<open>src/himsha-threshold/src/taproot.rs\<close>. The FROST library is third-party code: its calls are
  the fields of the record \<open>frost\<close>, and the values it hands out (key packages, nonces,
  commitments, signing packages, shares, signatures, the public key package) are opaque, of one
  type \<open>'x\<close>. The thread's random generator is a state of type \<open>nat\<close>. A \<open>BTreeMap\<close> is the
  ordered table of \<open>Tables\<close>.
\<close>

section \<open>The library's interface\<close>

type_synonym Identifier = "256 word"

datatype ThresholdError =
    NotEnoughSigners u16 nat
  | UnknownSigner
  | Frost bytes
  | RobustExhausted nat

record frost_error =
  fe_text :: bytes
  fe_culprit :: "Identifier option"

type_synonym 'x fresult = "(frost_error, 'x) result"
type_synonym 'x packages = "(Identifier, 'x) tbl"

record 'x frost =
  fr_deal :: "u16 \<Rightarrow> u16 \<Rightarrow> (nat, frost_error, 'x packages \<times> 'x) exec"
  fr_key_package :: "'x \<Rightarrow> 'x fresult"
  fr_identifier :: "u16 \<Rightarrow> Identifier fresult"
  fr_part1 :: "Identifier \<Rightarrow> u16 \<Rightarrow> u16 \<Rightarrow> (nat, frost_error, 'x \<times> 'x) exec"
  fr_part2 :: "'x \<Rightarrow> 'x packages \<Rightarrow> ('x \<times> 'x packages) fresult"
  fr_part3 :: "'x \<Rightarrow> 'x packages \<Rightarrow> 'x packages \<Rightarrow> ('x \<times> 'x) fresult"
  fr_commit :: "'x \<Rightarrow> nat \<Rightarrow> ('x \<times> 'x) \<times> nat"
  fr_package :: "'x packages \<Rightarrow> bytes \<Rightarrow> 'x"
  fr_sign :: "'x \<Rightarrow> 'x \<Rightarrow> 'x \<Rightarrow> 'x fresult"
  fr_aggregate :: "'x \<Rightarrow> 'x packages \<Rightarrow> 'x \<Rightarrow> 'x fresult"
  fr_serialize :: "'x \<Rightarrow> bytes fresult"
  fr_deserialize :: "bytes \<Rightarrow> 'x fresult"
  fr_verifying_key :: "'x \<Rightarrow> bytes fresult"
  fr_verify :: "'x \<Rightarrow> bytes \<Rightarrow> 'x \<Rightarrow> bool"

type_synonym 'a tresult = "(ThresholdError, 'a) result"
type_synonym 'a texec = "(nat, ThresholdError, 'a) exec"

definition from_frost :: "frost_error \<Rightarrow> ThresholdError" where
  "from_frost e = Frost (fe_text e)"

record 'x Committee =
  cm_threshold :: u16
  cm_key_packages :: "'x packages"
  cm_pubkeys :: 'x

record RobustSignature =
  rs_signature :: bytes
  rs_rounds :: u32
  rs_excluded :: nat

section \<open>Key generation\<close>

fun key_packages :: "'x frost \<Rightarrow> (Identifier \<times> 'x) list \<Rightarrow> 'x packages \<Rightarrow> 'x packages tresult" where
  "key_packages f [] kps = Ok kps"
| "key_packages f ((i, share) # shares) kps =
     rbind (map_err from_frost (fr_key_package f share)) (\<lambda>kp.
     key_packages f shares (tbl_insert kps i kp))"

definition committee_generate :: "'x frost \<Rightarrow> u16 \<Rightarrow> u16 \<Rightarrow> 'x Committee texec" where
  "committee_generate f threshold total_n =
     xbind (xmap_err from_frost (fr_deal f total_n threshold)) (\<lambda>(shares, pubkeys).
     xlift (rbind (key_packages f (tbl_iter shares) tbl_empty) (\<lambda>kps.
       Ok \<lparr> cm_threshold = threshold, cm_key_packages = kps, cm_pubkeys = pubkeys \<rparr>)))"

text \<open>Distributed key generation: \<open>(1..=total)\<close> names the participants.\<close>

fun identifiers :: "'x frost \<Rightarrow> u16 list \<Rightarrow> Identifier list tresult" where
  "identifiers f [] = Ok []"
| "identifiers f (i # is) =
     rbind (map_err from_frost (fr_identifier f i)) (\<lambda>x.
     rbind (identifiers f is) (\<lambda>xs. Ok (x # xs)))"

fun dkg_round1 ::
  "'x frost \<Rightarrow> u16 \<Rightarrow> u16 \<Rightarrow> Identifier list \<Rightarrow> 'x packages \<times> 'x packages \<Rightarrow> ('x packages \<times> 'x packages) texec" where
  "dkg_round1 f total_n threshold [] acc = xret acc"
| "dkg_round1 f total_n threshold (i # is) (r1_secret, r1_pkg) =
     xbind (xmap_err from_frost (fr_part1 f i total_n threshold)) (\<lambda>(sec, pkg).
     dkg_round1 f total_n threshold is (tbl_insert r1_secret i sec, tbl_insert r1_pkg i pkg))"

text \<open>The packages that one participant sends are put into the inboxes of their recipients.\<close>

fun deliver ::
  "Identifier \<Rightarrow> (Identifier \<times> 'x) list \<Rightarrow> (Identifier, 'x packages) tbl \<Rightarrow> (Identifier, 'x packages) tbl tresult" where
  "deliver i [] inbox = Ok inbox"
| "deliver i ((recipient, pkg) # outgoing) inbox =
     rbind (ok_or (tbl_get inbox recipient) UnknownSigner) (\<lambda>box.
     deliver i outgoing (tbl_insert inbox recipient (tbl_insert box i pkg)))"

fun dkg_round2 ::
  "'x frost \<Rightarrow> 'x packages \<Rightarrow> Identifier list \<Rightarrow> 'x packages \<Rightarrow> 'x packages \<Rightarrow> (Identifier, 'x packages) tbl
     \<Rightarrow> ('x packages \<times> (Identifier, 'x packages) tbl) tresult" where
  "dkg_round2 f r1_pkg [] r1_secret r2_secret inbox = Ok (r2_secret, inbox)"
| "dkg_round2 f r1_pkg (i # is) r1_secret r2_secret inbox =
     (let others = tbl_remove r1_pkg i in
      rbind (ok_or (tbl_get r1_secret i) UnknownSigner) (\<lambda>secret.
      rbind (map_err from_frost (fr_part2 f secret others)) (\<lambda>(sec2, outgoing).
      rbind (deliver i (tbl_iter outgoing) inbox) (\<lambda>inbox.
      dkg_round2 f r1_pkg is (tbl_remove r1_secret i) (tbl_insert r2_secret i sec2) inbox))))"

text \<open>\<open>r2_secret[id]\<close> and \<open>r2_inbox[id]\<close> panic when the key is missing.\<close>

fun or_panic :: "'a option \<Rightarrow> ('e, 'a) result" where
  "or_panic (Some a) = Ok a"
| "or_panic None = Panic"

fun dkg_round3 ::
  "'x frost \<Rightarrow> 'x packages \<Rightarrow> 'x packages \<Rightarrow> (Identifier, 'x packages) tbl \<Rightarrow> Identifier list
     \<Rightarrow> 'x packages \<times> 'x option \<Rightarrow> ('x packages \<times> 'x option) tresult" where
  "dkg_round3 f r1_pkg r2_secret inbox [] acc = Ok acc"
| "dkg_round3 f r1_pkg r2_secret inbox (i # is) (kps, pubkeys) =
     (let others = tbl_remove r1_pkg i in
      rbind (or_panic (tbl_get r2_secret i)) (\<lambda>secret.
      rbind (or_panic (tbl_get inbox i)) (\<lambda>received.
      rbind (map_err from_frost (fr_part3 f secret others received)) (\<lambda>(kp, pubpkg).
      dkg_round3 f r1_pkg r2_secret inbox is (tbl_insert kps i kp, Some pubpkg)))))"

definition empty_inboxes :: "Identifier list \<Rightarrow> (Identifier, 'x packages) tbl" where
  "empty_inboxes ids = fold (\<lambda>i t. tbl_insert t i tbl_empty) ids tbl_empty"

definition generate_dkg :: "'x frost \<Rightarrow> u16 \<Rightarrow> u16 \<Rightarrow> 'x Committee texec" where
  "generate_dkg f threshold total_n =
     xbind (xlift (identifiers f (map word_of_nat [1..<Suc (unat total_n)]))) (\<lambda>ids.
     xbind (dkg_round1 f total_n threshold ids (tbl_empty, tbl_empty)) (\<lambda>(r1_secret, r1_pkg).
     xlift (
       rbind (dkg_round2 f r1_pkg ids r1_secret tbl_empty (empty_inboxes ids)) (\<lambda>(r2_secret, inbox).
       rbind (dkg_round3 f r1_pkg r2_secret inbox ids (tbl_empty, None)) (\<lambda>(kps, pubkeys).
       rbind (ok_or pubkeys (NotEnoughSigners 1 0)) (\<lambda>pubkeys.
       Ok \<lparr> cm_threshold = threshold, cm_key_packages = kps, cm_pubkeys = pubkeys \<rparr>))))))"

definition committee_total :: "'x Committee \<Rightarrow> nat" where
  "committee_total c = length (tbl_iter (cm_key_packages c))"

definition signer_ids :: "'x Committee \<Rightarrow> Identifier list" where
  "signer_ids c = map fst (tbl_iter (cm_key_packages c))"

definition group_public_key :: "'x frost \<Rightarrow> 'x Committee \<Rightarrow> bytes" where
  "group_public_key f c = (case fr_verifying_key f (cm_pubkeys c) of Ok b \<Rightarrow> b | _ \<Rightarrow> [])"

section \<open>Signing\<close>

fun commit_all ::
  "'x frost \<Rightarrow> 'x packages \<Rightarrow> Identifier list \<Rightarrow> 'x packages \<times> 'x packages \<Rightarrow> ('x packages \<times> 'x packages) texec" where
  "commit_all f kps [] acc = xret acc"
| "commit_all f kps (i # is) (nonces, commitments) =
     xbind (xlift (ok_or (tbl_get kps i) UnknownSigner)) (\<lambda>kp rng.
       case fr_commit f kp rng of ((n, c), rng) \<Rightarrow>
         commit_all f kps is (tbl_insert nonces i n, tbl_insert commitments i c) rng)"

text \<open>Round 2; \<open>pkg\<close> says which signing package a signer signs over.\<close>

fun sign_all ::
  "'x frost \<Rightarrow> 'x packages \<Rightarrow> 'x packages \<Rightarrow> (Identifier \<Rightarrow> 'x) \<Rightarrow> Identifier list \<Rightarrow> 'x packages \<Rightarrow> 'x packages tresult" where
  "sign_all f kps nonces pkg [] shares = Ok shares"
| "sign_all f kps nonces pkg (i # is) shares =
     rbind (ok_or (tbl_get kps i) UnknownSigner) (\<lambda>kp.
     rbind (or_panic (tbl_get nonces i)) (\<lambda>n.
     rbind (map_err from_frost (fr_sign f (pkg i) n kp)) (\<lambda>share.
     sign_all f kps nonces pkg is (tbl_insert shares i share))))"

definition committee_sign :: "'x frost \<Rightarrow> 'x Committee \<Rightarrow> bytes \<Rightarrow> Identifier list \<Rightarrow> bytes texec" where
  "committee_sign f c message signers =
     (if (word_of_nat (length signers) :: u16) < cm_threshold c
      then xlift (Err (NotEnoughSigners (cm_threshold c) (length signers)))
      else xbind (commit_all f (cm_key_packages c) signers (tbl_empty, tbl_empty)) (\<lambda>(nonces, commitments).
        let signing_package = fr_package f commitments message in
        xlift (
          rbind (sign_all f (cm_key_packages c) nonces (\<lambda>_. signing_package) signers tbl_empty) (\<lambda>shares.
          rbind (map_err from_frost (fr_aggregate f signing_package shares (cm_pubkeys c))) (\<lambda>group_sig.
          map_err from_frost (fr_serialize f group_sig))))))"

definition byzantine :: bytes where
  "byzantine = map (\<lambda>c. word_of_nat (of_char c)) ''BYZANTINE-EQUIVOCATION''"

text \<open>One attempt of \<open>sign_robust\<close>: the inner result is the aggregator's.\<close>

definition robust_round ::
  "'x frost \<Rightarrow> 'x Committee \<Rightarrow> bytes \<Rightarrow> Identifier list \<Rightarrow> Identifier list \<Rightarrow> 'x fresult texec" where
  "robust_round f c message disruptive quorum =
     xbind (commit_all f (cm_key_packages c) quorum (tbl_empty, tbl_empty)) (\<lambda>(nonces, commitments).
     let signing_package = fr_package f commitments message;
         bad_package = fr_package f commitments byzantine
     in xlift (
       rbind (sign_all f (cm_key_packages c) nonces
           (\<lambda>i. if i \<in> set disruptive then bad_package else signing_package) quorum tbl_empty) (\<lambda>shares.
       Ok (fr_aggregate f signing_package shares (cm_pubkeys c)))))"

text \<open>
  The loop of \<open>sign_robust\<close>. Whether it ends is up to the aggregator, which might name a culprit
  that is no candidate; not ending is the value \<open>None\<close>.
\<close>

partial_function (option) robust_loop ::
  "'x frost \<Rightarrow> 'x Committee \<Rightarrow> bytes \<Rightarrow> Identifier list \<Rightarrow> Identifier list \<Rightarrow> nat \<Rightarrow> u32 \<Rightarrow> nat
     \<Rightarrow> (RobustSignature tresult \<times> nat) option" where
  "robust_loop f c message disruptive candidates excluded rounds rng =
     (if (word_of_nat (length candidates) :: u16) < cm_threshold c
      then Some (Err (RobustExhausted excluded), rng)
      else
        (case robust_round f c message disruptive (take (unat (cm_threshold c)) candidates) rng of
           (Ok (Ok group_sig), rng) \<Rightarrow>
             Some (rbind (map_err from_frost (fr_serialize f group_sig)) (\<lambda>signature.
               Ok \<lparr> rs_signature = signature, rs_rounds = rounds + 1, rs_excluded = excluded \<rparr>), rng)
         | (Ok (Err e), rng) \<Rightarrow>
             (case fe_culprit e of
                Some bad \<Rightarrow>
                  robust_loop f c message disruptive (filter (\<lambda>i. i \<noteq> bad) candidates) (excluded + 1) (rounds + 1) rng
              | None \<Rightarrow> Some (Err (from_frost e), rng))
         | (Ok Panic, rng) \<Rightarrow> Some (Panic, rng)
         | (Err e, rng) \<Rightarrow> Some (Err e, rng)
         | (Panic, rng) \<Rightarrow> Some (Panic, rng)))"

definition sign_robust ::
  "'x frost \<Rightarrow> 'x Committee \<Rightarrow> bytes \<Rightarrow> Identifier list \<Rightarrow> Identifier list \<Rightarrow> nat
     \<Rightarrow> (RobustSignature tresult \<times> nat) option" where
  "sign_robust f c message online disruptive rng =
     robust_loop f c message disruptive (filter (\<lambda>i. tbl_get (cm_key_packages c) i \<noteq> None) online) 0 0 rng"

definition committee_verify :: "'x frost \<Rightarrow> 'x Committee \<Rightarrow> bytes \<Rightarrow> bytes \<Rightarrow> bool" where
  "committee_verify f c message signature =
     (case fr_deserialize f signature of
        Ok sig \<Rightarrow> fr_verify f (cm_pubkeys c) message sig
      | _ \<Rightarrow> False)"

section \<open>What the library promises\<close>

text \<open>Nonces and commitments that the signers' key packages gave.\<close>

definition committed :: "'x frost \<Rightarrow> 'x packages \<Rightarrow> Identifier list \<Rightarrow> 'x packages \<Rightarrow> 'x packages \<Rightarrow> bool" where
  "committed f kps ids nonces commitments \<longleftrightarrow>
     (\<forall>i. if i \<in> set ids
          then \<exists>kp n c rng rng'. tbl_get kps i = Some kp \<and> fr_commit f kp rng = ((n, c), rng')
            \<and> tbl_get nonces i = Some n \<and> tbl_get commitments i = Some c
          else tbl_get nonces i = None \<and> tbl_get commitments i = None)"

text \<open>Signature shares of the signers, each over its own message.\<close>

definition shares_of ::
  "'x frost \<Rightarrow> 'x packages \<Rightarrow> Identifier list \<Rightarrow> 'x packages \<Rightarrow> 'x packages \<Rightarrow> (Identifier \<Rightarrow> bytes) \<Rightarrow> 'x packages \<Rightarrow> bool" where
  "shares_of f kps ids nonces commitments msg shares \<longleftrightarrow>
     (\<forall>i. if i \<in> set ids
          then \<exists>kp n share. tbl_get kps i = Some kp \<and> tbl_get nonces i = Some n
            \<and> fr_sign f (fr_package f commitments (msg i)) n kp = Ok share \<and> tbl_get shares i = Some share
          else tbl_get shares i = None)"

text \<open>
  The documented behaviour of FROST that the committee relies on, for a quorum of at least the
  threshold: a key package signs with the nonces it committed to; shares over one message aggregate
  to a signature that verifies for it; and when some share is over another message, aggregation
  fails and names the signer of such a share.
\<close>

definition frost_signs :: "'x frost \<Rightarrow> 'x Committee \<Rightarrow> bool" where
  "frost_signs f c \<longleftrightarrow>
     (\<forall>ids nonces commitments i kp n m. committed f (cm_key_packages c) ids nonces commitments \<and> i \<in> set ids
        \<and> tbl_get (cm_key_packages c) i = Some kp \<and> tbl_get nonces i = Some n \<longrightarrow>
        (\<exists>share. fr_sign f (fr_package f commitments m) n kp = Ok share))"

definition frost_aggregates :: "'x frost \<Rightarrow> 'x Committee \<Rightarrow> bool" where
  "frost_aggregates f c \<longleftrightarrow>
     (\<forall>ids nonces commitments shares m. distinct ids \<and> unat (cm_threshold c) \<le> length ids
        \<and> committed f (cm_key_packages c) ids nonces commitments
        \<and> shares_of f (cm_key_packages c) ids nonces commitments (\<lambda>_. m) shares \<longrightarrow>
        (\<exists>sig b s. fr_aggregate f (fr_package f commitments m) shares (cm_pubkeys c) = Ok sig
          \<and> fr_serialize f sig = Ok b \<and> fr_deserialize f b = Ok s \<and> fr_verify f (cm_pubkeys c) m s))"

definition frost_blames :: "'x frost \<Rightarrow> 'x Committee \<Rightarrow> bool" where
  "frost_blames f c \<longleftrightarrow>
     (\<forall>ids nonces commitments shares m msg. distinct ids \<and> unat (cm_threshold c) \<le> length ids
        \<and> committed f (cm_key_packages c) ids nonces commitments
        \<and> shares_of f (cm_key_packages c) ids nonces commitments msg shares \<and> (\<exists>i \<in> set ids. msg i \<noteq> m) \<longrightarrow>
        (\<exists>e bad. fr_aggregate f (fr_package f commitments m) shares (cm_pubkeys c) = Err e
          \<and> fe_culprit e = Some bad \<and> bad \<in> set ids \<and> msg bad \<noteq> m))"

lemma frost_aggregatesD:
  assumes "frost_aggregates f c" "distinct ids" "unat (cm_threshold c) \<le> length ids"
    and "committed f (cm_key_packages c) ids nonces commitments"
    and "shares_of f (cm_key_packages c) ids nonces commitments (\<lambda>_. m) shares"
  shows "\<exists>sig b. fr_aggregate f (fr_package f commitments m) shares (cm_pubkeys c) = Ok sig
    \<and> fr_serialize f sig = Ok b \<and> committee_verify f c m b"
proof -
  obtain sig b s where "fr_aggregate f (fr_package f commitments m) shares (cm_pubkeys c) = Ok sig"
    "fr_serialize f sig = Ok b" "fr_deserialize f b = Ok s" "fr_verify f (cm_pubkeys c) m s"
    using assms unfolding frost_aggregates_def by blast
  then show ?thesis
    by (auto simp: committee_verify_def)
qed

lemma frost_blamesD:
  assumes "frost_blames f c" "distinct ids" "unat (cm_threshold c) \<le> length ids"
    and "committed f (cm_key_packages c) ids nonces commitments"
    and "shares_of f (cm_key_packages c) ids nonces commitments msg shares" "i \<in> set ids" "msg i \<noteq> m"
  shows "\<exists>e bad. fr_aggregate f (fr_package f commitments m) shares (cm_pubkeys c) = Err e
    \<and> fe_culprit e = Some bad \<and> bad \<in> set ids \<and> msg bad \<noteq> m"
  using assms unfolding frost_blames_def by blast

section \<open>Rounds\<close>

lemma commit_all_run:
  assumes "\<forall>i \<in> set ids. tbl_get kps i \<noteq> None"
  shows "\<exists>nonces commitments rng'. commit_all f kps ids (nonces0, commitments0) rng = (Ok (nonces, commitments), rng')
    \<and> (\<forall>i. if i \<in> set ids
          then \<exists>kp n c r r'. tbl_get kps i = Some kp \<and> fr_commit f kp r = ((n, c), r')
            \<and> tbl_get nonces i = Some n \<and> tbl_get commitments i = Some c
          else tbl_get nonces i = tbl_get nonces0 i \<and> tbl_get commitments i = tbl_get commitments0 i)"
  using assms
proof (induction ids arbitrary: nonces0 commitments0 rng)
  case Nil
  then show ?case
    by simp
next
  case (Cons j ids)
  obtain kp n c r where kp: "tbl_get kps j = Some kp" and com: "fr_commit f kp rng = ((n, c), r)"
    using Cons.prems by (metis list.set_intros(1) option.exhaust prod.collapse)
  obtain nonces commitments rng' where
    run: "commit_all f kps ids (tbl_insert nonces0 j n, tbl_insert commitments0 j c) r = (Ok (nonces, commitments), rng')"
    and IH: "\<forall>i. if i \<in> set ids
          then \<exists>kp n c r r'. tbl_get kps i = Some kp \<and> fr_commit f kp r = ((n, c), r')
            \<and> tbl_get nonces i = Some n \<and> tbl_get commitments i = Some c
          else tbl_get nonces i = tbl_get (tbl_insert nonces0 j n) i
            \<and> tbl_get commitments i = tbl_get (tbl_insert commitments0 j c) i"
    using Cons.IH [of "tbl_insert nonces0 j n" "tbl_insert commitments0 j c" r] Cons.prems by auto
  have "commit_all f kps (j # ids) (nonces0, commitments0) rng = (Ok (nonces, commitments), rng')"
    using kp com run by simp
  moreover have "if i \<in> set (j # ids)
      then \<exists>kp n c r r'. tbl_get kps i = Some kp \<and> fr_commit f kp r = ((n, c), r')
        \<and> tbl_get nonces i = Some n \<and> tbl_get commitments i = Some c
      else tbl_get nonces i = tbl_get nonces0 i \<and> tbl_get commitments i = tbl_get commitments0 i" for i
    using IH [rule_format, of i] kp com by (cases "i \<in> set ids"; cases "i = j") (simp_all, blast+)
  ultimately show ?case
    by blast
qed

lemma commit_all_committed:
  assumes "\<forall>i \<in> set ids. tbl_get kps i \<noteq> None"
  shows "\<exists>nonces commitments rng'. commit_all f kps ids (tbl_empty, tbl_empty) rng = (Ok (nonces, commitments), rng')
    \<and> committed f kps ids nonces commitments"
  using commit_all_run [OF assms, of f tbl_empty tbl_empty rng] unfolding committed_def by (simp only: tb.get_empty)

lemma sign_all_run:
  assumes "\<forall>i \<in> set ids. \<exists>kp n. tbl_get kps i = Some kp \<and> tbl_get nonces i = Some n
      \<and> fr_sign f (pkg i) n kp = Ok (share i)"
  shows "\<exists>shares. sign_all f kps nonces pkg ids shares0 = Ok shares
    \<and> (\<forall>i. tbl_get shares i = (if i \<in> set ids then Some (share i) else tbl_get shares0 i))"
  using assms
proof (induction ids arbitrary: shares0)
  case (Cons j ids)
  then obtain shares where "sign_all f kps nonces pkg ids (tbl_insert shares0 j (share j)) = Ok shares"
    "\<forall>i. tbl_get shares i = (if i \<in> set ids then Some (share i) else tbl_get (tbl_insert shares0 j (share j)) i)"
    by (metis list.set_intros(2))
  then show ?case
    using Cons.prems by (intro exI [of _ shares]) auto
qed simp

lemma sign_all_shares:
  assumes "frost_signs f c" "committed f (cm_key_packages c) ids nonces commitments"
  shows "\<exists>shares. sign_all f (cm_key_packages c) nonces (\<lambda>i. fr_package f commitments (msg i)) ids tbl_empty = Ok shares
    \<and> shares_of f (cm_key_packages c) ids nonces commitments msg shares"
proof -
  have "\<exists>kp n share. tbl_get (cm_key_packages c) i = Some kp \<and> tbl_get nonces i = Some n
      \<and> fr_sign f (fr_package f commitments (msg i)) n kp = Ok share" if i: "i \<in> set ids" for i
  proof -
    obtain kp n where "tbl_get (cm_key_packages c) i = Some kp" "tbl_get nonces i = Some n"
      using assms(2) i unfolding committed_def by metis
    then show ?thesis
      using assms i unfolding frost_signs_def by blast
  qed
  then obtain share where share: "\<forall>i \<in> set ids. \<exists>kp n. tbl_get (cm_key_packages c) i = Some kp \<and> tbl_get nonces i = Some n
      \<and> fr_sign f (fr_package f commitments (msg i)) n kp = Ok (share i)"
    by metis
  from sign_all_run [OF this, of tbl_empty] show ?thesis
    using share unfolding shares_of_def by (metis tb.get_empty)
qed

lemma shares_of_cong:
  assumes "\<And>i. i \<in> set ids \<Longrightarrow> msg i = msg' i"
  shows "shares_of f kps ids nonces commitments msg shares = shares_of f kps ids nonces commitments msg' shares"
  unfolding shares_of_def using assms by (intro iff_allI) simp

lemma robust_round_outcome:
  assumes "frost_signs f c" "frost_aggregates f c" "frost_blames f c" "message \<noteq> byzantine"
    and "distinct quorum" "length quorum = unat (cm_threshold c)"
    and "\<forall>i \<in> set quorum. tbl_get (cm_key_packages c) i \<noteq> None"
  shows "\<exists>res rng'. robust_round f c message disruptive quorum rng = (Ok res, rng')
    \<and> (if set quorum \<inter> set disruptive = {}
       then \<exists>sig b. res = Ok sig \<and> fr_serialize f sig = Ok b \<and> committee_verify f c message b
       else \<exists>e bad. res = Err e \<and> fe_culprit e = Some bad \<and> bad \<in> set quorum \<and> bad \<in> set disruptive)"
proof -
  let ?msg = "\<lambda>i. if i \<in> set disruptive then byzantine else message"
  obtain nonces commitments rng' where run: "commit_all f (cm_key_packages c) quorum (tbl_empty, tbl_empty) rng = (Ok (nonces, commitments), rng')"
    and com: "committed f (cm_key_packages c) quorum nonces commitments"
    using commit_all_committed [OF assms(7)] by blast
  obtain shares where sign: "sign_all f (cm_key_packages c) nonces (\<lambda>i. fr_package f commitments (?msg i)) quorum tbl_empty = Ok shares"
    and of: "shares_of f (cm_key_packages c) quorum nonces commitments ?msg shares"
    using sign_all_shares [OF assms(1) com, of ?msg] by blast
  have pkg: "(if b then fr_package f commitments byzantine else fr_package f commitments message)
      = fr_package f commitments (if b then byzantine else message)" for b
    by simp
  have "robust_round f c message disruptive quorum rng = (Ok (fr_aggregate f (fr_package f commitments message) shares (cm_pubkeys c)), rng')"
    using run sign by (simp add: robust_round_def pkg)
  moreover have "if set quorum \<inter> set disruptive = {}
      then \<exists>sig b. fr_aggregate f (fr_package f commitments message) shares (cm_pubkeys c) = Ok sig
        \<and> fr_serialize f sig = Ok b \<and> committee_verify f c message b
      else \<exists>e bad. fr_aggregate f (fr_package f commitments message) shares (cm_pubkeys c) = Err e
        \<and> fe_culprit e = Some bad \<and> bad \<in> set quorum \<and> bad \<in> set disruptive"
  proof (cases "set quorum \<inter> set disruptive = {}")
    case True
    then have "shares_of f (cm_key_packages c) quorum nonces commitments (\<lambda>_. message) shares"
      using of shares_of_cong [of quorum ?msg "\<lambda>_. message" f "cm_key_packages c" nonces commitments shares]
      by (metis disjoint_iff)
    then show ?thesis
      using frost_aggregatesD [OF assms(2,5) _ com] assms(6) True by simp
  next
    case False
    then obtain i where "i \<in> set quorum" "i \<in> set disruptive"
      by blast
    then have i: "i \<in> set quorum" "?msg i \<noteq> message"
      using assms(4) by simp_all
    obtain e bad where "fr_aggregate f (fr_package f commitments message) shares (cm_pubkeys c) = Err e"
      "fe_culprit e = Some bad" "bad \<in> set quorum" "?msg bad \<noteq> message"
      using frost_blamesD [OF assms(3,5) _ com of i] assms(6) by auto
    then show ?thesis
      using False by (auto split: if_splits)
  qed
  ultimately show ?thesis
    by blast
qed

section \<open>Robust signing\<close>

definition robust_outcome ::
  "'x frost \<Rightarrow> 'x Committee \<Rightarrow> bytes \<Rightarrow> Identifier list \<Rightarrow> Identifier list \<Rightarrow> nat \<Rightarrow> u32 \<Rightarrow> RobustSignature tresult \<Rightarrow> bool" where
  "robust_outcome f c message disruptive candidates excluded rounds res \<longleftrightarrow>
     (if unat (cm_threshold c) \<le> length (filter (\<lambda>i. i \<notin> set disruptive) candidates)
      then \<exists>sig. res = Ok sig \<and> committee_verify f c message (rs_signature sig)
        \<and> excluded \<le> rs_excluded sig \<and> rs_excluded sig \<le> excluded + length (filter (\<lambda>i. i \<in> set disruptive) candidates)
        \<and> rs_rounds sig = rounds + 1 + word_of_nat (rs_excluded sig - excluded)
      else \<exists>k. res = Err (RobustExhausted k) \<and> excluded \<le> k
        \<and> k \<le> excluded + length (filter (\<lambda>i. i \<in> set disruptive) candidates))"

lemma filter_out_one:
  assumes "distinct xs" "x \<in> set xs"
  shows "length (filter (\<lambda>y. y \<noteq> x) xs) + 1 = length xs"
proof -
  have "length (filter (\<lambda>y. y \<noteq> x) xs) = card (set xs - {x})"
    using assms(1) by (simp add: distinct_card [symmetric] set_diff_eq)
  also have "\<dots> + 1 = length xs"
    using card_Suc_Diff1 [OF finite_set assms(2)] distinct_card [OF assms(1)] by simp
  finally show ?thesis
    by simp
qed

lemma robust_outcome_exclude:
  assumes "robust_outcome f c message disruptive (filter (\<lambda>i. i \<noteq> bad) candidates) (excluded + 1) (rounds + 1) res"
    and "bad \<in> set candidates" "bad \<in> set disruptive" "distinct candidates"
  shows "robust_outcome f c message disruptive candidates excluded rounds res"
proof -
  have "filter (\<lambda>i. i \<notin> set disruptive) (filter (\<lambda>i. i \<noteq> bad) candidates) = filter (\<lambda>i. i \<notin> set disruptive) candidates"
    using assms(3) by (auto simp: filter_filter intro: filter_cong)
  moreover have "length (filter (\<lambda>i. i \<in> set disruptive) (filter (\<lambda>i. i \<noteq> bad) candidates)) + 1
      = length (filter (\<lambda>i. i \<in> set disruptive) candidates)"
    using filter_out_one [of "filter (\<lambda>i. i \<in> set disruptive) candidates" bad] assms(2-4)
    by (simp add: filter_filter conj_commute)
  moreover have "rounds + 1 + 1 + word_of_nat (k - (excluded + 1)) = rounds + 1 + (word_of_nat (k - excluded) :: u32)"
    if "excluded + 1 \<le> k" for k
    using that by (simp add: Suc_diff_Suc [symmetric] del: Suc_diff_Suc)
  ultimately show ?thesis
    using assms(1) unfolding robust_outcome_def by (fastforce split: if_splits)
qed

lemma honest_prefix:
  assumes "set (take n candidates) \<inter> set disruptive = {}"
  shows "length (take n candidates) \<le> length (filter (\<lambda>i. i \<notin> set disruptive) candidates)"
proof -
  have "filter (\<lambda>i. i \<notin> set disruptive) (take n candidates) = take n candidates"
    using assms by (auto simp: filter_id_conv)
  then have "filter (\<lambda>i. i \<notin> set disruptive) (take n candidates @ drop n candidates) =
      take n candidates @ filter (\<lambda>i. i \<notin> set disruptive) (drop n candidates)"
    by (simp only: filter_append)
  then show ?thesis
    by (simp only: append_take_drop_id length_append)
qed

text \<open>The test at the head of the loop compares numbers when there are fewer than 65536 candidates.\<close>

lemma few_candidates:
  "length candidates < 2 ^ 16 \<Longrightarrow> (word_of_nat (length candidates) :: u16) < t \<longleftrightarrow> length candidates < unat t"
  by (simp add: word_less_nat_alt unat_of_nat take_bit_nat_eq_self)

text \<open>One turn with enough candidates: it signs, or it names a disruptive candidate and goes on without it.\<close>

lemma robust_turn:
  assumes "frost_signs f c" "frost_aggregates f c" "frost_blames f c" "message \<noteq> byzantine"
    and "distinct candidates" "\<forall>i \<in> set candidates. tbl_get (cm_key_packages c) i \<noteq> None"
    and "length candidates < 2 ^ 16" "\<not> length candidates < unat (cm_threshold c)"
  obtains (signs) res rng' where "robust_loop f c message disruptive candidates excluded rounds rng = Some (res, rng')"
      "robust_outcome f c message disruptive candidates excluded rounds res"
    | (excludes) bad rng' where "bad \<in> set candidates" "bad \<in> set disruptive"
      "robust_loop f c message disruptive candidates excluded rounds rng =
       robust_loop f c message disruptive (filter (\<lambda>i. i \<noteq> bad) candidates) (excluded + 1) (rounds + 1) rng'"
proof -
  note len = few_candidates [OF assms(7), of "cm_threshold c"]
  let ?quorum = "take (unat (cm_threshold c)) candidates"
  have quorum: "distinct ?quorum" "length ?quorum = unat (cm_threshold c)" "set ?quorum \<subseteq> set candidates"
    using assms(5,8) by (auto dest: in_set_takeD)
  then obtain res rng' where run: "robust_round f c message disruptive ?quorum rng = (Ok res, rng')"
    and out: "if set ?quorum \<inter> set disruptive = {}
      then \<exists>sig b. res = Ok sig \<and> fr_serialize f sig = Ok b \<and> committee_verify f c message b
      else \<exists>e bad. res = Err e \<and> fe_culprit e = Some bad \<and> bad \<in> set ?quorum \<and> bad \<in> set disruptive"
    using robust_round_outcome [OF assms(1-4) quorum(1,2), of disruptive rng] assms(6) by blast
  show thesis
  proof (cases "set ?quorum \<inter> set disruptive = {}")
    case True
    then obtain sig b where sig: "res = Ok sig" "fr_serialize f sig = Ok b" "committee_verify f c message b"
      using out by auto
    have "robust_loop f c message disruptive candidates excluded rounds rng =
        Some (Ok \<lparr> rs_signature = b, rs_rounds = rounds + 1, rs_excluded = excluded \<rparr>, rng')"
      using run sig assms(8) len by (subst robust_loop.simps) simp
    then show thesis
      by (rule that(1)) (use honest_prefix [OF True] quorum(2) sig(3) in \<open>simp add: robust_outcome_def\<close>)
  next
    case False
    then obtain e bad where bad: "res = Err e" "fe_culprit e = Some bad" "bad \<in> set ?quorum" "bad \<in> set disruptive"
      using out by auto
    show thesis
      by (rule that(2) [of bad rng']) (use bad quorum(3) run assms(8) len in \<open>auto simp: robust_loop.simps [of f c message disruptive candidates]\<close>)
  qed
qed

lemma robust_loop_outcome:
  assumes "frost_signs f c" "frost_aggregates f c" "frost_blames f c" "message \<noteq> byzantine" "0 < cm_threshold c"
    and "distinct candidates" "\<forall>i \<in> set candidates. tbl_get (cm_key_packages c) i \<noteq> None"
    and "length candidates < 2 ^ 16"
  shows "\<exists>res rng'. robust_loop f c message disruptive candidates excluded rounds rng = Some (res, rng')
    \<and> robust_outcome f c message disruptive candidates excluded rounds res"
  using assms(6-8)
proof (induction "length candidates" arbitrary: candidates excluded rounds rng rule: less_induct)
  case less
  show ?case
  proof (cases "length candidates < unat (cm_threshold c)")
    case True
    then have "\<not> unat (cm_threshold c) \<le> length (filter (\<lambda>i. i \<notin> set disruptive) candidates)"
      using length_filter_le [of "\<lambda>i. i \<notin> set disruptive" candidates] by linarith
    then show ?thesis
      using True few_candidates [OF less.prems(3), of "cm_threshold c"]
      by (subst robust_loop.simps) (simp add: robust_outcome_def)
  next
    case False
    from assms(1-4) less.prems False show ?thesis
    proof (cases rule: robust_turn [where disruptive = disruptive and excluded = excluded and rounds = rounds and rng = rng])
      case (excludes bad rng')
      let ?rest = "filter (\<lambda>i. i \<noteq> bad) candidates"
      have shorter: "length ?rest < length candidates"
        using filter_out_one [OF less.prems(1)] excludes(1) by (metis less_add_one)
      then obtain res rng'' where "robust_loop f c message disruptive ?rest (excluded + 1) (rounds + 1) rng' = Some (res, rng'')"
        "robust_outcome f c message disruptive ?rest (excluded + 1) (rounds + 1) res"
        using less.hyps [OF shorter, of "excluded + 1" "rounds + 1" rng'] less.prems shorter by auto
      then show ?thesis
        using robust_outcome_exclude excludes less.prems(1) by metis
    qed blast
  qed
qed


text \<open>
  Plain signing: enough distinct known signers give a signature that verifies; too few are refused
  before any nonce is drawn.
\<close>

lemma committee_sign_verifies:
  assumes "frost_signs f c" "frost_aggregates f c" "distinct signers" "length signers < 2 ^ 16"
    and "unat (cm_threshold c) \<le> length signers" "\<forall>i \<in> set signers. tbl_get (cm_key_packages c) i \<noteq> None"
  shows "\<exists>sig rng'. committee_sign f c message signers rng = (Ok sig, rng') \<and> committee_verify f c message sig"
proof -
  obtain nonces commitments rng' where run: "commit_all f (cm_key_packages c) signers (tbl_empty, tbl_empty) rng = (Ok (nonces, commitments), rng')"
    and com: "committed f (cm_key_packages c) signers nonces commitments"
    using commit_all_committed [OF assms(6)] by blast
  obtain shares where sign: "sign_all f (cm_key_packages c) nonces (\<lambda>_. fr_package f commitments message) signers tbl_empty = Ok shares"
    and of: "shares_of f (cm_key_packages c) signers nonces commitments (\<lambda>_. message) shares"
    using sign_all_shares [OF assms(1) com, of "\<lambda>_. message"] by blast
  have "\<not> (word_of_nat (length signers) :: u16) < cm_threshold c"
    using assms(4,5) by (simp add: word_less_nat_alt unat_of_nat take_bit_nat_eq_self)
  then show ?thesis
    using frost_aggregatesD [OF assms(2,3,5) com of] run sign by (auto simp: committee_sign_def)
qed

lemma committee_sign_too_few:
  "length signers < unat (cm_threshold c) \<Longrightarrow>
   committee_sign f c message signers rng = (Err (NotEnoughSigners (cm_threshold c) (length signers)), rng)"
  using unat_bound [of "cm_threshold c"]
  by (simp add: committee_sign_def word_less_nat_alt unat_of_nat take_bit_nat_eq_self)

text \<open>The count is cut to 16 bits: 65536 signers count as none.\<close>

lemma committee_sign_count_wraps:
  "length signers = 2 ^ 16 \<Longrightarrow> 0 < cm_threshold c \<Longrightarrow>
   committee_sign f c message signers rng = (Err (NotEnoughSigners (cm_threshold c) (2 ^ 16)), rng)"
proof -
  assume len: "length signers = 2 ^ 16" and pos: "0 < cm_threshold c"
  have "(word_of_nat (length signers) :: u16) = 0"
    unfolding len by (simp add: word_of_nat_eq_0_iff del: of_nat_numeral)
  then show ?thesis
    using len pos by (simp add: committee_sign_def del: of_nat_numeral)
qed

section \<open>A library that keeps the promises\<close>

datatype toy = TKey | TNonce | TPackage bytes | TShare bytes | TSig bytes | TGroup

definition toy_frost :: "toy frost" where
  "toy_frost =
     \<lparr> fr_deal = (\<lambda>total_n threshold. xret (fold (\<lambda>n t. tbl_insert t (word_of_nat n) TKey) [1..<Suc (unat total_n)] tbl_empty, TGroup)),
       fr_key_package = Ok, fr_identifier = (\<lambda>i. Ok (ucast i)),
       fr_part1 = (\<lambda>i total_n threshold. xret (TKey, TKey)),
       fr_part2 = (\<lambda>secret others. Ok (TKey, others)),
       fr_part3 = (\<lambda>secret others received. Ok (TKey, TGroup)),
       fr_commit = (\<lambda>kp rng. ((TNonce, TNonce), rng + 1)),
       fr_package = (\<lambda>commitments m. TPackage m),
       fr_sign = (\<lambda>pkg n kp. Ok (case pkg of TPackage m \<Rightarrow> TShare m | _ \<Rightarrow> TKey)),
       fr_aggregate = (\<lambda>pkg shares g. case pkg of
           TPackage m \<Rightarrow> (case find (\<lambda>(i, s). s \<noteq> TShare m) (tbl_iter shares) of
               None \<Rightarrow> Ok (TSig m)
             | Some (i, s) \<Rightarrow> Err \<lparr> fe_text = [], fe_culprit = Some i \<rparr>)
         | _ \<Rightarrow> Err \<lparr> fe_text = [], fe_culprit = None \<rparr>),
       fr_serialize = (\<lambda>sig. case sig of TSig m \<Rightarrow> Ok (m @ m) | _ \<Rightarrow> Err \<lparr> fe_text = [], fe_culprit = None \<rparr>),
       fr_deserialize = (\<lambda>b. if even (length b) then Ok (TSig (take (length b div 2) b)) else Err \<lparr> fe_text = [], fe_culprit = None \<rparr>),
       fr_verifying_key = (\<lambda>g. Ok (replicate 32 7)),
       fr_verify = (\<lambda>g m sig. sig = TSig m) \<rparr>"

definition toy_committee :: "toy Committee" where
  "toy_committee = \<lparr> cm_threshold = 2,
     cm_key_packages = tbl_insert (tbl_insert (tbl_insert tbl_empty 1 TKey) 2 TKey) 3 TKey, cm_pubkeys = TGroup \<rparr>"

lemma toy_shares:
  assumes "shares_of toy_frost kps ids nonces commitments msg shares"
  shows "tbl_get shares i = (if i \<in> set ids then Some (TShare (msg i)) else None)"
  using assms unfolding shares_of_def by (auto simp: toy_frost_def split: if_splits)

lemma toy_signs: "frost_signs toy_frost c"
  by (auto simp: frost_signs_def toy_frost_def)

lemma toy_aggregates: "frost_aggregates toy_frost c"
proof -
  have "find (\<lambda>(i, s). s \<noteq> TShare m) (tbl_iter shares) = None"
    if "shares_of toy_frost (cm_key_packages c) ids nonces commitments (\<lambda>_. m) shares" for ids nonces commitments m shares
    using toy_shares [OF that] by (auto simp: find_None_iff tb.set_iter split: if_splits)
  then have "fr_aggregate toy_frost (TPackage m) shares (cm_pubkeys c) = Ok (TSig m)"
    if "shares_of toy_frost (cm_key_packages c) ids nonces commitments (\<lambda>_. m) shares" for ids nonces commitments m shares
    using that by (simp add: toy_frost_def)
  moreover have "fr_serialize toy_frost (TSig m) = Ok (m @ m)" "fr_deserialize toy_frost (m @ m) = Ok (TSig m)"
    "fr_package toy_frost commitments m = TPackage m" "fr_verify toy_frost g m (TSig m)" for commitments m g
    by (simp_all add: toy_frost_def)
  ultimately show ?thesis
    unfolding frost_aggregates_def by metis
qed

lemma toy_blames: "frost_blames toy_frost c"
  unfolding frost_blames_def
proof (intro allI impI)
  fix ids nonces commitments shares m msg
  assume H: "distinct ids \<and> unat (cm_threshold c) \<le> length ids
    \<and> committed toy_frost (cm_key_packages c) ids nonces commitments
    \<and> shares_of toy_frost (cm_key_packages c) ids nonces commitments msg shares \<and> (\<exists>i \<in> set ids. msg i \<noteq> m)"
  then have get: "tbl_get shares i = (if i \<in> set ids then Some (TShare (msg i)) else None)" for i
    using toy_shares by blast
  obtain i where "(i, TShare (msg i)) \<in> set (tbl_iter shares)" "msg i \<noteq> m"
    using H get by (auto simp: tb.set_iter)
  then obtain j s where j: "find (\<lambda>(i, s). s \<noteq> TShare m) (tbl_iter shares) = Some (j, s)"
    by (metis (mono_tags, lifting) case_prodI find_None_iff not_Some_eq old.prod.exhaust toy.inject(2))
  then have "(j, s) \<in> set (tbl_iter shares)" "s \<noteq> TShare m"
    using find_Some_iff [of "\<lambda>(i, s). s \<noteq> TShare m" "tbl_iter shares" "(j, s)"] nth_mem by fastforce+
  then have "j \<in> set ids" "msg j \<noteq> m"
    using get by (auto simp: tb.set_iter split: if_splits)
  then show "\<exists>e bad. fr_aggregate toy_frost (fr_package toy_frost commitments m) shares (cm_pubkeys c) = Err e
      \<and> fe_culprit e = Some bad \<and> bad \<in> set ids \<and> msg bad \<noteq> m"
    using j by (simp add: toy_frost_def)
qed


section \<open>Distributed key generation completes\<close>

text \<open>A table with one entry from every participant but \<open>i\<close>.\<close>

definition from_others :: "Identifier list \<Rightarrow> Identifier \<Rightarrow> 'x packages \<Rightarrow> bool" where
  "from_others ids i t \<longleftrightarrow> (\<forall>j. tbl_get t j \<noteq> None \<longleftrightarrow> j \<in> set ids \<and> j \<noteq> i)"

text \<open>
  The documented behaviour of the library's key generation: the first part always gives a package
  and a secret; with this secret the second part accepts one package from every other participant
  and answers each of them, and the third accepts one answer from every other participant.
\<close>

definition ready :: "'x frost \<Rightarrow> Identifier list \<Rightarrow> Identifier \<Rightarrow> 'x \<Rightarrow> bool" where
  "ready f ids i sec \<longleftrightarrow> (\<forall>others. from_others ids i others \<longrightarrow>
     (\<exists>sec2 out. fr_part2 f sec others = Ok (sec2, out) \<and> from_others ids i out
       \<and> (\<forall>received. from_others ids i received \<longrightarrow> (\<exists>kp g. fr_part3 f sec2 others received = Ok (kp, g)))))"

definition dkg_library :: "'x frost \<Rightarrow> u16 \<Rightarrow> u16 \<Rightarrow> Identifier list \<Rightarrow> bool" where
  "dkg_library f total_n threshold ids \<longleftrightarrow>
     (\<forall>i \<in> set ids. \<forall>rng. \<exists>sec pkg rng'. fr_part1 f i total_n threshold rng = (Ok (sec, pkg), rng') \<and> ready f ids i sec)"

lemma dkg_round1_run:
  assumes "dkg_library f total_n threshold ids" "set is \<subseteq> set ids"
  shows "\<exists>r1s r1p rng'. dkg_round1 f total_n threshold is (r1s0, r1p0) rng = (Ok (r1s, r1p), rng')
    \<and> (\<forall>i. if i \<in> set is then (\<exists>sec. tbl_get r1s i = Some sec \<and> ready f ids i sec) \<and> tbl_get r1p i \<noteq> None
         else tbl_get r1s i = tbl_get r1s0 i \<and> tbl_get r1p i = tbl_get r1p0 i)"
  using assms(2)
proof (induction "is" arbitrary: r1s0 r1p0 rng)
  case (Cons i "is")
  obtain sec pkg rng1 where part: "fr_part1 f i total_n threshold rng = (Ok (sec, pkg), rng1)" and sec: "ready f ids i sec"
    using assms(1) Cons.prems unfolding dkg_library_def by fastforce
  obtain r1s r1p rng' where run: "dkg_round1 f total_n threshold is (tbl_insert r1s0 i sec, tbl_insert r1p0 i pkg) rng1 = (Ok (r1s, r1p), rng')"
    and IH: "\<forall>j. if j \<in> set is then (\<exists>sec. tbl_get r1s j = Some sec \<and> ready f ids j sec) \<and> tbl_get r1p j \<noteq> None
         else tbl_get r1s j = tbl_get (tbl_insert r1s0 i sec) j \<and> tbl_get r1p j = tbl_get (tbl_insert r1p0 i pkg) j"
    using Cons.IH [of "tbl_insert r1s0 i sec" "tbl_insert r1p0 i pkg" rng1] Cons.prems by auto
  have "dkg_round1 f total_n threshold (i # is) (r1s0, r1p0) rng = (Ok (r1s, r1p), rng')"
    using part run by (simp add: xmap_err_def)
  moreover have "if j \<in> set (i # is) then (\<exists>sec. tbl_get r1s j = Some sec \<and> ready f ids j sec) \<and> tbl_get r1p j \<noteq> None
      else tbl_get r1s j = tbl_get r1s0 j \<and> tbl_get r1p j = tbl_get r1p0 j" for j
    using IH [rule_format, of j] sec by (cases "j \<in> set is"; cases "j = i") simp_all
  ultimately show ?case
    by blast
qed simp

lemma deliver_run:
  assumes "\<forall>r \<in> fst ` set out. tbl_get inbox r \<noteq> None" "distinct (map fst out)"
  shows "\<exists>inbox'. deliver i out inbox = Ok inbox'
    \<and> (\<forall>r. tbl_get inbox' r = (case map_of out r of
            Some pkg \<Rightarrow> map_option (\<lambda>box. tbl_insert box i pkg) (tbl_get inbox r) | None \<Rightarrow> tbl_get inbox r))"
  using assms
proof (induction out arbitrary: inbox)
  case (Cons x out)
  obtain r pkg where x: "x = (r, pkg)"
    by (cases x)
  obtain box where box: "tbl_get inbox r = Some box"
    using Cons.prems(1) x by auto
  have "map_of out r = None"
    using Cons.prems(2) x by (simp add: map_of_eq_None_iff)
  moreover have known: "\<forall>q \<in> fst ` set out. tbl_get (tbl_insert inbox r (tbl_insert box i pkg)) q \<noteq> None"
    using Cons.prems(1) by auto
  moreover obtain inbox' where "deliver i out (tbl_insert inbox r (tbl_insert box i pkg)) = Ok inbox'"
    "\<forall>q. tbl_get inbox' q = (case map_of out q of
        Some pkg' \<Rightarrow> map_option (\<lambda>b. tbl_insert b i pkg') (tbl_get (tbl_insert inbox r (tbl_insert box i pkg)) q)
      | None \<Rightarrow> tbl_get (tbl_insert inbox r (tbl_insert box i pkg)) q)"
    using Cons.IH [OF known] Cons.prems(2) by auto
  ultimately show ?case
    using x box by (intro exI [of _ inbox']) (auto split: option.splits)
qed simp

text \<open>After some participants have sent, every inbox has exactly the packages of those.\<close>

definition inboxes :: "Identifier list \<Rightarrow> Identifier set \<Rightarrow> (Identifier, 'x packages) tbl \<Rightarrow> bool" where
  "inboxes ids sent inbox \<longleftrightarrow>
     (\<forall>r \<in> set ids. \<exists>box. tbl_get inbox r = Some box \<and> (\<forall>j. tbl_get box j \<noteq> None \<longleftrightarrow> j \<in> sent \<and> j \<noteq> r))"

definition round2_done :: "'x frost \<Rightarrow> 'x packages \<Rightarrow> Identifier list \<Rightarrow> 'x packages \<Rightarrow> Identifier \<Rightarrow> bool" where
  "round2_done f r1p ids r2s i \<longleftrightarrow> (\<exists>sec2. tbl_get r2s i = Some sec2
     \<and> (\<forall>received. from_others ids i received \<longrightarrow> (\<exists>kp g. fr_part3 f sec2 (tbl_remove r1p i) received = Ok (kp, g))))"

lemma inboxes_deliver:
  assumes "inboxes ids sent inbox" "from_others ids i out" "i \<in> set ids"
  shows "\<exists>inbox'. deliver i (tbl_iter out) inbox = Ok inbox' \<and> inboxes ids (insert i sent) inbox'"
proof -
  have get: "map_of (tbl_iter out) r = tbl_get out r" for r
    by (simp add: tbl_get.rep_eq)
  have "r \<in> set ids" if "r \<in> fst ` set (tbl_iter out)" for r
    using that assms(2) by (auto simp: from_others_def tb.set_iter)
  then obtain inbox' where run: "deliver i (tbl_iter out) inbox = Ok inbox'"
    and box: "\<And>r. tbl_get inbox' r = (case tbl_get out r of
      Some pkg \<Rightarrow> map_option (\<lambda>b. tbl_insert b i pkg) (tbl_get inbox r) | None \<Rightarrow> tbl_get inbox r)"
    using deliver_run [of "tbl_iter out" inbox i] assms(1) tb.iter_distinct(1) [of out] unfolding inboxes_def get by fastforce
  have "\<exists>b. tbl_get inbox' r = Some b \<and> (\<forall>j. tbl_get b j \<noteq> None \<longleftrightarrow> j \<in> insert i sent \<and> j \<noteq> r)" if r: "r \<in> set ids" for r
  proof -
    obtain b where b: "tbl_get inbox r = Some b" "\<forall>j. tbl_get b j \<noteq> None \<longleftrightarrow> j \<in> sent \<and> j \<noteq> r"
      using assms(1) r unfolding inboxes_def by blast
    show ?thesis
    proof (cases "r = i")
      case True
      then have "tbl_get out r = None"
        using assms(2) unfolding from_others_def by blast
      then show ?thesis
        using b box [of r] True by (intro exI [of _ b]) auto
    next
      case False
      then obtain pkg where "tbl_get out r = Some pkg"
        using assms(2) r unfolding from_others_def by blast
      then show ?thesis
        using b box [of r] False by (intro exI [of _ "tbl_insert b i pkg"]) auto
    qed
  qed
  then show ?thesis
    using run by (auto simp: inboxes_def)
qed

lemma dkg_round2_run:
  assumes "\<forall>i \<in> set ids. tbl_get r1p i \<noteq> None" "\<forall>i. i \<notin> set ids \<longrightarrow> tbl_get r1p i = None"
    and "distinct is" "set is \<subseteq> set ids" "\<forall>i \<in> set is. \<exists>sec. tbl_get r1s i = Some sec \<and> ready f ids i sec"
    and "inboxes ids sent inbox" "\<forall>i \<in> sent. round2_done f r1p ids r2s i" "sent \<inter> set is = {}"
  shows "\<exists>r2s' inbox'. dkg_round2 f r1p is r1s r2s inbox = Ok (r2s', inbox')
    \<and> inboxes ids (sent \<union> set is) inbox' \<and> (\<forall>i \<in> sent \<union> set is. round2_done f r1p ids r2s' i)"
  using assms(3-8)
proof (induction "is" arbitrary: r1s r2s inbox sent)
  case (Cons i "is")
  obtain sec where sec: "tbl_get r1s i = Some sec" "ready f ids i sec"
    using Cons.prems(3) by auto
  have "from_others ids i (tbl_remove r1p i)"
    using assms(1,2) by (auto simp: from_others_def)
  then obtain sec2 out where part: "fr_part2 f sec (tbl_remove r1p i) = Ok (sec2, out)" "from_others ids i out"
    and accept: "\<forall>received. from_others ids i received \<longrightarrow> (\<exists>kp g. fr_part3 f sec2 (tbl_remove r1p i) received = Ok (kp, g))"
    using sec(2) unfolding ready_def by blast
  obtain inbox1 where inbox1: "deliver i (tbl_iter out) inbox = Ok inbox1" "inboxes ids (insert i sent) inbox1"
    using inboxes_deliver [OF Cons.prems(4) part(2)] Cons.prems(2) by auto
  have sent: "\<forall>j \<in> insert i sent. round2_done f r1p ids (tbl_insert r2s i sec2) j"
    using Cons.prems(5,6) accept by (auto simp: round2_done_def)
  have rest: "\<forall>j \<in> set is. \<exists>sec. tbl_get (tbl_remove r1s i) j = Some sec \<and> ready f ids j sec"
    using Cons.prems(1,3) by auto
  obtain r2s' inbox' where "dkg_round2 f r1p is (tbl_remove r1s i) (tbl_insert r2s i sec2) inbox1 = Ok (r2s', inbox')"
    "inboxes ids (insert i sent \<union> set is) inbox'" "\<forall>j \<in> insert i sent \<union> set is. round2_done f r1p ids r2s' j"
    using Cons.IH [OF _ _ rest inbox1(2) sent] Cons.prems(1,2,6) by auto
  then show ?case
    using sec(1) part(1) inbox1(1) by (simp add: Let_def insert_commute)
qed simp

lemma dkg_round3_run:
  assumes "inboxes ids (set ids) inbox" "set is \<subseteq> set ids" "\<forall>i \<in> set is. round2_done f r1p ids r2s i"
  shows "\<exists>kps g. dkg_round3 f r1p r2s inbox is (kps0, g0) = Ok (kps, g)
    \<and> (g = None \<longleftrightarrow> is = [] \<and> g0 = None)
    \<and> (\<forall>i. tbl_get kps i \<noteq> None \<longleftrightarrow> i \<in> set is \<or> tbl_get kps0 i \<noteq> None)"
  using assms(2,3)
proof (induction "is" arbitrary: kps0 g0)
  case (Cons i "is")
  obtain received where box: "tbl_get inbox i = Some received" "from_others ids i received"
    using assms(1) Cons.prems(1) unfolding inboxes_def from_others_def by fastforce
  obtain sec2 kp g where part: "tbl_get r2s i = Some sec2" "fr_part3 f sec2 (tbl_remove r1p i) received = Ok (kp, g)"
    using Cons.prems(2) box(2) unfolding round2_done_def by fastforce
  obtain kps g' where "dkg_round3 f r1p r2s inbox is (tbl_insert kps0 i kp, Some g) = Ok (kps, g')"
    "g' \<noteq> None" "\<forall>j. tbl_get kps j \<noteq> None \<longleftrightarrow> j \<in> set is \<or> tbl_get (tbl_insert kps0 i kp) j \<noteq> None"
    using Cons.IH [of "tbl_insert kps0 i kp" "Some g"] Cons.prems by auto
  then show ?case
    using box(1) part by (auto simp: Let_def)
qed auto

lemma identifiers_run: "\<forall>n \<in> set ns. fr_identifier f n = Ok (ident n) \<Longrightarrow> identifiers f ns = Ok (map ident ns)"
  by (induction ns) auto

lemma fold_inboxes:
  "tbl_get (fold (\<lambda>i t. tbl_insert t i tbl_empty) is t) r = (if r \<in> set is then Some tbl_empty else tbl_get t r)"
  by (induction "is" arbitrary: t) auto

lemma empty_inboxes_ok: "inboxes ids {} (empty_inboxes ids)"
  by (auto simp: inboxes_def empty_inboxes_def fold_inboxes)



section \<open>The Taproot committee\<close>

text \<open>
  \<open>taproot.rs\<close> is the same code over the Taproot variant of the library, so its operations are those
  above on that library; only \<open>group_xonly\<close> is its own.
\<close>

type_synonym 'x TaprootCommittee = "'x Committee"

definition taproot_generate :: "'x frost \<Rightarrow> u16 \<Rightarrow> u16 \<Rightarrow> 'x TaprootCommittee texec" where
  "taproot_generate tr threshold total_n = committee_generate tr threshold total_n"

definition taproot_group_key :: "'x frost \<Rightarrow> 'x TaprootCommittee \<Rightarrow> bytes" where
  "taproot_group_key tr c = group_public_key tr c"

definition group_xonly :: "'x frost \<Rightarrow> 'x TaprootCommittee \<Rightarrow> bytes" where
  "group_xonly tr c =
     (let bytes = taproot_group_key tr c;
          src = (if length bytes = 33 then drop 1 bytes else if 32 \<le> length bytes then take 32 bytes else bytes);
          n = min (length src) 32
      in take n src @ replicate (32 - n) 0)"

definition taproot_sign :: "'x frost \<Rightarrow> 'x TaprootCommittee \<Rightarrow> bytes \<Rightarrow> Identifier list \<Rightarrow> bytes texec" where
  "taproot_sign tr c message signers = committee_sign tr c message signers"

definition taproot_sign_robust ::
  "'x frost \<Rightarrow> 'x TaprootCommittee \<Rightarrow> bytes \<Rightarrow> Identifier list \<Rightarrow> Identifier list \<Rightarrow> nat
     \<Rightarrow> (RobustSignature tresult \<times> nat) option" where
  "taproot_sign_robust tr c message online disruptive rng = sign_robust tr c message online disruptive rng"

definition taproot_verify :: "'x frost \<Rightarrow> 'x TaprootCommittee \<Rightarrow> bytes \<Rightarrow> bytes \<Rightarrow> bool" where
  "taproot_verify tr c message signature = committee_verify tr c message signature"

lemma length_group_xonly: "length (group_xonly tr c) = 32"
  by (simp add: group_xonly_def Let_def)

end
