(* ===== verification/Custody.thy ===== *)
theory Custody
  imports Threshold Text
begin

text \<open>
  The configuration of threshold custody, \<open>src/himsha-node/src/custody.rs\<close>: the text \<open>M/N\<close> of the
  environment variable and the committee made from it. The value of the variable is an argument.
\<close>

datatype spec_error = NoSlash | BadM | BadN | ZeroPart | MAboveN

definition parse_spec :: "bytes \<Rightarrow> (spec_error, u16 \<times> u16) result" where
  "parse_spec s =
     rbind (ok_or (split_once 47 s) NoSlash) (\<lambda>(m, n).
     rbind (ok_or (parse_uint (2 ^ 16) (trim m)) BadM) (\<lambda>m.
     rbind (ok_or (parse_uint (2 ^ 16) (trim n)) BadN) (\<lambda>n.
     let m = word_of_nat m; n = word_of_nat n in
     if m = 0 \<or> n = 0 then Err ZeroPart
     else if n < m then Err MAboveN
     else Ok (m, n))))"

record 'x Custody =
  cu_committee :: "'x TaprootCommittee"
  cu_threshold :: u16
  cu_total :: u16

definition custody_from_env :: "'x frost \<Rightarrow> bytes option \<Rightarrow> nat \<Rightarrow> 'x Custody option \<times> nat" where
  "custody_from_env tr var rng =
     (case var of
        None \<Rightarrow> (None, rng)
      | Some spec \<Rightarrow>
          (case parse_spec spec of
             Ok (m, n) \<Rightarrow>
               (case taproot_generate tr m n rng of
                  (Ok committee, rng) \<Rightarrow>
                    (Some \<lparr> cu_committee = committee, cu_threshold = m, cu_total = n \<rparr>, rng)
                | (_, rng) \<Rightarrow> (None, rng))
           | _ \<Rightarrow> (None, rng)))"

definition custody_group_xonly :: "'x frost \<Rightarrow> 'x Custody \<Rightarrow> bytes" where
  "custody_group_xonly tr cu = group_xonly tr (cu_committee cu)"

section \<open>What a configuration says\<close>

lemma parse_spec_Ok:
  assumes "parse_spec s = Ok (m, n)"
  shows "\<exists>a b. s = a @ 47 # b \<and> 47 \<notin> set a \<and> parse_uint (2 ^ 16) (trim a) = Some (unat m)
    \<and> parse_uint (2 ^ 16) (trim b) = Some (unat n) \<and> 1 \<le> m \<and> m \<le> n"
proof -
  obtain a b i j where "split_once 47 s = Some (a, b)" "parse_uint (2 ^ 16) (trim a) = Some i"
    "parse_uint (2 ^ 16) (trim b) = Some j" "m = word_of_nat i" "n = word_of_nat j" "m \<noteq> 0" "\<not> n < m"
    using assms by (auto simp: parse_spec_def monad_iffs Let_def split: if_splits)
  moreover have bound: "k < 2 ^ 16" if "parse_uint (2 ^ 16) r = Some k" for k r
  proof -
    have "digits_value limit acc bs = Some v \<Longrightarrow> acc < limit \<Longrightarrow> v < limit" for limit acc bs v
      by (induction bs arbitrary: acc) (auto simp: Let_def split: if_splits)
    then show ?thesis
      using that unfolding parse_uint_def by (auto simp del: digits_value.simps split: list.splits if_splits)
  qed
  ultimately have "s = a @ 47 # b \<and> 47 \<notin> set a" "unat m = i" "unat n = j" "m \<noteq> 0" "m \<le> n"
    "parse_uint (2 ^ 16) (trim a) = Some i" "parse_uint (2 ^ 16) (trim b) = Some j"
    using bound [of _ i] bound [of _ j] by (simp_all add: split_once_Some_iff unat_of_nat take_bit_nat_eq_self)
  moreover have "1 \<le> m"
    using \<open>m \<noteq> 0\<close> by (metis word_less_1 not_less)
  ultimately show ?thesis
    by metis
qed

text \<open>
  A threshold specification reads back: the text of \<open>M/N\<close>, with any spaces around the numbers, gives
  exactly \<open>M\<close> and \<open>N\<close> when \<open>1 \<le> M \<le> N\<close>; a zero is refused as such, and otherwise a threshold above the
  number of signers is.
\<close>

theorem threshold_spec_roundtrip:
  "parse_spec (replicate a 32 @ decimal (unat m) @ replicate b 32 @ 47 # replicate c 32 @ decimal (unat n) @ replicate d 32) =
     (if m = 0 \<or> n = 0 then Err ZeroPart else if m \<le> n then Ok (m, n) else Err MAboveN)"
  (is "parse_spec ?s = _")
proof -
  let ?l = "replicate a 32 @ decimal (unat m) @ replicate b 32 :: bytes"
  let ?r = "replicate c 32 @ decimal (unat n) @ replicate d 32 :: bytes"
  have "47 \<notin> set (decimal k)" for k
    using decimal_digits [of k] by (auto simp: list_all_iff is_digit_def)
  then have "split_once 47 ?s = Some (?l, ?r)"
    unfolding split_once_Some_iff by auto
  moreover have "trim ?l = decimal (unat m)" "trim ?r = decimal (unat n)"
    using trim_number decimal_digits by blast+
  moreover have "parse_uint (2 ^ 16) (decimal (unat k)) = Some (unat k)" for k :: u16
    using parse_uint_decimal [of "unat k" "2 ^ 16"] unat_bound [of k] by simp
  ultimately show ?thesis
    by (auto simp: parse_spec_def not_less)
qed

text \<open>
  The custody that a node runs with has a threshold between one and its size, and its committee signs
  with that threshold.
\<close>

lemma custody_bounds:
  assumes "custody_from_env tr var rng = (Some cu, rng')"
  shows "1 \<le> cu_threshold cu \<and> cu_threshold cu \<le> cu_total cu \<and> cm_threshold (cu_committee cu) = cu_threshold cu"
proof -
  obtain spec m n c where "parse_spec spec = Ok (m, n)" "taproot_generate tr m n rng = (Ok c, rng')"
    "cu = \<lparr> cu_committee = c, cu_threshold = m, cu_total = n \<rparr>"
    using assms by (auto simp: custody_from_env_def split: option.splits result.splits prod.splits)
  then show ?thesis
    using parse_spec_Ok [of spec m n]
    by (auto simp: taproot_generate_def committee_generate_def monad_iffs split: prod.splits)
qed

end
