(* ===== verification/Settlement_Tx.thy ===== *)
theory Settlement_Tx
  imports Custody
begin

text \<open>
  Threshold-signed settlement transactions, \<open>src/himsha-node/src/settlement_tx.rs\<close>: a transaction
  that spends one output of the committee to a recipient, its signature by a quorum, and the final
  form that is broadcast. Parsing of ids and addresses, scripts, the BIP-341 digest and the
  consensus encoding are calls of the bitcoin library, the fields of the record \<open>btc_lib\<close>.
\<close>

section \<open>Transactions\<close>

datatype Network = Bitcoin | Testnet | Signet | Regtest

record OutPoint =
  op_txid :: bytes32
  op_vout :: u32

record TxIn =
  in_previous_output :: OutPoint
  in_script_sig :: bytes
  in_sequence :: u32
  in_witness :: "bytes list"

record TxOut =
  out_value :: u64
  out_script_pubkey :: bytes

record BtcTransaction =
  bt_version :: int
  bt_lock_time :: u32
  bt_input :: "TxIn list"
  bt_output :: "TxOut list"

record btc_lib =
  bl_txid :: "bytes \<Rightarrow> bytes32 option"
  bl_address :: "bytes \<Rightarrow> bytes option"
  bl_on_network :: "bytes \<Rightarrow> Network \<Rightarrow> bool"
  bl_script_pubkey :: "bytes \<Rightarrow> bytes"
  bl_p2tr :: "bytes \<Rightarrow> bytes option"
  bl_address_of :: "bytes \<Rightarrow> Network \<Rightarrow> bytes option"
  bl_sighash :: "BtcTransaction \<Rightarrow> TxOut \<Rightarrow> bytes option"
  bl_serialize :: "BtcTransaction \<Rightarrow> bytes"

datatype settle_error =
    BadTxid
  | BelowFee u64 u64
  | BadAddress
  | WrongNetwork
  | BadGroupKey
  | NoAddress
  | SighashFailed
  | BadSignatureLength nat
  | SignFailed ThresholdError
  | SelfVerification

type_synonym 'a settle_result = "(settle_error, 'a) result"

text \<open>\<open>Sequence::ENABLE_RBF_NO_LOCKTIME\<close>\<close>

definition ENABLE_RBF_NO_LOCKTIME :: u32 where
  "ENABLE_RBF_NO_LOCKTIME = 0xFFFFFFFD"

definition committee_p2tr :: "btc_lib \<Rightarrow> bytes \<Rightarrow> bytes settle_result" where
  "committee_p2tr b xonly = ok_or (bl_p2tr b xonly) BadGroupKey"

definition committee_address :: "btc_lib \<Rightarrow> bytes \<Rightarrow> Network \<Rightarrow> bytes settle_result" where
  "committee_address b xonly network =
     rbind (committee_p2tr b xonly) (\<lambda>spk. ok_or (bl_address_of b spk network) NoAddress)"

definition require_address :: "btc_lib \<Rightarrow> Network \<Rightarrow> bytes \<Rightarrow> bytes settle_result" where
  "require_address b network text =
     rbind (ok_or (bl_address b text) BadAddress) (\<lambda>addr.
     if bl_on_network b addr network then Ok addr else Err WrongNetwork)"

definition build_keyspend ::
  "btc_lib \<Rightarrow> bytes \<Rightarrow> bytes \<Rightarrow> u32 \<Rightarrow> u64 \<Rightarrow> bytes \<Rightarrow> u64 \<Rightarrow> Network \<Rightarrow> (BtcTransaction \<times> bytes) settle_result" where
  "build_keyspend b xonly utxo_txid vout in_value recipient fee network =
     rbind (ok_or (bl_txid b utxo_txid) BadTxid) (\<lambda>txid.
     rbind (ok_or (checked_sub in_value fee) (BelowFee in_value fee)) (\<lambda>send.
     rbind (require_address b network recipient) (\<lambda>addr.
     rbind (committee_p2tr b xonly) (\<lambda>committee_spk.
     let tx = \<lparr> bt_version = 2, bt_lock_time = 0,
                bt_input = [\<lparr> in_previous_output = \<lparr> op_txid = txid, op_vout = vout \<rparr>, in_script_sig = [],
                             in_sequence = ENABLE_RBF_NO_LOCKTIME, in_witness = [] \<rparr>],
                bt_output = [\<lparr> out_value = send, out_script_pubkey = bl_script_pubkey b addr \<rparr>] \<rparr>;
         prevout = \<lparr> out_value = in_value, out_script_pubkey = committee_spk \<rparr>
     in rbind (ok_or (bl_sighash b tx prevout) SighashFailed) (\<lambda>sighash.
        Ok (tx, sighash))))))"

definition finalize_keyspend :: "btc_lib \<Rightarrow> BtcTransaction \<Rightarrow> bytes \<Rightarrow> bytes settle_result" where
  "finalize_keyspend b tx sig64 =
     (if length sig64 \<noteq> 64 then Err (BadSignatureLength (length sig64))
      else rbind (index_at (bt_input tx) 0) (\<lambda>i.
        Ok (bl_serialize b (tx\<lparr>bt_input := (bt_input tx)[0 := i\<lparr>in_witness := [sig64]\<rparr>]\<rparr>))))"

definition settle_with_committee ::
  "btc_lib \<Rightarrow> 'x frost \<Rightarrow> 'x TaprootCommittee \<Rightarrow> bytes \<Rightarrow> u32 \<Rightarrow> u64 \<Rightarrow> bytes \<Rightarrow> u64 \<Rightarrow> Network
     \<Rightarrow> (nat, settle_error, bytes) exec" where
  "settle_with_committee b tr c utxo_txid vout in_value recipient fee network =
     xbind (xlift (build_keyspend b (group_xonly tr c) utxo_txid vout in_value recipient fee network)) (\<lambda>(tx, sighash).
     xbind (xmap_err SignFailed (taproot_sign tr c sighash (take (unat (cm_threshold c)) (signer_ids c)))) (\<lambda>sig.
     xlift (if \<not> taproot_verify tr c sighash sig then Err SelfVerification
            else finalize_keyspend b tx sig)))"

section \<open>What a settlement pays\<close>

definition keyspend_of :: "bytes32 \<Rightarrow> u32 \<Rightarrow> u64 \<Rightarrow> bytes \<Rightarrow> bytes list \<Rightarrow> BtcTransaction" where
  "keyspend_of txid vout send script witness =
     \<lparr> bt_version = 2, bt_lock_time = 0,
       bt_input = [\<lparr> in_previous_output = \<lparr> op_txid = txid, op_vout = vout \<rparr>, in_script_sig = [],
                    in_sequence = ENABLE_RBF_NO_LOCKTIME, in_witness = witness \<rparr>],
       bt_output = [\<lparr> out_value = send, out_script_pubkey = script \<rparr>] \<rparr>"

lemma build_keyspend_Ok_iff:
  "build_keyspend b xonly utxo_txid vout in_value recipient fee network = Ok (tx, sighash) \<longleftrightarrow>
     (\<exists>txid addr spk. bl_txid b utxo_txid = Some txid \<and> fee \<le> in_value
        \<and> bl_address b recipient = Some addr \<and> bl_on_network b addr network \<and> bl_p2tr b xonly = Some spk
        \<and> tx = keyspend_of txid vout (in_value - fee) (bl_script_pubkey b addr) []
        \<and> bl_sighash b tx \<lparr> out_value = in_value, out_script_pubkey = spk \<rparr> = Some sighash)"
  by (auto simp: build_keyspend_def require_address_def committee_p2tr_def keyspend_of_def monad_iffs Let_def checked_sub_def
      split: if_splits)

lemma finalize_keyspend_of:
  "finalize_keyspend b (keyspend_of txid vout send script []) sig = Ok hex \<longleftrightarrow>
     length sig = 64 \<and> hex = bl_serialize b (keyspend_of txid vout send script [sig])"
  by (auto simp: finalize_keyspend_def keyspend_of_def)

text \<open>
  C17. What a committee settlement broadcasts: when it returns, the text is the encoding of a transaction
  that spends exactly the given output and nothing else, pays its value less the fee to the
  recipient on this network and nothing to anyone else, and carries one 64-byte signature that
  verifies, under the group key, for the digest of that transaction spending the committee's output.
\<close>

theorem settlement_pays_recipient:
  assumes "settle_with_committee b tr c utxo_txid vout in_value recipient fee network rng = (Ok hex, rng')"
  shows "\<exists>txid addr spk sighash sig. bl_txid b utxo_txid = Some txid
    \<and> bl_address b recipient = Some addr \<and> bl_on_network b addr network \<and> bl_p2tr b (group_xonly tr c) = Some spk
    \<and> unat (in_value - fee) + unat fee = unat in_value
    \<and> bl_sighash b (keyspend_of txid vout (in_value - fee) (bl_script_pubkey b addr) [])
        \<lparr> out_value = in_value, out_script_pubkey = spk \<rparr> = Some sighash
    \<and> taproot_verify tr c sighash sig \<and> length sig = 64
    \<and> hex = bl_serialize b (keyspend_of txid vout (in_value - fee) (bl_script_pubkey b addr) [sig])"
proof -
  obtain tx sighash sig where "build_keyspend b (group_xonly tr c) utxo_txid vout in_value recipient fee network = Ok (tx, sighash)"
    "taproot_verify tr c sighash sig" "finalize_keyspend b tx sig = Ok hex"
    using assms by (auto simp: settle_with_committee_def monad_iffs split: if_splits)
  then obtain txid addr spk where parts: "bl_txid b utxo_txid = Some txid" "fee \<le> in_value"
    "bl_address b recipient = Some addr" "bl_on_network b addr network" "bl_p2tr b (group_xonly tr c) = Some spk"
    "tx = keyspend_of txid vout (in_value - fee) (bl_script_pubkey b addr) []"
    "bl_sighash b tx \<lparr> out_value = in_value, out_script_pubkey = spk \<rparr> = Some sighash"
    "taproot_verify tr c sighash sig" "finalize_keyspend b tx sig = Ok hex"
    unfolding build_keyspend_Ok_iff by blast
  moreover have "unat (in_value - fee) + unat fee = unat in_value"
    using parts(2) by (simp add: unat_sub_if' word_le_nat_alt)
  ultimately show ?thesis
    by (auto simp: finalize_keyspend_of)
qed

text \<open>A committee whose library keeps its promises settles whenever the texts parse and the value covers the fee.\<close>

lemma settlement_succeeds:
  assumes "frost_signs tr c" "frost_aggregates tr c" "unat (cm_threshold c) \<le> committee_total c"
    and "build_keyspend b (group_xonly tr c) utxo_txid vout in_value recipient fee network = Ok (tx, sighash)"
    and "\<And>sig. taproot_verify tr c sighash sig \<Longrightarrow> length sig = 64"
  shows "\<exists>hex rng'. settle_with_committee b tr c utxo_txid vout in_value recipient fee network rng = (Ok hex, rng')"
proof -
  let ?quorum = "take (unat (cm_threshold c)) (signer_ids c)"
  have quorum: "distinct ?quorum" "length ?quorum = unat (cm_threshold c)"
    using assms(3) tb.iter_distinct(1) [of "cm_key_packages c"] by (simp_all add: signer_ids_def committee_total_def distinct_take)
  have "\<forall>i \<in> set ?quorum. tbl_get (cm_key_packages c) i \<noteq> None"
    by (auto simp: signer_ids_def tb.set_iter dest!: in_set_takeD)
  then obtain sig rng' where "taproot_sign tr c sighash ?quorum rng = (Ok sig, rng')" "taproot_verify tr c sighash sig"
    using committee_sign_verifies [OF assms(1,2) quorum(1) _ _ _, of sighash rng] quorum(2) unat_bound [of "cm_threshold c"]
    by (auto simp: taproot_sign_def taproot_verify_def simp del: length_take)
  moreover obtain txid send script where "tx = keyspend_of txid vout send script []"
    using assms(4) unfolding build_keyspend_Ok_iff by blast
  ultimately show ?thesis
    using assms(4,5) finalize_keyspend_of [of b txid vout send script sig]
    by (auto simp: settle_with_committee_def xmap_err_def)
qed

definition sample_btc :: btc_lib where
  "sample_btc =
     \<lparr> bl_txid = (\<lambda>_. Some 5), bl_address = Some, bl_on_network = (\<lambda>_ _. True), bl_script_pubkey = (\<lambda>a. a),
       bl_p2tr = Some, bl_address_of = (\<lambda>s _. Some s), bl_sighash = (\<lambda>_ _. Some (replicate 32 9)), bl_serialize = (\<lambda>_. [1]) \<rparr>"

theorem settlement_pays_recipient_witness:
  "\<exists>hex rng'. settle_with_committee sample_btc toy_frost toy_committee [] 0 100000 [3] 500 Regtest 0 = (Ok hex, rng')
    \<and> hex = [1] \<and> unat (100000 - 500 :: u64) + unat (500 :: u64) = unat (100000 :: u64)"
proof -
  have built: "\<exists>tx. build_keyspend sample_btc (group_xonly toy_frost toy_committee) [] 0 100000 [3] 500 Regtest
      = Ok (tx, replicate 32 9)"
    by (simp add: build_keyspend_Ok_iff sample_btc_def)
  have "length sig = 64" if "taproot_verify toy_frost toy_committee (replicate 32 9) sig" for sig
  proof -
    have "even (length sig)" "take (length sig div 2) sig = replicate 32 9"
      using that by (simp_all add: taproot_verify_def committee_verify_def toy_frost_def split: if_splits)
    then have "even (length sig)" "length sig div 2 = 32"
      using length_take [of "length sig div 2" sig] by (simp_all del: length_take)
    then show ?thesis
      by presburger
  qed
  then obtain hex rng' where run: "settle_with_committee sample_btc toy_frost toy_committee [] 0 100000 [3] 500 Regtest 0 = (Ok hex, rng')"
    using settlement_succeeds [OF toy_signs toy_aggregates, of toy_committee sample_btc "[]" 0 100000 "[3]" 500 Regtest _ "replicate 32 9" 0] built
    by (auto simp: toy_committee_def committee_total_def)
  then show ?thesis
    using settlement_pays_recipient [OF run] by (auto simp: sample_btc_def)
qed

end
