(* ===== verification/Bitcoin_Indexer.thy ===== *)
theory Bitcoin_Indexer
  imports Settlement_Tx Node_Exec
begin

text \<open>
  The Bitcoin indexer, \<open>src/himsha-node/src/bitcoin_indexer.rs\<close>: queries and payments through a
  Bitcoin Core client, the commitment of state roots in \<open>OP_RETURN\<close> outputs, and the poll that
  turns snapshots of the mempool into events; and the dispatch of a settlement to it in
  \<open>execution.rs\<close>.

  Bitcoin Core is the record \<open>core_rpc\<close>: every call reads and changes a state of its own, the type
  variable \<open>'w\<close>, and may fail. The text forms of ids, the hexadecimal codec and the \<open>OP_RETURN\<close>
  script come from third-party crates, the record \<open>index_lib\<close>. The broadcast channel is the list
  of the events sent on it.
\<close>

section \<open>The client\<close>

datatype index_error =
    TxidText
  | AddressText settle_error
  | CoreFailed nat
  | HexText
  | NotFoundOrSpent
  | UtxoBelowFee u64
  | NotFullySigned
  | PayloadScript
  | CommitteeFailed settle_error

record CoreTxOut =
  ct_value :: u64
  ct_script :: bytes
  ct_confirmations :: u32

record Unspent =
  un_txid :: bytes32
  un_vout :: u32
  un_amount :: u64
  un_script :: bytes
  un_confirmations :: u32

type_synonym ('w, 'a) core = "('w, index_error, 'a) exec"

record 'w core_rpc =
  cr_tx_out :: "bytes32 \<Rightarrow> u32 \<Rightarrow> ('w, CoreTxOut option) core"
  cr_list_unspent :: "bytes \<Rightarrow> ('w, Unspent list) core"
  cr_send_raw :: "bytes \<Rightarrow> ('w, bytes32) core"
  cr_block_count :: "('w, u64) core"
  cr_balance :: "('w, u64) core"
  cr_send_to_address :: "bytes \<Rightarrow> u64 \<Rightarrow> ('w, bytes32) core"
  cr_create_raw :: "OutPoint list \<Rightarrow> (bytes \<times> u64) list \<Rightarrow> ('w, bytes) core"
  cr_sign_wallet :: "bytes \<Rightarrow> ('w, bytes \<times> bool) core"
  cr_fund_raw :: "bytes \<Rightarrow> ('w, bytes) core"
  cr_raw_mempool :: "('w, bytes32 list) core"

record index_lib = btc_lib +
  xl_txid_text :: "bytes32 \<Rightarrow> bytes"
  xl_address_text :: "bytes \<Rightarrow> bytes"
  xl_hex :: "bytes \<Rightarrow> bytes"
  xl_unhex :: "bytes \<Rightarrow> bytes option"
  xl_script_hex :: "bytes \<Rightarrow> bytes"
  xl_op_return :: "bytes \<Rightarrow> bytes option"

text \<open>\<open>UtxoInfo\<close> of \<open>src/himsha-runtime/src/utxo.rs\<close>.\<close>

record UtxoInfo =
  ui_meta :: UtxoMeta
  ui_value :: u64
  ui_script_pubkey :: bytes
  ui_confirmations :: u32

record 'w BitcoinIndexer =
  ix_rpc :: "'w core_rpc"
  ix_network :: Network
  ix_mempool_space_url :: "bytes option"

definition network_of_name :: "bytes option \<Rightarrow> Network" where
  "network_of_name name =
     (if name = Some (ascii ''mainnet'') \<or> name = Some (ascii ''bitcoin'') then Bitcoin
      else if name = Some (ascii ''testnet'') then Testnet
      else if name = Some (ascii ''signet'') then Signet
      else Regtest)"

text \<open>The environment variables are \<open>env\<close>; \<open>connect\<close> is \<open>Client::new\<close>.\<close>

definition indexer_from_env ::
  "(bytes \<Rightarrow> bytes \<Rightarrow> bytes \<Rightarrow> 'w core_rpc option) \<Rightarrow> (string \<Rightarrow> bytes option) \<Rightarrow> 'w BitcoinIndexer option" where
  "indexer_from_env connect env =
     Option.bind (env ''BITCOIN_RPC_URL'') (\<lambda>url.
     Option.bind (env ''BITCOIN_RPC_USER'') (\<lambda>user.
     Option.bind (env ''BITCOIN_RPC_PASS'') (\<lambda>pass.
     Option.bind (connect url user pass) (\<lambda>rpc.
     Some \<lparr> ix_rpc = rpc, ix_network = network_of_name (env ''BITCOIN_NETWORK''),
            ix_mempool_space_url = env ''MEMPOOL_SPACE_URL'' \<rparr>))))"

section \<open>Queries and payments\<close>

definition parse_txid :: "'b index_lib_scheme \<Rightarrow> bytes \<Rightarrow> (index_error, bytes32) result" where
  "parse_txid b text = ok_or (bl_txid b text) TxidText"

definition parse_address :: "'b index_lib_scheme \<Rightarrow> Network \<Rightarrow> bytes \<Rightarrow> (index_error, bytes) result" where
  "parse_address b network text = map_err AddressText (require_address (btc_lib.truncate b) network text)"

definition get_utxo :: "'b index_lib_scheme \<Rightarrow> 'w BitcoinIndexer \<Rightarrow> bytes \<Rightarrow> u32 \<Rightarrow> ('w, UtxoInfo option) core" where
  "get_utxo b ix txid vout =
     xbind (xlift (parse_txid b txid)) (\<lambda>txid_parsed.
     xbind (cr_tx_out (ix_rpc ix) txid_parsed vout) (\<lambda>tx_out.
     xret (map_option (\<lambda>o'. \<lparr> ui_meta = \<lparr> u_txid = txid_parsed, u_vout = vout \<rparr>, ui_value = ct_value o',
                             ui_script_pubkey = xl_hex b (ct_script o'), ui_confirmations = ct_confirmations o' \<rparr>) tx_out)))"

definition list_address_utxos :: "'b index_lib_scheme \<Rightarrow> 'w BitcoinIndexer \<Rightarrow> bytes \<Rightarrow> ('w, UtxoInfo list) core" where
  "list_address_utxos b ix address =
     xbind (xlift (parse_address b (ix_network ix) address)) (\<lambda>addr.
     xbind (cr_list_unspent (ix_rpc ix) addr) (\<lambda>unspent.
     xret (map (\<lambda>u. \<lparr> ui_meta = \<lparr> u_txid = un_txid u, u_vout = un_vout u \<rparr>, ui_value = un_amount u,
                       ui_script_pubkey = xl_script_hex b (un_script u), ui_confirmations = un_confirmations u \<rparr>) unspent)))"

definition broadcast :: "'b index_lib_scheme \<Rightarrow> 'w BitcoinIndexer \<Rightarrow> bytes \<Rightarrow> ('w, bytes) core" where
  "broadcast b ix raw_tx_hex =
     xbind (xlift (ok_or (xl_unhex b raw_tx_hex) HexText)) (\<lambda>raw.
     xbind (cr_send_raw (ix_rpc ix) raw) (\<lambda>txid. xret (xl_txid_text b txid)))"

definition block_height :: "'w BitcoinIndexer \<Rightarrow> ('w, u64) core" where
  "block_height ix = cr_block_count (ix_rpc ix)"

definition wallet_balance_sats :: "'w BitcoinIndexer \<Rightarrow> ('w, u64) core" where
  "wallet_balance_sats ix = cr_balance (ix_rpc ix)"

definition send_payment :: "'b index_lib_scheme \<Rightarrow> 'w BitcoinIndexer \<Rightarrow> bytes \<Rightarrow> u64 \<Rightarrow> ('w, bytes) core" where
  "send_payment b ix recipient sats =
     xbind (xlift (parse_address b (ix_network ix) recipient)) (\<lambda>addr.
     xbind (cr_send_to_address (ix_rpc ix) addr sats) (\<lambda>txid. xret (xl_txid_text b txid)))"

definition FEE_SATS :: u64 where
  "FEE_SATS = 500"

text \<open>The wallet's signature, refused unless it is complete, and the broadcast.\<close>

definition sign_and_send :: "'b index_lib_scheme \<Rightarrow> 'w BitcoinIndexer \<Rightarrow> bytes \<Rightarrow> ('w, bytes) core" where
  "sign_and_send b ix raw =
     xbind (cr_sign_wallet (ix_rpc ix) raw) (\<lambda>(signed, complete).
     if \<not> complete then xlift (Err NotFullySigned)
     else xbind (cr_send_raw (ix_rpc ix) signed) (\<lambda>txid. xret (xl_txid_text b txid)))"

definition transfer_utxo :: "'b index_lib_scheme \<Rightarrow> 'w BitcoinIndexer \<Rightarrow> bytes \<Rightarrow> u32 \<Rightarrow> bytes \<Rightarrow> ('w, bytes) core" where
  "transfer_utxo b ix txid vout recipient =
     xbind (xlift (parse_txid b txid)) (\<lambda>txid_parsed.
     xbind (xlift (parse_address b (ix_network ix) recipient)) (\<lambda>addr.
     xbind (cr_tx_out (ix_rpc ix) txid_parsed vout) (\<lambda>found.
     xbind (xlift (ok_or found NotFoundOrSpent)) (\<lambda>out.
     xbind (xlift (ok_or (checked_sub (ct_value out) FEE_SATS) (UtxoBelowFee (ct_value out)))) (\<lambda>send.
     xbind (cr_create_raw (ix_rpc ix) [\<lparr> op_txid = txid_parsed, op_vout = vout \<rparr>] [(xl_address_text b addr, send)])
       (sign_and_send b ix))))))"

text \<open>The committee draws randomness and the client has its state: the two halves of the pair.\<close>

definition on_core :: "('w, 'e, 'a) exec \<Rightarrow> (nat \<times> 'w, 'e, 'a) exec" where
  "on_core m = (\<lambda>(rng, w). case m w of (r, w') \<Rightarrow> (r, (rng, w')))"

definition on_rng :: "(nat, 'e, 'a) exec \<Rightarrow> (nat \<times> 'w, 'e, 'a) exec" where
  "on_rng m = (\<lambda>(rng, w). case m rng of (r, rng') \<Rightarrow> (r, (rng', w)))"

definition transfer_utxo_committee ::
  "'b index_lib_scheme \<Rightarrow> 'w BitcoinIndexer \<Rightarrow> 'x frost \<Rightarrow> 'x TaprootCommittee \<Rightarrow> bytes \<Rightarrow> u32 \<Rightarrow> bytes
     \<Rightarrow> (nat \<times> 'w, index_error, bytes) exec" where
  "transfer_utxo_committee b ix tr committee txid vout recipient =
     xbind (on_core (get_utxo b ix txid vout)) (\<lambda>found.
     xbind (xlift (ok_or found NotFoundOrSpent)) (\<lambda>info.
     xbind (on_rng (xmap_err CommitteeFailed
       (settle_with_committee (btc_lib.truncate b) tr committee txid vout (ui_value info) recipient FEE_SATS (ix_network ix))))
       (\<lambda>signed_hex. on_core (broadcast b ix signed_hex))))"

record InscriptionInfo =
  is_id :: bytes
  is_number :: u64
  is_content_type :: "bytes option"
  is_address :: "bytes option"
  is_sat :: "u64 option"
  is_output :: "bytes option"
  is_offset :: "u64 option"

text \<open>\<open>fetch\<close> is the HTTP request with the reading of its JSON reply.\<close>

definition get_inscription :: "'w BitcoinIndexer \<Rightarrow> (bytes \<Rightarrow> InscriptionInfo option) \<Rightarrow> bytes \<Rightarrow> InscriptionInfo option" where
  "get_inscription ix fetch inscription_id =
     Option.bind (ix_mempool_space_url ix) (\<lambda>base.
     fetch (base @ ascii ''/api/v1/inscription/'' @ inscription_id))"

section \<open>Anchors\<close>

definition ANCHOR_MAGIC :: bytes where
  "ANCHOR_MAGIC = ascii ''HMS1''"

definition anchor_payload :: "u64 \<Rightarrow> bytes32 \<Rightarrow> bytes" where
  "anchor_payload slot root = ANCHOR_MAGIC @ to_le_bytes slot @ be_bytes root"

definition parse_anchor_payload :: "bytes \<Rightarrow> (u64 \<times> bytes32) option" where
  "parse_anchor_payload payload =
     (if length payload \<noteq> length ANCHOR_MAGIC + 8 + 32 \<or> take 4 payload \<noteq> ANCHOR_MAGIC then None
      else Some (from_le_bytes (take 8 (drop 4 payload)), bytes_to_word (take 32 (drop 12 payload))))"

definition op_return_script :: "'b index_lib_scheme \<Rightarrow> bytes \<Rightarrow> (index_error, bytes) result" where
  "op_return_script b payload = ok_or (xl_op_return b payload) PayloadScript"

definition anchor_state_root :: "'b index_lib_scheme \<Rightarrow> 'w BitcoinIndexer \<Rightarrow> u64 \<Rightarrow> bytes32 \<Rightarrow> ('w, bytes) core" where
  "anchor_state_root b ix slot root =
     xbind (xlift (op_return_script b (anchor_payload slot root))) (\<lambda>script.
     let tx = \<lparr> bt_version = 2, bt_lock_time = 0, bt_input = [],
                bt_output = [\<lparr> out_value = 0, out_script_pubkey = script \<rparr>] \<rparr>
     in xbind (cr_fund_raw (ix_rpc ix) (bl_serialize b tx)) (sign_and_send b ix))"

section \<open>The poll\<close>

datatype MempoolEvent =
    Seen bytes
  | Confirmed bytes u64
  | Evicted bytes

text \<open>A \<open>HashSet\<close> is a list of its elements; \<open>order\<close> is the order in which one is enumerated.\<close>

record Sync =
  sy_last_height :: u64
  sy_seen :: "bytes list"
  sy_events :: "MempoolEvent list"

definition on_sync :: "('w, 'e, 'a) exec \<Rightarrow> (Sync \<times> 'w, 'e, 'a) exec" where
  "on_sync m = (\<lambda>(sy, w). case m w of (r, w') \<Rightarrow> (r, (sy, w')))"

definition departure :: "bool \<Rightarrow> u64 \<Rightarrow> bytes \<Rightarrow> MempoolEvent" where
  "departure advanced height txid = (if advanced then Confirmed txid height else Evicted txid)"

definition difference :: "bytes list \<Rightarrow> bytes list \<Rightarrow> bytes list" where
  "difference xs ys = filter (\<lambda>x. x \<notin> set ys) xs"

definition note_snapshot :: "(bytes list \<Rightarrow> bytes list) \<Rightarrow> bool \<Rightarrow> u64 \<Rightarrow> bytes list \<Rightarrow> Sync \<Rightarrow> Sync" where
  "note_snapshot order advanced height current sy =
     sy\<lparr>sy_events := sy_events sy @ map Seen (order (difference current (sy_seen sy)))
           @ map (departure advanced height) (order (difference (sy_seen sy) current)),
        sy_seen := current\<rparr>"

definition poll_once ::
  "'b index_lib_scheme \<Rightarrow> (bytes list \<Rightarrow> bytes list) \<Rightarrow> 'w BitcoinIndexer \<Rightarrow> (Sync \<times> 'w, index_error, unit) exec" where
  "poll_once b order ix =
     xbind (on_sync (cr_block_count (ix_rpc ix))) (\<lambda>height (sy, w).
     let advanced = sy_last_height sy < height;
         sy = (if advanced then sy\<lparr>sy_last_height := height\<rparr> else sy)
     in xbind (on_sync (cr_raw_mempool (ix_rpc ix))) (\<lambda>ids (sy, w).
          (Ok (), (note_snapshot order advanced height (remdups (map (xl_txid_text b) ids)) sy, w))) (sy, w))"

definition sync_start :: Sync where
  "sync_start = \<lparr> sy_last_height = 0, sy_seen = [], sy_events = [] \<rparr>"

text \<open>\<open>run_sync_blocking\<close> after \<open>n\<close> turns of its loop, which ends with a panic of the client only.\<close>

fun run_sync :: "'b index_lib_scheme \<Rightarrow> (bytes list \<Rightarrow> bytes list) \<Rightarrow> 'w BitcoinIndexer \<Rightarrow> nat \<Rightarrow> Sync \<times> 'w \<Rightarrow> Sync \<times> 'w" where
  "run_sync b order ix 0 st = st"
| "run_sync b order ix (Suc n) st =
     (case poll_once b order ix st of
        (Panic, st') \<Rightarrow> st'
      | (_, st') \<Rightarrow> run_sync b order ix n st')"

section \<open>Dispatch of a settlement\<close>

text \<open>The payment of one settlement by the configured indexer, in \<open>settle_lending\<close> of \<open>execution.rs\<close>.\<close>

definition pay_settlement ::
  "'b index_lib_scheme \<Rightarrow> 'w BitcoinIndexer \<Rightarrow> 'x frost \<Rightarrow> 'x Custody option \<Rightarrow> Settlement
     \<Rightarrow> (nat \<times> 'w, index_error, bytes) exec" where
  "pay_settlement b ix tr custody s =
     (if se_kind s = Repayment then on_core (send_payment b ix (se_recipient s) (se_amount s))
      else
        let txid_hex = xl_hex b (be_bytes (u_txid (se_utxo s)))
        in case custody of
             Some c \<Rightarrow> transfer_utxo_committee b ix tr (cu_committee c) txid_hex (u_vout (se_utxo s)) (se_recipient s)
           | None \<Rightarrow> on_core (transfer_utxo b ix txid_hex (u_vout (se_utxo s)) (se_recipient s)))"

text \<open>The id under which the payment is indexed: the text that was returned, read as hexadecimal.\<close>

definition paid_id :: "'b index_lib_scheme \<Rightarrow> (index_error, bytes) result \<Rightarrow> bytes32 option" where
  "paid_id b r =
     (case r of
        Ok txid \<Rightarrow> Option.bind (xl_unhex b txid) (\<lambda>raw. if length raw = 32 then Some (bytes_to_word raw) else None)
      | _ \<Rightarrow> None)"

section \<open>Anchors read back\<close>

lemma length_anchor_magic [simp]: "length ANCHOR_MAGIC = 4"
  by (simp add: ANCHOR_MAGIC_def ascii_def)

lemma anchor_payload_parsed:
  assumes "parse_anchor_payload payload = Some (slot, root)"
  shows "payload = anchor_payload slot root"
proof -
  have len: "length payload = 44" and magic: "take 4 payload = ANCHOR_MAGIC"
    and parts: "slot = from_le_bytes (take 8 (drop 4 payload))" "root = bytes_to_word (take 32 (drop 12 payload))"
    using assms by (auto simp: parse_anchor_payload_def split: if_splits)
  have "to_le_bytes slot = take 8 (drop 4 payload)" "be_bytes root = drop 12 payload"
    using len parts by (simp_all add: to_le_bytes_from be_bytes_bytes_to_word)
  then have "anchor_payload slot root = take 4 payload @ take 8 (drop 4 payload) @ drop 8 (drop 4 payload)"
    using magic by (simp add: anchor_payload_def)
  then show ?thesis
    by (simp only: append_take_drop_id)
qed

interpretation anc: exact_form "\<lambda>(slot, root). anchor_payload slot root" parse_anchor_payload
proof unfold_locales
  show "parse_anchor_payload (case x of (slot, root) \<Rightarrow> anchor_payload slot root) = Some x" for x
    by (cases x) (simp add: parse_anchor_payload_def anchor_payload_def)
  show "b = (case x of (slot, root) \<Rightarrow> anchor_payload slot root)" if "parse_anchor_payload b = Some x" for b x
    using that by (cases x) (simp add: anchor_payload_parsed)
qed

text \<open>
  C34. An anchor says exactly what it commits to: a payload parses to a slot and a root if and only if it is
  the payload built for them. So every anchor reads back, every foreign or damaged payload is refused,
  and no payload of another slot or root is mistaken for it.
\<close>

theorem anchor_payload_roundtrip:
  "parse_anchor_payload payload = Some (slot, root) \<longleftrightarrow> payload = anchor_payload slot root"
  using anc.parse_iff [of payload "(slot, root)"] by simp

lemma anchor_payload_inj: "anchor_payload slot root = anchor_payload slot' root' \<longleftrightarrow> slot = slot' \<and> root = root'"
  using anc.print_inj [of "(slot, root)" "(slot', root')"] by simp

text \<open>The transaction that carries an anchor has one output of no value with the payload as its data.\<close>

lemma anchor_transaction:
  assumes "anchor_state_root b ix slot root w = (Ok txid, w')"
  shows "\<exists>script funded w1. xl_op_return b (anchor_payload slot root) = Some script
    \<and> cr_fund_raw (ix_rpc ix) (bl_serialize b \<lparr> bt_version = 2, bt_lock_time = 0, bt_input = [],
          bt_output = [\<lparr> out_value = 0, out_script_pubkey = script \<rparr>] \<rparr>) w = (Ok funded, w1)
    \<and> sign_and_send b ix funded w1 = (Ok txid, w')"
  using assms by (auto simp: anchor_state_root_def op_return_script_def monad_iffs)

section \<open>Transfers\<close>

text \<open>A transfer from the wallet spends the one output and pays its value less the fee, to the recipient only.\<close>

lemma transfer_utxo_pays:
  assumes "transfer_utxo b ix txid vout recipient w = (Ok sent, w')"
  shows "\<exists>t addr out send raw signed w1 w2. bl_txid b txid = Some t
    \<and> parse_address b (ix_network ix) recipient = Ok addr \<and> cr_tx_out (ix_rpc ix) t vout w = (Ok (Some out), w1)
    \<and> unat send + 500 = unat (ct_value out)
    \<and> cr_create_raw (ix_rpc ix) [\<lparr> op_txid = t, op_vout = vout \<rparr>] [(xl_address_text b addr, send)] w1 = (Ok raw, w2)
    \<and> (\<exists>w3 id. cr_sign_wallet (ix_rpc ix) raw w2 = (Ok (signed, True), w3)
        \<and> cr_send_raw (ix_rpc ix) signed w3 = (Ok id, w') \<and> sent = xl_txid_text b id)"
proof -
  obtain t addr out send raw w1 w2 where parts: "bl_txid b txid = Some t"
    "parse_address b (ix_network ix) recipient = Ok addr" "cr_tx_out (ix_rpc ix) t vout w = (Ok (Some out), w1)"
    "checked_sub (ct_value out) FEE_SATS = Some send"
    "cr_create_raw (ix_rpc ix) [\<lparr> op_txid = t, op_vout = vout \<rparr>] [(xl_address_text b addr, send)] w1 = (Ok raw, w2)"
    "sign_and_send b ix raw w2 = (Ok sent, w')"
    using assms by (auto simp: transfer_utxo_def parse_txid_def monad_iffs)
  moreover have "unat send + 500 = unat (ct_value out)"
    using parts(4) by (simp add: arith_iffs FEE_SATS_def)
  moreover obtain signed w3 id where "cr_sign_wallet (ix_rpc ix) raw w2 = (Ok (signed, True), w3)"
    "cr_send_raw (ix_rpc ix) signed w3 = (Ok id, w')" "sent = xl_txid_text b id"
    using parts(6) by (auto simp: sign_and_send_def monad_iffs split: if_splits)
  ultimately show ?thesis
    by blast
qed

text \<open>
  The id of an output is stored in the order of the bytes of the library; its text is read in the
  opposite order. A settlement prints the stored bytes and reads the text, so it asks for the output
  of the reversed id: an output that a query has just found is reported as spent.
\<close>

definition reversed_id :: "bytes32 \<Rightarrow> bytes32" where
  "reversed_id t = bytes_to_word (rev (be_bytes t))"

definition text_is_reversed :: "'b index_lib_scheme \<Rightarrow> bool" where
  "text_is_reversed b \<longleftrightarrow> (\<forall>t. bl_txid b (xl_hex b (be_bytes t)) = Some (reversed_id t))"

theorem settlement_asks_reversed_id:
  assumes "text_is_reversed b" "get_utxo b ix text vout w = (Ok (Some info), w1)"
    and "se_kind s \<noteq> Repayment" "se_utxo s = ui_meta info" "parse_address b (ix_network ix) (se_recipient s) = Ok addr"
    and "cr_tx_out (ix_rpc ix) (reversed_id (u_txid (ui_meta info))) vout w1 = (Ok None, w2)"
  shows "pay_settlement b ix tr custody s (rng, w1) = (Err NotFoundOrSpent, (rng, w2))"
proof -
  obtain t where "ui_meta info = \<lparr> u_txid = t, u_vout = vout \<rparr>"
    using assms(2) by (auto simp: get_utxo_def monad_iffs)
  moreover have "bl_txid b (xl_hex b (be_bytes t)) = Some (reversed_id t)" for t
    using assms(1) by (simp add: text_is_reversed_def)
  ultimately show ?thesis
    using assms(3-6)
    by (cases custody) (simp_all add: pay_settlement_def transfer_utxo_def transfer_utxo_committee_def get_utxo_def
        parse_txid_def on_core_def xbind_def xlift_def xret_def Let_def)
qed

text \<open>The executor's step for one settlement is the step with the indexer's answer as the payment.\<close>

lemma settle_one_paid:
  assumes "pay_settlement b ix tr custody s st = (r, st')" "\<not> (se_kind s = Repayment \<and> is_invoice (se_recipient s))"
  shows "settle_one (e\<lparr>ne_pay := (\<lambda>_. paid_id b r)\<rparr>) himsha_txid s db =
    (case r of
       Ok txid \<Rightarrow> (case Option.bind (xl_unhex b txid) (\<lambda>raw. if length raw = 32 then Some (bytes_to_word raw) else None) of
           Some btc \<Rightarrow> index_btc_settlement btc himsha_txid db | None \<Rightarrow> db)
     | _ \<Rightarrow> db)"
  using assms by (auto simp: settle_one_def paid_id_def split: result.splits option.splits)

section \<open>Events\<close>

text \<open>What a subscriber knows of the mempool, and that every event it gets tells it something new.\<close>

fun watch :: "MempoolEvent \<Rightarrow> bytes set \<Rightarrow> bytes set" where
  "watch (Seen t) known = insert t known"
| "watch (Confirmed t h) known = known - {t}"
| "watch (Evicted t) known = known - {t}"

fun news :: "bytes set \<Rightarrow> MempoolEvent list \<Rightarrow> bool" where
  "news known [] = True"
| "news known (e # es) =
     ((case e of Seen t \<Rightarrow> t \<notin> known | Confirmed t h \<Rightarrow> t \<in> known | Evicted t \<Rightarrow> t \<in> known) \<and> news (watch e known) es)"

definition enumerates :: "(bytes list \<Rightarrow> bytes list) \<Rightarrow> bool" where
  "enumerates order \<longleftrightarrow> (\<forall>xs. distinct xs \<longrightarrow> distinct (order xs) \<and> set (order xs) = set xs)"

definition tracks :: "Sync \<Rightarrow> bool" where
  "tracks sy \<longleftrightarrow> distinct (sy_seen sy) \<and> news {} (sy_events sy) \<and> fold watch (sy_events sy) {} = set (sy_seen sy)
     \<and> (\<forall>t h. Confirmed t h \<in> set (sy_events sy) \<longrightarrow> h \<le> sy_last_height sy)"

lemma news_append: "news known (xs @ ys) \<longleftrightarrow> news known xs \<and> news (fold watch xs known) ys"
  by (induction xs arbitrary: known) auto

lemma watch_Seen: "fold watch (map Seen xs) known = known \<union> set xs"
  by (induction xs arbitrary: known) auto

lemma watch_departure: "fold watch (map (departure adv h) xs) known = known - set xs"
  by (induction xs arbitrary: known) (auto simp: departure_def)

lemma news_Seen: "distinct xs \<Longrightarrow> set xs \<inter> known = {} \<Longrightarrow> news known (map Seen xs)"
  by (induction xs arbitrary: known) auto

lemma news_departure: "distinct xs \<Longrightarrow> set xs \<subseteq> known \<Longrightarrow> news known (map (departure adv h) xs)"
  by (induction xs arbitrary: known) (auto simp: departure_def subset_Diff_insert)

lemma note_snapshot_tracks:
  assumes order: "enumerates order" and sy: "tracks sy" and current: "distinct current" "h \<le> sy_last_height sy"
  shows "tracks (note_snapshot order adv h current sy)"
proof -
  let ?new = "order (difference current (sy_seen sy))" and ?gone = "order (difference (sy_seen sy) current)"
  have new: "distinct ?new" "set ?new = set current - set (sy_seen sy)"
    and gone: "distinct ?gone" "set ?gone = set (sy_seen sy) - set current"
    using order sy current by (auto simp: enumerates_def difference_def tracks_def)
  have known: "fold watch (map Seen ?new) (set (sy_seen sy)) = set (sy_seen sy) \<union> set current"
    unfolding watch_Seen new by blast
  have "news (set (sy_seen sy)) (map Seen ?new)"
    using new by (intro news_Seen) auto
  moreover have "news (set (sy_seen sy) \<union> set current) (map (departure adv h) ?gone)"
    using gone by (intro news_departure) auto
  moreover have "fold watch (map (departure adv h) ?gone) (set (sy_seen sy) \<union> set current) = set current"
    unfolding watch_departure gone by blast
  ultimately show ?thesis
    using sy current known
    by (auto simp: tracks_def note_snapshot_def news_append departure_def split: if_splits)
qed

lemma poll_once_tracks:
  assumes "enumerates order" "tracks sy" "poll_once b order ix (sy, w) = (r, (sy', w'))"
  shows "tracks sy'"
proof -
  obtain res w1 where count: "cr_block_count (ix_rpc ix) w = (res, w1)"
    by fastforce
  show ?thesis
  proof (cases res)
    case (Ok height)
    define sy1 where "sy1 = (if sy_last_height sy < height then sy\<lparr>sy_last_height := height\<rparr> else sy)"
    have "h \<le> height" if "h \<le> sy_last_height sy" "sy_last_height sy < height" for h
      using that by (meson le_less_trans less_imp_le)
    then have sy1: "tracks sy1" "height \<le> sy_last_height sy1"
      using assms(2) by (auto simp: sy1_def tracks_def)
    have "poll_once b order ix (sy, w) = xbind (on_sync (cr_raw_mempool (ix_rpc ix))) (\<lambda>ids (s, w).
        (Ok (), (note_snapshot order (sy_last_height sy < height) height (remdups (map (xl_txid_text b) ids)) s, w))) (sy1, w1)"
      using count Ok by (simp add: poll_once_def on_sync_def xbind_def sy1_def Let_def)
    then show ?thesis
      using assms(1,3) sy1 note_snapshot_tracks [OF assms(1) sy1(1)]
      by (auto simp: on_sync_def xbind_def split: prod.splits result.splits)
  qed (use assms count in \<open>auto simp: poll_once_def on_sync_def xbind_def\<close>)
qed


text \<open>
  A poll that learns of a new block and then fails to read the mempool keeps the height and forgets
  that the tip moved: the next poll reports the transactions of that block as evicted.
\<close>

lemma confirmation_lost:
  assumes "enumerates order" "distinct (sy_seen sy)" "sy_last_height sy < h"
    and first: "cr_block_count (ix_rpc ix) w = (Ok h, w1)" "cr_raw_mempool (ix_rpc ix) w1 = (Err err, w2)"
    and second: "cr_block_count (ix_rpc ix) w2 = (Ok h, w3)" "cr_raw_mempool (ix_rpc ix) w3 = (Ok ids, w4)"
    and gone: "t \<in> set (sy_seen sy)" "t \<notin> xl_txid_text b ` set ids"
  shows "\<exists>sy'. run_sync b order ix 2 (sy, w) = (sy', w4) \<and> Evicted t \<in> set (sy_events sy')"
proof -
  let ?current = "remdups (map (xl_txid_text b) ids)"
  have "poll_once b order ix (sy, w) = (Err err, (sy\<lparr>sy_last_height := h\<rparr>, w2))"
    using first assms(3) by (simp add: poll_once_def on_sync_def xbind_def)
  moreover have "poll_once b order ix (sy\<lparr>sy_last_height := h\<rparr>, w2) =
      (Ok (), (note_snapshot order False h ?current (sy\<lparr>sy_last_height := h\<rparr>), w4))"
    using second by (simp add: poll_once_def on_sync_def xbind_def)
  moreover have "t \<in> set (order (difference (sy_seen sy) ?current))"
    using assms(1,2) gone by (auto simp: enumerates_def difference_def)
  ultimately show ?thesis
    by (auto simp: note_snapshot_def departure_def numeral_2_eq_2)
qed

section \<open>A client with recorded answers\<close>

text \<open>One answer to each poll: the height and, unless the call fails, the ids in the mempool.\<close>

type_synonym recorded = "(u64 \<times> bytes32 list option) list"

definition recorded_core :: "recorded core_rpc" where
  "recorded_core =
     \<lparr> cr_tx_out = (\<lambda>_ _. xret None), cr_list_unspent = (\<lambda>_. xret []), cr_send_raw = xlift \<circ> (\<lambda>_. Err (CoreFailed 0)),
       cr_block_count = (\<lambda>w. case w of [] \<Rightarrow> (Err (CoreFailed 0), []) | (h, _) # _ \<Rightarrow> (Ok h, w)),
       cr_balance = xret 0, cr_send_to_address = (\<lambda>_ _. xlift (Err (CoreFailed 0))),
       cr_create_raw = (\<lambda>_ _. xlift (Err (CoreFailed 0))), cr_sign_wallet = (\<lambda>_. xlift (Err (CoreFailed 0))),
       cr_fund_raw = (\<lambda>_. xlift (Err (CoreFailed 0))),
       cr_raw_mempool = (\<lambda>w. case w of (_, Some ids) # r \<Rightarrow> (Ok ids, r) | _ \<Rightarrow> (Err (CoreFailed 1), tl w)) \<rparr>"

definition recorded_indexer :: "recorded BitcoinIndexer" where
  "recorded_indexer = \<lparr> ix_rpc = recorded_core, ix_network = Regtest, ix_mempool_space_url = None \<rparr>"

definition sample_index :: index_lib where
  "sample_index = btc_lib.extend sample_btc
     \<lparr> xl_txid_text = (\<lambda>t. [ucast t]), xl_address_text = (\<lambda>a. a), xl_hex = (\<lambda>x. x), xl_unhex = Some,
       xl_script_hex = (\<lambda>x. x), xl_op_return = Some \<rparr>"


end
