(* ===== verification/Json.thy ===== *)
theory Json
  imports Text
begin

text \<open>
  JSON values with the accessors of \<open>serde_json::Value\<close> that the program uses, and the two JSON-RPC
  clients of the repository: the follower's (\<open>src/himsha-node/src/follower.rs\<close>) and the command
  line's (\<open>src/himsha-cli/src/main.rs\<close>). A transport is a function of the address and the request
  that reads and changes a state of its own and may fail before a JSON reply is there.
\<close>

section \<open>Values\<close>

datatype json =
    JNull
  | JBool bool
  | JNumber int
  | JFloat nat
  | JString bytes
  | JArray "json list"
  | JObject "(bytes \<times> json) list"

fun json_get :: "string \<Rightarrow> json \<Rightarrow> json option" where
  "json_get key (JObject fs) = map_of fs (ascii key)"
| "json_get key _ = None"

fun as_str :: "json \<Rightarrow> bytes option" where
  "as_str (JString s) = Some s"
| "as_str _ = None"

fun as_u64_opt :: "json \<Rightarrow> u64 option" where
  "as_u64_opt (JNumber n) = (if 0 \<le> n \<and> n < 2 ^ 64 then Some (word_of_int n) else None)"
| "as_u64_opt _ = None"

definition jobject :: "(string \<times> json) list \<Rightarrow> json" where
  "jobject fs = JObject (map (\<lambda>(k, v). (ascii k, v)) fs)"

definition json_u64 :: "u64 \<Rightarrow> json" where
  "json_u64 w = JNumber (uint w)"

lemma ascii_eq_iff [simp]: "ascii s = ascii t \<longleftrightarrow> s = t"
proof -
  have "inj (\<lambda>c. word_of_nat (of_char c) :: u8)"
    by (rule injI) (simp add: word_of_nat_eq_iff take_bit_nat_eq_self)
  then show ?thesis
    unfolding ascii_def by (rule inj_map_eq_map)
qed

lemma json_get_jobject [simp]: "json_get k (jobject fs) = map_of fs k"
  by (induction fs) (auto simp: jobject_def)

lemma as_u64_opt_json [simp]: "as_u64_opt (json_u64 w) = Some w"
  using uint_lt2p [of w] by (simp add: json_u64_def)

section \<open>Transport and requests\<close>

datatype client_error =
    Transport nat
  | RpcError json
  | NullResult
  | UnexpectedType

type_synonym ('w, 'a) client = "('w, client_error, 'a) exec"
type_synonym 'w transport = "bytes \<Rightarrow> json \<Rightarrow> ('w, json) client"

definition rpc_request :: "bytes \<Rightarrow> json \<Rightarrow> json" where
  "rpc_request method params =
     jobject [(''jsonrpc'', JString (ascii ''2.0'')), (''id'', JNumber 1), (''method'', JString method), (''params'', params)]"

section \<open>The follower's client\<close>

definition rpc_to :: "'w transport \<Rightarrow> bytes \<Rightarrow> bytes \<Rightarrow> json \<Rightarrow> ('w, json) client" where
  "rpc_to http url method params =
     xbind (http url (rpc_request method params)) (\<lambda>resp.
     case json_get ''error'' resp of
       Some err \<Rightarrow> xlift (Err (RpcError err))
     | None \<Rightarrow> xret (case json_get ''result'' resp of Some v \<Rightarrow> v | None \<Rightarrow> JNull))"

definition rpc_u64 :: "'w transport \<Rightarrow> bytes \<Rightarrow> bytes \<Rightarrow> ('w, u64) client" where
  "rpc_u64 http primary_url method =
     xbind (rpc_to http primary_url method (JArray [])) (\<lambda>v.
     xlift (ok_or (as_u64_opt v) UnexpectedType))"

text \<open>\<open>read\<close> is the derived reading of a block from JSON.\<close>

definition fetch_block :: "'w transport \<Rightarrow> (json \<Rightarrow> 'b option) \<Rightarrow> bytes \<Rightarrow> u64 \<Rightarrow> ('w, 'b option) client" where
  "fetch_block http read primary_url slot =
     xbind (rpc_to http primary_url (ascii ''himsha_getBlock'') (JArray [json_u64 slot])) (\<lambda>v.
     if v = JNull then xret None
     else xlift (rbind (ok_or (read v) UnexpectedType) (\<lambda>block. Ok (Some block))))"

section \<open>The command line's client\<close>

text \<open>
  \<open>RpcResponse<T>\<close>: the fields are of type \<open>Option\<close>, so a missing one and a \<open>null\<close> one are both
  \<open>None\<close>; any other result has to be of the type the caller asks for.
\<close>

definition opt_field :: "string \<Rightarrow> json \<Rightarrow> json option" where
  "opt_field key v = (if json_get key v = Some JNull then None else json_get key v)"

fun is_object :: "json \<Rightarrow> bool" where
  "is_object (JObject fs) = True"
| "is_object _ = False"

definition read_response :: "(json \<Rightarrow> 'a option) \<Rightarrow> json \<Rightarrow> (client_error, 'a option \<times> json option) result" where
  "read_response read resp =
     (if \<not> is_object resp then Err UnexpectedType
      else case opt_field ''result'' resp of
          None \<Rightarrow> Ok (None, opt_field ''error'' resp)
        | Some v \<Rightarrow> rbind (ok_or (read v) UnexpectedType) (\<lambda>a. Ok (Some a, opt_field ''error'' resp)))"

definition rpc_call :: "'w transport \<Rightarrow> (json \<Rightarrow> 'a option) \<Rightarrow> bytes \<Rightarrow> bytes \<Rightarrow> json \<Rightarrow> ('w, 'a) client" where
  "rpc_call http read url method params =
     xbind (http url (rpc_request method params)) (\<lambda>resp.
     xbind (xlift (read_response read resp)) (\<lambda>(result, error).
     case error of
       Some err \<Rightarrow> xlift (Err (RpcError err))
     | None \<Rightarrow> xlift (ok_or result NullResult)))"

text \<open>The reading of \<open>Option<Value>\<close>, \<open>Vec<Value>\<close>, \<open>Vec<String>\<close>, \<open>String\<close>, \<open>bool\<close> and \<open>u64\<close>.\<close>

definition read_option :: "json \<Rightarrow> json option option" where
  "read_option v = Some (if v = JNull then None else Some v)"

fun read_array :: "json \<Rightarrow> json list option" where
  "read_array (JArray vs) = Some vs"
| "read_array _ = None"

fun read_bool :: "json \<Rightarrow> bool option" where
  "read_bool (JBool b) = Some b"
| "read_bool _ = None"

fun all_some :: "'a option list \<Rightarrow> 'a list option" where
  "all_some [] = Some []"
| "all_some (x # xs) = Option.bind x (\<lambda>a. map_option ((#) a) (all_some xs))"

definition read_strings :: "json \<Rightarrow> bytes list option" where
  "read_strings v = Option.bind (read_array v) (\<lambda>vs. all_some (map as_str vs))"

section \<open>Answers\<close>

text \<open>What the node answers: a result or an error, with the request's id.\<close>

definition answer_ok :: "json \<Rightarrow> json" where
  "answer_ok v = jobject [(''jsonrpc'', JString (ascii ''2.0'')), (''id'', JNumber 1), (''result'', v)]"

definition answer_err :: "json \<Rightarrow> json" where
  "answer_err err = jobject [(''jsonrpc'', JString (ascii ''2.0'')), (''id'', JNumber 1), (''error'', err)]"

lemma rpc_to_answers:
  "http url (rpc_request method params) w = (Ok (answer_ok v), w') \<Longrightarrow> rpc_to http url method params w = (Ok v, w')"
  "http url (rpc_request method params) w = (Ok (answer_err err), w') \<Longrightarrow> rpc_to http url method params w = (Err (RpcError err), w')"
  by (simp_all add: rpc_to_def answer_ok_def answer_err_def)

lemma is_object_jobject [simp]: "is_object (jobject fs)"
  by (simp add: jobject_def)

lemma rpc_call_answers:
  assumes "http url (rpc_request method params) w = (Ok (answer_ok v), w')"
  shows "rpc_call http read url method params w =
    (if v = JNull then Err NullResult else ok_or (read v) UnexpectedType, w')"
  using assms
  by (cases "v = JNull"; cases "read v")
    (simp_all add: rpc_call_def answer_ok_def read_response_def opt_field_def xbind_def xlift_def)

text \<open>
  An optional result is never \<open>None\<close>: the \<open>null\<close> that says so is taken for a missing result and
  reported as an error before the caller sees it.
\<close>

lemma rpc_call_option_never_None:
  assumes "rpc_call http read_option url method params w = (Ok v, w')"
  shows "v \<noteq> None"
proof -
  obtain resp result w1 where "read_response read_option resp = Ok (Some v, None)"
    using assms unfolding rpc_call_def monad_iffs by (auto simp: monad_iffs split: option.splits)
  then show ?thesis
    by (cases "opt_field ''result'' resp")
      (auto simp: read_response_def read_option_def opt_field_def [of "''result''"] split: if_splits)
qed

lemma fetch_block_answers:
  assumes "http url (rpc_request (ascii ''himsha_getBlock'') (JArray [json_u64 slot])) w = (Ok (answer_ok v), w')"
  shows "fetch_block http read url slot w =
    (if v = JNull then Ok None else case read v of Some b \<Rightarrow> Ok (Some b) | None \<Rightarrow> Err UnexpectedType, w')"
  using rpc_to_answers(1) [of http url _ _ w, OF assms] by (cases "read v") (auto simp: fetch_block_def xbind_def xret_def xlift_def)

end
