(* ===== verification/Lightning.thy ===== *)
theory Lightning
  imports Json
begin

text \<open>
  The LND client, \<open>src/himsha-node/src/lightning.rs\<close>: the addresses and bodies of its requests and
  how it reads the replies. The HTTP exchange is the parameter \<open>exchange\<close>, a function of the request.
\<close>

section \<open>The client\<close>

datatype lnd_error =
    LndTransport nat
  | NoPaymentRequest json
  | PayError bytes

datatype lnd_request =
    Post bytes bytes json
  | Get bytes bytes

type_synonym ('w, 'a) lnd = "('w, lnd_error, 'a) exec"
type_synonym 'w exchange = "lnd_request \<Rightarrow> ('w, json) lnd"

record LightningClient =
  lc_base :: bytes
  lc_macaroon_hex :: bytes

text \<open>The environment variables are \<open>env\<close>; \<open>built\<close> is whether the HTTP client could be built.\<close>

definition lightning_from_env :: "bool \<Rightarrow> (string \<Rightarrow> bytes option) \<Rightarrow> LightningClient option" where
  "lightning_from_env built env =
     Option.bind (env ''LND_REST_URL'') (\<lambda>base.
     Option.bind (env ''LND_MACAROON_HEX'') (\<lambda>macaroon_hex.
     if built then Some \<lparr> lc_base = base, lc_macaroon_hex = macaroon_hex \<rparr> else None))"

definition trim_end_matches :: "u8 \<Rightarrow> bytes \<Rightarrow> bytes" where
  "trim_end_matches c s = rev (dropWhile ((=) c) (rev s))"

definition lightning_url :: "LightningClient \<Rightarrow> string \<Rightarrow> bytes" where
  "lightning_url ln path = trim_end_matches 47 (lc_base ln) @ ascii path"

definition lnd_post :: "'w exchange \<Rightarrow> LightningClient \<Rightarrow> string \<Rightarrow> json \<Rightarrow> ('w, json) lnd" where
  "lnd_post exchange ln path body = exchange (Post (lightning_url ln path) (lc_macaroon_hex ln) body)"

definition lnd_get :: "'w exchange \<Rightarrow> LightningClient \<Rightarrow> string \<Rightarrow> ('w, json) lnd" where
  "lnd_get exchange ln path = exchange (Get (lightning_url ln path) (lc_macaroon_hex ln))"

definition invoice_body :: "u64 \<Rightarrow> bytes \<Rightarrow> json" where
  "invoice_body amount_sat memo =
     jobject [(''value'', JString (decimal (unat amount_sat))), (''memo'', JString memo)]"

definition create_invoice :: "'w exchange \<Rightarrow> LightningClient \<Rightarrow> u64 \<Rightarrow> bytes \<Rightarrow> ('w, bytes) lnd" where
  "create_invoice exchange ln amount_sat memo =
     xbind (lnd_post exchange ln ''/v1/invoices'' (invoice_body amount_sat memo)) (\<lambda>v.
     xlift (ok_or (Option.bind (json_get ''payment_request'' v) as_str) (NoPaymentRequest v)))"

definition pay_invoice :: "'w exchange \<Rightarrow> LightningClient \<Rightarrow> bytes \<Rightarrow> ('w, bytes) lnd" where
  "pay_invoice exchange ln bolt11 =
     xbind (lnd_post exchange ln ''/v1/channels/transactions'' (jobject [(''payment_request'', JString bolt11)])) (\<lambda>v.
     xlift
       (case Option.bind (json_get ''payment_error'' v) as_str of
          Some (c # cs) \<Rightarrow> Err (PayError (c # cs))
        | _ \<Rightarrow> Ok (case Option.bind (json_get ''payment_hash'' v) as_str of Some h \<Rightarrow> h | None \<Rightarrow> [])))"

definition channel_balance_sat :: "'w exchange \<Rightarrow> LightningClient \<Rightarrow> ('w, u64) lnd" where
  "channel_balance_sat exchange ln =
     xbind (lnd_get exchange ln ''/v1/balance/channels'') (\<lambda>v.
     xret (case Option.bind (Option.bind (json_get ''balance'' v) as_str) (parse_uint (2 ^ 64)) of
             Some n \<Rightarrow> word_of_nat n | None \<Rightarrow> 0))"

section \<open>Addresses and amounts\<close>

lemma trim_end_matches_append [simp]: "trim_end_matches c (s @ replicate n c) = trim_end_matches c s"
proof -
  have "dropWhile ((=) c) (replicate n c @ r) = dropWhile ((=) c) r" for r
    by (induction n) simp_all
  then show ?thesis
    by (simp add: trim_end_matches_def)
qed

text \<open>A base with slashes at its end gives the same addresses, and the amount asked for can be read back.\<close>

lemma lightning_url_slashes: "lightning_url (ln\<lparr>lc_base := base @ replicate n 47\<rparr>) path = lightning_url (ln\<lparr>lc_base := base\<rparr>) path"
  by (simp add: lightning_url_def)

lemma invoice_body_amount:
  "Option.bind (Option.bind (json_get ''value'' (invoice_body amount_sat memo)) as_str) (parse_uint (2 ^ 64)) = Some (unat amount_sat)"
  using parse_uint_decimal [OF unat_bound [of amount_sat]] by (simp add: invoice_body_def)

lemma create_invoice_Ok:
  assumes "create_invoice exchange ln amount_sat memo w = (Ok request, w')"
  shows "\<exists>v. exchange (Post (lightning_url ln ''/v1/invoices'') (lc_macaroon_hex ln) (invoice_body amount_sat memo)) w = (Ok v, w')
    \<and> json_get ''payment_request'' v = Some (JString request)"
proof -
  have "as_str j = Some request \<Longrightarrow> j = JString request" for j
    by (cases j) simp_all
  then show ?thesis
    using assms by (auto simp: create_invoice_def lnd_post_def monad_iffs bind_eq_Some_conv)
qed

text \<open>The balance that the service prints is the balance that is returned.\<close>

lemma channel_balance_reads:
  assumes "exchange (Get (lightning_url ln ''/v1/balance/channels'') (lc_macaroon_hex ln)) w =
    (Ok (jobject [(''balance'', JString (decimal (unat sats)))]), w')"
  shows "channel_balance_sat exchange ln w = (Ok sats, w')"
  using assms dec.parse_print [of sats]
  by (auto simp: channel_balance_sat_def lnd_get_def)

section \<open>Payments\<close>

text \<open>
  A reply that is an error of the service as such, with a code and a message instead of a payment,
  is taken for a payment with no hash.
\<close>

lemma pay_invoice_accepts_error_reply:
  assumes "exchange (Post (lightning_url ln ''/v1/channels/transactions'') (lc_macaroon_hex ln)
      (jobject [(''payment_request'', JString bolt11)])) w =
    (Ok (jobject [(''code'', JNumber code), (''message'', JString text)]), w')"
  shows "pay_invoice exchange ln bolt11 w = (Ok [], w')"
  using assms by (simp add: pay_invoice_def lnd_post_def)

lemma pay_invoice_hash:
  assumes "pay_invoice exchange ln bolt11 w = (Ok hash, w')" "hash \<noteq> []"
  shows "\<exists>v. exchange (Post (lightning_url ln ''/v1/channels/transactions'') (lc_macaroon_hex ln)
      (jobject [(''payment_request'', JString bolt11)])) w = (Ok v, w')
    \<and> json_get ''payment_hash'' v = Some (JString hash)
    \<and> Option.bind (json_get ''payment_error'' v) as_str \<in> {None, Some []}"
proof -
  have str: "as_str j = Some h \<Longrightarrow> j = JString h" for j h
    by (cases j) simp_all
  obtain v where v: "exchange (Post (lightning_url ln ''/v1/channels/transactions'') (lc_macaroon_hex ln)
      (jobject [(''payment_request'', JString bolt11)])) w = (Ok v, w')"
    and hash: "(case Option.bind (json_get ''payment_error'' v) as_str of
          Some (c # cs) \<Rightarrow> Err (PayError (c # cs))
        | _ \<Rightarrow> Ok (case Option.bind (json_get ''payment_hash'' v) as_str of Some h \<Rightarrow> h | None \<Rightarrow> [])) = Ok hash"
    using assms(1) by (auto simp: pay_invoice_def lnd_post_def monad_iffs)
  have "Option.bind (json_get ''payment_hash'' v) as_str = Some hash"
    using hash assms(2) by (auto split: option.splits list.splits)
  moreover have "Option.bind (json_get ''payment_error'' v) as_str \<in> {None, Some []}"
    using hash by (auto split: option.splits list.splits)
  ultimately show ?thesis
    using v str by (auto simp: bind_eq_Some_conv)
qed

end
