(* ===== verification/Cli.thy ===== *)
theory Cli
  imports Json Cpi
begin

text \<open>
  The command line client, \<open>src/himsha-cli/src/main.rs\<close>: the commands and what they print, and the
  scaffold of a new program. Names and generated texts are lists of Unicode code points; the file
  system is a map from paths, lists of names, to entries. The lower case of a character that is not
  ASCII depends on the tables of Unicode and on its neighbours, and is the parameter \<open>uni\<close> of the
  text and the position. The pretty printer, the hexadecimal codec and the files that are read are
  parameters too.

  The last part is the program that the scaffold generates, a counter.
\<close>

section \<open>Names\<close>

type_synonym uchars = "nat list"
type_synonym path = "uchars list"

definition chars :: "string \<Rightarrow> uchars" where
  "chars s = map of_char s"

definition is_white :: "nat \<Rightarrow> bool" where
  "is_white c \<longleftrightarrow> c \<in> {9..13} \<union> {32, 0x85, 0xA0, 0x1680} \<union> {0x2000..0x200A} \<union> {0x2028, 0x2029, 0x202F, 0x205F, 0x3000}"

definition trim_chars :: "uchars \<Rightarrow> uchars" where
  "trim_chars s = rev (dropWhile is_white (rev (dropWhile is_white s)))"

definition is_ascii_alphanumeric :: "nat \<Rightarrow> bool" where
  "is_ascii_alphanumeric c \<longleftrightarrow> 48 \<le> c \<and> c \<le> 57 \<or> 65 \<le> c \<and> c \<le> 90 \<or> 97 \<le> c \<and> c \<le> 122"

definition to_lowercase :: "(uchars \<Rightarrow> nat \<Rightarrow> uchars) \<Rightarrow> uchars \<Rightarrow> uchars" where
  "to_lowercase uni s =
     concat (map (\<lambda>i. let c = s ! i in
         if 65 \<le> c \<and> c \<le> 90 then [c + 32] else if c < 128 then [c] else uni s i) [0..<length s])"

definition slug_of :: "(uchars \<Rightarrow> nat \<Rightarrow> uchars) \<Rightarrow> uchars \<Rightarrow> uchars" where
  "slug_of uni name = map (\<lambda>c. if c = 32 \<or> c = 95 then 45 else c) (to_lowercase uni (trim_chars name))"

definition valid_slug :: "uchars \<Rightarrow> bool" where
  "valid_slug slug \<longleftrightarrow> slug \<noteq> [] \<and> list_all (\<lambda>c. is_ascii_alphanumeric c \<or> c = 45) slug"

text \<open>\<open>s.split(['-', '_'])\<close>, empty parts included.\<close>

fun split_words :: "uchars \<Rightarrow> uchars list" where
  "split_words [] = [[]]"
| "split_words (c # cs) =
     (if c = 45 \<or> c = 95 then [] # split_words cs
      else (c # hd (split_words cs)) # tl (split_words cs))"

text \<open>The upper case of the first character of a part: the parts are ASCII.\<close>

fun capitalize :: "uchars \<Rightarrow> uchars" where
  "capitalize [] = []"
| "capitalize (c # cs) = (if 97 \<le> c \<and> c \<le> 122 then c - 32 else c) # cs"

definition to_pascal :: "uchars \<Rightarrow> uchars" where
  "to_pascal s = concat (map capitalize (filter (\<lambda>p. p \<noteq> []) (split_words s)))"

section \<open>The file system\<close>

datatype entry = Dir | File uchars

type_synonym files = "path \<Rightarrow> entry option"

datatype cli_error =
    Client client_error
  | InvalidName
  | AlreadyExists
  | Io

type_synonym 'a fs_exec = "(files, cli_error, 'a) exec"

text \<open>Where the system refuses to create an entry is the predicate \<open>denied\<close>.\<close>

fun create_dirs :: "(path \<Rightarrow> bool) \<Rightarrow> path \<Rightarrow> path \<Rightarrow> unit fs_exec" where
  "create_dirs denied base [] fs = (Ok (), fs)"
| "create_dirs denied base (c # cs) fs =
     (case fs (base @ [c]) of
        Some Dir \<Rightarrow> create_dirs denied (base @ [c]) cs fs
      | Some (File _) \<Rightarrow> (Err Io, fs)
      | None \<Rightarrow>
          if denied (base @ [c]) then (Err Io, fs)
          else create_dirs denied (base @ [c]) cs (fs(base @ [c] \<mapsto> Dir)))"

definition create_dir_all :: "(path \<Rightarrow> bool) \<Rightarrow> path \<Rightarrow> unit fs_exec" where
  "create_dir_all denied p = create_dirs denied [] p"

definition is_dir :: "files \<Rightarrow> path \<Rightarrow> bool" where
  "is_dir fs p \<longleftrightarrow> p = [] \<or> fs p = Some Dir"

definition write_file :: "(path \<Rightarrow> bool) \<Rightarrow> path \<Rightarrow> uchars \<Rightarrow> unit fs_exec" where
  "write_file denied p content fs =
     (if denied p \<or> fs p = Some Dir \<or> \<not> is_dir fs (butlast p) then (Err Io, fs)
      else (Ok (), fs(p \<mapsto> File content)))"

section \<open>The scaffold\<close>

definition text_lines :: "uchars list \<Rightarrow> uchars" where
  "text_lines ls = concat (map (\<lambda>l. l @ [10]) ls)"

definition cargo_toml :: "uchars \<Rightarrow> uchars \<Rightarrow> uchars" where
  "cargo_toml crate_name slug = text_lines
     [chars ''[package]'',
      chars ''name    = \"'' @ crate_name @ chars ''\"'',
      chars ''version = \"0.1.0\"'',
      chars ''edition = \"2021\"'',
      chars ''description = \"HIMSHA '' @ slug @ chars '' program\"'',
      [],
      chars ''[dependencies]'',
      chars ''himsha-runtime = { workspace = true }'',
      chars ''borsh       = { workspace = true }'',
      chars ''serde       = { workspace = true }'']"

definition lib_rs :: "uchars \<Rightarrow> uchars \<Rightarrow> uchars" where
  "lib_rs slug pascal = text_lines
     [chars ''//! HIMSHA `'' @ slug @ chars ''` program (scaffolded by `himsha program new`).'',
      chars ''//!'',
      chars ''//! A minimal counter to start from: an account holds a `count` and an `authority`;'',
      chars ''//! `Initialize` sets the authority, `Increment` bumps the count (authority must sign).'',
      chars ''//! Replace the state/instructions with your own '' @ [8212] @ chars '' the `process` entrypoint shape is'',
      chars ''//! what the runtime (native dispatch / RISC Zero guest) calls.'',
      [],
      chars ''use borsh::{BorshDeserialize, BorshSerialize};'',
      chars ''use himsha_runtime::{'',
      chars ''    account::AccountInfo,'',
      chars ''    error::ProgramError,'',
      chars ''    pubkey::Pubkey,'',
      chars ''};'',
      [],
      chars ''// ---- state ----'',
      [],
      chars ''#[derive(Clone, Debug, Default, BorshSerialize, BorshDeserialize)]'',
      chars ''pub struct Counter {'',
      chars ''    pub authority: Pubkey,'',
      chars ''    pub count: u64,'',
      chars ''    pub is_initialized: bool,'',
      chars ''}'',
      [],
      chars ''// ---- instructions ----'',
      [],
      chars ''#[derive(Clone, Debug, BorshSerialize, BorshDeserialize)]'',
      chars ''pub enum '' @ pascal @ chars ''Instruction {'',
      chars ''    /// Initialize the counter, setting `accounts[1]` as the authority.'',
      chars ''    /// accounts: [0] = counter (writable), [1] = authority (signer).'',
      chars ''    Initialize,'',
      chars ''    /// Increment the counter by `amount`.'',
      chars ''    /// accounts: [0] = counter (writable), [1] = authority (signer).'',
      chars ''    Increment { amount: u64 },'',
      chars ''}'',
      [],
      chars ''// ---- entrypoint ----'',
      [],
      chars ''pub fn process(accounts: &mut [AccountInfo], data: &[u8]) -> Result<(), ProgramError> {'',
      chars ''    let ix = '' @ pascal @ chars ''Instruction::try_from_slice(data).map_err(|_| ProgramError::InvalidInstruction)?;'',
      chars ''    match ix {'',
      chars ''        '' @ pascal @ chars ''Instruction::Initialize => {'',
      chars ''            if accounts.len() < 2 { return Err(ProgramError::NotEnoughAccounts); }'',
      chars ''            let mut counter: Counter = accounts[0].read_data().unwrap_or_default();'',
      chars ''            if counter.is_initialized { return Err(ProgramError::AlreadyInitialized); }'',
      chars ''            if !accounts[1].is_signer { return Err(ProgramError::MissingSigner); }'',
      chars ''            counter.authority = accounts[1].key;'',
      chars ''            counter.count = 0;'',
      chars ''            counter.is_initialized = true;'',
      chars ''            accounts[0].write_data(&counter)'',
      chars ''        }'',
      chars ''        '' @ pascal @ chars ''Instruction::Increment { amount } => {'',
      chars ''            if accounts.len() < 2 { return Err(ProgramError::NotEnoughAccounts); }'',
      chars ''            let mut counter: Counter = accounts[0].read_data()?;'',
      chars ''            if !counter.is_initialized { return Err(ProgramError::NotInitialized); }'',
      chars ''            if !accounts[1].is_signer || accounts[1].key != counter.authority {'',
      chars ''                return Err(ProgramError::Unauthorized);'',
      chars ''            }'',
      chars ''            counter.count = counter.count.checked_add(amount).ok_or(ProgramError::Overflow)?;'',
      chars ''            accounts[0].write_data(&counter)'',
      chars ''        }'',
      chars ''    }'',
      chars ''}'',
      [],
      chars ''#[cfg(test)]'',
      chars ''mod tests {'',
      chars ''    use super::*;'',
      chars ''    use himsha_runtime::program_ids::system_program;'',
      [],
      chars ''    fn account(key: Pubkey, signer: bool) -> AccountInfo {'',
      chars ''        let mut a = AccountInfo::new(key, system_program(), 0, 256);'',
      chars ''        a.is_signer = signer;'',
      chars ''        a'',
      chars ''    }'',
      [],
      chars ''    #[test]'',
      chars ''    fn test_initialize_then_increment() {'',
      chars ''        let counter_key = Pubkey::from_seed(b\"counter\");'',
      chars ''        let auth = Pubkey::from_seed(b\"authority\");'',
      chars ''        let mut accts = vec![account(counter_key, false), account(auth, true)];'',
      [],
      chars ''        let init = borsh::to_vec(&'' @ pascal @ chars ''Instruction::Initialize).unwrap();'',
      chars ''        process(&mut accts, &init).unwrap();'',
      [],
      chars ''        let inc = borsh::to_vec(&'' @ pascal @ chars ''Instruction::Increment { amount: 5 }).unwrap();'',
      chars ''        process(&mut accts, &inc).unwrap();'',
      [],
      chars ''        let counter: Counter = accts[0].read_data().unwrap();'',
      chars ''        assert_eq!(counter.count, 5);'',
      chars ''        assert_eq!(counter.authority, auth);'',
      chars ''    }'',
      [],
      chars ''    #[test]'',
      chars ''    fn test_increment_requires_authority() {'',
      chars ''        let counter_key = Pubkey::from_seed(b\"counter\");'',
      chars ''        let auth = Pubkey::from_seed(b\"authority\");'',
      chars ''        let imposter = Pubkey::from_seed(b\"imposter\");'',
      chars ''        let mut accts = vec![account(counter_key, false), account(auth, true)];'',
      chars ''        process(&mut accts, &borsh::to_vec(&'' @ pascal @ chars ''Instruction::Initialize).unwrap()).unwrap();'',
      [],
      chars ''        // Wrong signer '' @ [8594] @ chars '' rejected.'',
      chars ''        accts[1] = account(imposter, true);'',
      chars ''        let inc = borsh::to_vec(&'' @ pascal @ chars ''Instruction::Increment { amount: 1 }).unwrap();'',
      chars ''        assert!(matches!(process(&mut accts, &inc), Err(ProgramError::Unauthorized)));'',
      chars ''    }'',
      chars ''}'']"

definition scaffold_program ::
  "(uchars \<Rightarrow> nat \<Rightarrow> uchars) \<Rightarrow> (path \<Rightarrow> bool) \<Rightarrow> uchars \<Rightarrow> path \<Rightarrow> unit fs_exec" where
  "scaffold_program uni denied name dir fs =
     (let slug = slug_of uni name in
      if \<not> valid_slug slug then (Err InvalidName, fs)
      else
        let crate_name = chars ''himsha-'' @ slug @ chars ''-program'';
            mod_name = map (\<lambda>c. if c = 45 then 95 else c) slug;
            crate_dir = dir @ [slug]
        in if fs crate_dir \<noteq> None then (Err AlreadyExists, fs)
           else
             xbind (create_dir_all denied (crate_dir @ [chars ''src''])) (\<lambda>_.
             xbind (write_file denied (crate_dir @ [chars ''Cargo.toml'']) (cargo_toml crate_name slug)) (\<lambda>_.
             write_file denied (crate_dir @ [chars ''src'', chars ''lib.rs'']) (lib_rs slug (to_pascal mod_name)))) fs)"

section \<open>Commands\<close>

datatype AccountCmd = AccGet bytes | AccList bytes
datatype NodeCmd = Status | Slot | NodeBlock u64
datatype ProgramCmd = ProgList | Utxo bytes u32 | New uchars path
datatype Commands =
    Deploy path bytes
  | Account AccountCmd
  | Node NodeCmd
  | Program ProgramCmd

text \<open>The HTTP transport, the contents of files, the pretty printer and the hexadecimal codec.\<close>

record 'w cli_env =
  ce_http :: "'w transport"
  ce_read :: "path \<Rightarrow> bytes option"
  ce_pretty :: "json \<Rightarrow> bytes"
  ce_hex :: "bytes \<Rightarrow> bytes"
  ce_uni :: "uchars \<Rightarrow> nat \<Rightarrow> uchars"
  ce_denied :: "path \<Rightarrow> bool"

type_synonym ('w, 'a) cli = "('w \<times> files, cli_error, 'a) exec"

definition call :: "'w cli_env \<Rightarrow> (json \<Rightarrow> 'a option) \<Rightarrow> bytes \<Rightarrow> string \<Rightarrow> json list \<Rightarrow> ('w, 'a) cli" where
  "call e read url method params = (\<lambda>(w, fs).
     case xmap_err Client (rpc_call (ce_http e) read url (ascii method) (JArray params)) w of (r, w') \<Rightarrow> (r, (w', fs)))"

definition on_files :: "'a fs_exec \<Rightarrow> ('w, 'a) cli" where
  "on_files m = (\<lambda>(w, fs). case m fs of (r, fs') \<Rightarrow> (r, (w, fs')))"

definition print_option :: "'w cli_env \<Rightarrow> string \<Rightarrow> json option \<Rightarrow> ('w, bytes list) cli" where
  "print_option e missing v = xret (case v of Some j \<Rightarrow> [ce_pretty e j] | None \<Rightarrow> [ascii missing])"

fun run_account :: "'w cli_env \<Rightarrow> bytes \<Rightarrow> AccountCmd \<Rightarrow> ('w, bytes list) cli" where
  "run_account e url (AccGet pubkey) =
     xbind (call e read_option url ''himsha_getAccountInfo'' [JString pubkey]) (print_option e ''account not found'')"
| "run_account e url (AccList program_id) =
     xbind (call e read_array url ''himsha_getProgramAccounts'' [JString program_id]) (\<lambda>accounts.
     xret (map (ce_pretty e) accounts))"

fun run_node :: "'w cli_env \<Rightarrow> bytes \<Rightarrow> NodeCmd \<Rightarrow> ('w, bytes list) cli" where
  "run_node e url Status =
     xbind (call e read_bool url ''himsha_isNodeReady'' []) (\<lambda>ready.
     xret [ascii ''node ready: '' @ ascii (if ready then ''true'' else ''false'')])"
| "run_node e url Slot =
     xbind (call e as_u64_opt url ''himsha_getSlot'' []) (\<lambda>slot.
     xret [ascii ''current slot: '' @ decimal (unat slot)])"
| "run_node e url (NodeBlock slot) =
     xbind (call e read_option url ''himsha_getBlock'' [json_u64 slot]) (print_option e ''block not found'')"

fun run_program :: "'w cli_env \<Rightarrow> bytes \<Rightarrow> ProgramCmd \<Rightarrow> ('w, bytes list) cli" where
  "run_program e url ProgList =
     xbind (call e read_strings url ''himsha_listPrograms'' []) (\<lambda>programs.
     xret (if programs = [] then [ascii ''no programs deployed''] else map (\<lambda>p. ascii ''  '' @ p) programs))"
| "run_program e url (Utxo txid vout) =
     xbind (call e read_option url ''himsha_getUtxo'' [JString txid, JNumber (uint vout)])
       (print_option e ''UTXO not found or spent'')"
| "run_program e url (New name dir) =
     xbind (on_files (scaffold_program (ce_uni e) (ce_denied e) name dir)) (\<lambda>_. xret [])"

text \<open>The lines that a command prints; those of the scaffold, which only repeat its arguments, are left out.\<close>

fun run_command :: "'w cli_env \<Rightarrow> bytes \<Rightarrow> Commands \<Rightarrow> ('w, bytes list) cli" where
  "run_command e url (Deploy elf image_id) =
     xbind (xlift (ok_or (ce_read e elf) Io)) (\<lambda>contents.
     xbind (call e as_str url ''himsha_deployProgram'' [JString (ce_hex e contents), JString image_id]) (\<lambda>program_id.
     xret [ascii ''deployed program: '' @ program_id]))"
| "run_command e url (Account sub) = run_account e url sub"
| "run_command e url (Node sub) = run_node e url sub"
| "run_command e url (Program sub) = run_program e url sub"

section \<open>The generated program\<close>

record Counter =
  ct_authority :: Pubkey
  ct_count :: u64
  ct_is_initialized :: bool

datatype CounterInstruction = Ctr_Initialize | Ctr_Increment u64

record counter_env =
  ce_counter :: "Counter codec"
  ce_instr :: "CounterInstruction codec"

definition default_counter :: Counter where
  "default_counter = \<lparr> ct_authority = default_pubkey, ct_count = 0, ct_is_initialized = False \<rparr>"

definition counter_initialize :: "counter_env \<Rightarrow> accounts \<Rightarrow> accounts presult" where
  "counter_initialize e accounts =
     (if length accounts < 2 then Err NotEnoughAccounts
      else rbind (unwrap_or default_counter (read_data (ce_counter e) (accounts ! 0))) (\<lambda>counter.
        if ct_is_initialized counter then Err AlreadyInitialized
        else if \<not> a_is_signer (accounts ! 1) then Err MissingSigner
        else rbind (write_data (ce_counter e)
            \<lparr> ct_authority = a_key (accounts ! 1), ct_count = 0, ct_is_initialized = True \<rparr> (accounts ! 0)) (\<lambda>a.
          Ok (accounts[0 := a]))))"

definition counter_increment :: "counter_env \<Rightarrow> accounts \<Rightarrow> u64 \<Rightarrow> accounts presult" where
  "counter_increment e accounts amount =
     (if length accounts < 2 then Err NotEnoughAccounts
      else rbind (read_data (ce_counter e) (accounts ! 0)) (\<lambda>counter.
        if \<not> ct_is_initialized counter then Err NotInitialized
        else if \<not> a_is_signer (accounts ! 1) \<or> a_key (accounts ! 1) \<noteq> ct_authority counter then Err Unauthorized
        else rbind (ok_or (checked_add (ct_count counter) amount) Overflow) (\<lambda>count.
          rbind (write_data (ce_counter e) (counter\<lparr>ct_count := count\<rparr>) (accounts ! 0)) (\<lambda>a.
          Ok (accounts[0 := a])))))"

definition counter_process :: "counter_env \<Rightarrow> accounts \<Rightarrow> bytes \<Rightarrow> accounts presult" where
  "counter_process e accounts data =
     rbind (ok_or (decode (ce_instr e) data) InvalidInstruction) (\<lambda>ix.
     case ix of
       Ctr_Initialize \<Rightarrow> counter_initialize e accounts
     | Ctr_Increment amount \<Rightarrow> counter_increment e accounts amount)"

section \<open>What the scaffold touches\<close>

text \<open>One step of the creation: it stops and changes nothing, or goes on from a directory.\<close>

lemma create_dirs_step:
  assumes "create_dirs denied base (c # cs) fs = (r, fs')"
  obtains "r = Err Io" "fs' = fs"
  | fs1 where "create_dirs denied (base @ [c]) cs fs1 = (r, fs')" "fs1 (base @ [c]) = Some Dir"
      "\<And>p. p \<noteq> base @ [c] \<or> fs p \<noteq> None \<Longrightarrow> fs1 p = fs p"
proof (cases "fs (base @ [c])")
  case None
  show thesis
  proof (cases "denied (base @ [c])")
    case True
    then show thesis
      using assms None by (intro that(1)) simp_all
  next
    case False
    then show thesis
      using assms None by (intro that(2) [of "fs(base @ [c] \<mapsto> Dir)"]) auto
  qed
next
  case (Some e)
  show thesis
  proof (cases e)
    case Dir
    then show thesis
      using assms Some by (intro that(2) [of fs]) simp_all
  next
    case (File content)
    then show thesis
      using assms Some by (intro that(1)) simp_all
  qed
qed

lemma create_dirs_keeps:
  assumes "create_dirs denied base cs fs = (r, fs')" "fs p \<noteq> None"
  shows "fs' p = fs p"
  using assms
proof (induction cs arbitrary: base fs)
  case (Cons c cs)
  from Cons.prems(1) show ?case
  proof (cases rule: create_dirs_step)
    case (2 fs1)
    then show ?thesis
      using Cons.IH [OF 2(1)] Cons.prems(2) 2(3) [of p] by simp
  qed simp
qed simp

lemma create_dirs_new:
  assumes "create_dirs denied base cs fs = (r, fs')" "fs' p \<noteq> fs p"
  shows "fs' p = Some Dir \<and> (\<exists>k. 0 < k \<and> k \<le> length cs \<and> p = base @ take k cs)"
  using assms
proof (induction cs arbitrary: base fs)
  case (Cons c cs)
  from Cons.prems(1) show ?case
  proof (cases rule: create_dirs_step)
    case (2 fs1)
    show ?thesis
    proof (cases "fs1 p = fs p")
      case True
      then obtain k where "fs' p = Some Dir" "0 < k" "k \<le> length cs" "p = (base @ [c]) @ take k cs"
        using Cons.IH [OF 2(1)] Cons.prems(2) by auto
      then show ?thesis
        by (intro conjI exI [of _ "Suc k"]) auto
    next
      case False
      then have "p = base @ [c]"
        using 2(3) by blast
      then show ?thesis
        using create_dirs_keeps [OF 2(1)] 2(2) by (intro conjI exI [of _ 1]) auto
    qed
  qed (use Cons.prems in auto)
qed simp

lemma create_dirs_Ok:
  assumes "create_dirs denied base cs fs = (Ok (), fs')" "0 < k" "k \<le> length cs"
  shows "fs' (base @ take k cs) = Some Dir"
  using assms
proof (induction cs arbitrary: base fs k)
  case (Cons c cs)
  from Cons.prems(1) show ?case
  proof (cases rule: create_dirs_step)
    case (2 fs1)
    obtain j where k: "k = Suc j" "j \<le> length cs"
      using Cons.prems by (cases k) auto
    show ?thesis
    proof (cases j)
      case 0
      then show ?thesis
        using create_dirs_keeps [OF 2(1)] 2(2) k by simp
    next
      case (Suc i)
      then show ?thesis
        using Cons.IH [OF 2(1), of j] k by simp
    qed
  qed simp
qed simp

text \<open>Entries have directories above them.\<close>

definition is_tree :: "files \<Rightarrow> bool" where
  "is_tree fs \<longleftrightarrow> (\<forall>p c. fs (p @ [c]) \<noteq> None \<longrightarrow> is_dir fs p)"

lemma is_tree_below:
  assumes "is_tree fs" "fs p = None" "p \<noteq> []"
  shows "fs (p @ q) = None"
  using assms(2,3)
proof (induction q rule: rev_induct)
  case (snoc c q)
  then have "\<not> is_dir fs (p @ q)"
    by (simp add: is_dir_def)
  then show ?case
    using assms(1) unfolding is_tree_def by (metis append.assoc)
qed simp

lemma write_file_effect:
  assumes "write_file denied p content fs = (r, fs')"
  shows "fs' = fs \<and> r = Err Io \<or> fs' = fs(p \<mapsto> File content) \<and> r = Ok ()"
  using assms by (auto simp: write_file_def split: if_splits)

lemma chars_neq [simp]: "chars ''src'' \<noteq> chars ''Cargo.toml''" "chars ''Cargo.toml'' \<noteq> chars ''src''"
  by (simp_all add: chars_def)

text \<open>
  C40. A scaffold stays in its place: whether it succeeds or stops half-way, nothing that existed is changed,
  and every new entry is one of the missing directories on the way or lies below the directory of the
  new crate; when it succeeds, the crate's name is made of ASCII letters, digits and hyphens and its two
  files hold the generated texts.
\<close>

theorem scaffold_confined:
  assumes tree: "is_tree fs" and run: "scaffold_program uni denied name dir fs = (r, fs')"
  defines "slug \<equiv> slug_of uni name"
  shows "(\<forall>p. fs p \<noteq> None \<longrightarrow> fs' p = fs p)
    \<and> (\<forall>p. fs' p \<noteq> fs p \<longrightarrow> (\<exists>k \<le> length dir. p = take k dir) \<or> (\<exists>q. p = dir @ slug # q))
    \<and> (r = Ok () \<longrightarrow> list_all (\<lambda>c. is_ascii_alphanumeric c \<or> c = 45) slug
        \<and> fs' (dir @ [slug, chars ''Cargo.toml'']) = Some (File (cargo_toml (chars ''himsha-'' @ slug @ chars ''-program'') slug))
        \<and> fs' (dir @ [slug, chars ''src'', chars ''lib.rs'']) =
            Some (File (lib_rs slug (to_pascal (map (\<lambda>c. if c = 45 then 95 else c) slug)))))"
proof (cases "\<not> valid_slug slug \<or> fs (dir @ [slug]) \<noteq> None")
  case True
  then show ?thesis
    using run by (auto simp: scaffold_program_def slug_def Let_def split: if_splits)
next
  case False
  let ?crate = "dir @ [slug]"
  let ?cargo = "?crate @ [chars ''Cargo.toml'']" and ?lib = "?crate @ [chars ''src'', chars ''lib.rs'']"
  define toml where "toml = cargo_toml (chars ''himsha-'' @ slug @ chars ''-program'') slug"
  define lib where "lib = lib_rs slug (to_pascal (map (\<lambda>c. if c = 45 then 95 else c) slug))"
  have run': "xbind (create_dir_all denied (?crate @ [chars ''src''])) (\<lambda>_.
      xbind (write_file denied ?cargo toml) (\<lambda>_. write_file denied ?lib lib)) fs = (r, fs')"
    using run False by (auto simp: scaffold_program_def slug_def toml_def lib_def Let_def)
  have below: "fs (?crate @ q) = None" for q
    using is_tree_below [OF tree, of ?crate q] False by simp
  obtain r1 fs1 where dirs: "create_dirs denied [] (?crate @ [chars ''src'']) fs = (r1, fs1)"
    by fastforce
  have kept: "fs1 p = fs p" if "fs p \<noteq> None" for p
    using create_dirs_keeps [OF dirs that] .
  define place where "place = (\<lambda>p. (\<exists>k \<le> length dir. p = take k dir) \<or> (\<exists>q. p = dir @ slug # q))"
  have new: "place p" if "fs1 p \<noteq> fs p" for p
    using create_dirs_new [OF dirs that] by (auto simp: place_def le_Suc_eq)
  have files: "place ?cargo" "place ?lib"
    by (simp_all add: place_def)
  have final: "fs' = fs1 \<and> r \<noteq> Ok () \<or> fs' = fs1(?cargo \<mapsto> File toml) \<and> r \<noteq> Ok ()
      \<or> fs' = fs1(?cargo \<mapsto> File toml, ?lib \<mapsto> File lib) \<and> r = Ok ()"
    using run' dirs
    by (auto simp: create_dir_all_def xbind_def dest!: write_file_effect split: prod.splits result.splits)
  have absent: "fs ?cargo = None" "fs ?lib = None"
    using below [of "[chars ''Cargo.toml'']"] below [of "[chars ''src'', chars ''lib.rs'']"] by simp_all
  have "fs' p = fs p" if "fs p \<noteq> None" for p
    using final kept [OF that] absent that by auto
  moreover have "place p" if "fs' p \<noteq> fs p" for p
    using final new [of p] files that by (auto split: if_splits)
  moreover have "fs' ?cargo = Some (File toml)" "fs' ?lib = Some (File lib)" if "r = Ok ()"
    using final that by auto
  ultimately show ?thesis
    using False unfolding place_def toml_def lib_def by (simp add: valid_slug_def)
qed

theorem scaffold_confined_witness:
  "\<exists>fs'. scaffold_program (\<lambda>_ _. []) (\<lambda>_. False) (chars '' My_Escrow '') [chars ''p''] (\<lambda>_. None) = (Ok (), fs')
    \<and> slug_of (\<lambda>_ _. []) (chars '' My_Escrow '') = chars ''my-escrow''
    \<and> fs' [chars ''p'', chars ''my-escrow'', chars ''Cargo.toml''] =
        Some (File (cargo_toml (chars ''himsha-my-escrow-program'') (chars ''my-escrow'')))"
proof -
  have slug: "slug_of (\<lambda>_ _. []) (chars '' My_Escrow '') = chars ''my-escrow''"
    by (simp add: slug_of_def to_lowercase_def trim_chars_def is_white_def chars_def upt_rec)
  have tree: "is_tree (\<lambda>_. None)"
    by (simp add: is_tree_def)
  have "valid_slug (chars ''my-escrow'')"
    by (simp add: valid_slug_def chars_def is_ascii_alphanumeric_def)
  then obtain fs' where run: "scaffold_program (\<lambda>_ _. []) (\<lambda>_. False) (chars '' My_Escrow '') [chars ''p''] (\<lambda>_. None) = (Ok (), fs')"
    by (simp add: scaffold_program_def slug Let_def create_dir_all_def xbind_def write_file_def is_dir_def)
  moreover have "chars ''himsha-'' @ chars ''my-escrow'' @ chars ''-program'' = chars ''himsha-my-escrow-program''"
    by (simp add: chars_def)
  ultimately show ?thesis
    using scaffold_confined [OF tree run] slug by auto
qed

text \<open>A name that starts with a digit passes the test and gives an identifier that starts with one.\<close>

lemma scaffold_accepts_digit:
  "valid_slug (slug_of uni (chars ''3d''))" "to_pascal (slug_of uni (chars ''3d'')) = chars ''3d''"
  by (simp_all add: valid_slug_def slug_of_def to_lowercase_def trim_chars_def is_white_def is_ascii_alphanumeric_def
      to_pascal_def chars_def upt_rec)

section \<open>What the queries print\<close>

text \<open>The line for a missing account, block or output is never printed: its \<open>null\<close> is reported as an error.\<close>

lemma call_option_never_None:
  assumes "call e read_option url method params (w, fs) = (Ok v, st)"
  shows "v \<noteq> None"
proof -
  obtain w' where "rpc_call (ce_http e) read_option url (ascii method) (JArray params) w = (Ok v, w')"
    using assms by (auto simp: call_def xmap_err_def monad_iffs split: prod.splits)
  then show ?thesis
    by (rule rpc_call_option_never_None)
qed

theorem missing_account_is_an_error:
  assumes "ce_http e url (rpc_request (ascii ''himsha_getAccountInfo'') (JArray [JString pubkey])) w = (Ok (answer_ok JNull), w')"
  shows "run_command e url (Account (AccGet pubkey)) (w, fs) = (Err (Client NullResult), (w', fs))"
  using rpc_call_answers [of "ce_http e" url _ _ w, OF assms, of read_option]
  by (simp add: call_def xmap_err_def xbind_def)

lemma get_account_prints_value:
  assumes "run_command e url (Account (AccGet pubkey)) (w, fs) = (Ok ls, st)"
  shows "\<exists>v. ls = [ce_pretty e v]"
proof -
  obtain v st1 where found: "call e read_option url ''himsha_getAccountInfo'' [JString pubkey] (w, fs) = (Ok v, st1)"
    and ls: "ls = (case v of Some j \<Rightarrow> [ce_pretty e j] | None \<Rightarrow> [ascii ''account not found''])"
    using assms by (auto simp: monad_iffs print_option_def)
  have "v \<noteq> None"
    using found by (rule call_option_never_None)
  then show ?thesis
    using ls by auto
qed

section \<open>The generated program keeps its promises\<close>

lemma counter_increment_Ok:
  assumes "codec_ok (ce_counter e)" "counter_increment e accounts amount = Ok accounts'"
  shows "\<exists>c c'. read_data (ce_counter e) (accounts ! 0) = Ok c \<and> read_data (ce_counter e) (accounts' ! 0) = Ok c'
    \<and> ct_is_initialized c \<and> a_is_signer (accounts ! 1) \<and> a_key (accounts ! 1) = ct_authority c
    \<and> ct_authority c' = ct_authority c \<and> ct_is_initialized c' \<and> unat (ct_count c') = unat (ct_count c) + unat amount
    \<and> accounts' = accounts[0 := accounts' ! 0]"
proof -
  obtain c n b where c: "decode (ce_counter e) (a_data (accounts ! 0)) = Some c" "ct_is_initialized c"
      "a_is_signer (accounts ! 1)" "a_key (accounts ! 1) = ct_authority c" "1 < length accounts"
    and n: "checked_add (ct_count c) amount = Some n" and b: "encode (ce_counter e) (c\<lparr>ct_count := n\<rparr>) = Some b"
    and new: "accounts' = accounts[0 := (accounts ! 0)\<lparr>a_data := b\<rparr>]"
    using assms(2) by (auto simp: counter_increment_def monad_iffs split: if_splits)
  have "accounts' ! 0 = (accounts ! 0)\<lparr>a_data := b\<rparr>"
    using new c(5) by (cases accounts) auto
  moreover have "decode (ce_counter e) b = Some (c\<lparr>ct_count := n\<rparr>)"
    using codec_okD [OF assms(1) b] .
  ultimately show ?thesis
    using c n new by (auto simp: monad_iffs arith_iffs)
qed

lemma counter_initialize_once:
  assumes "codec_ok (ce_counter e)" "counter_initialize e accounts = Ok accounts'" "1 < length accounts"
  shows "counter_initialize e accounts' = Err AlreadyInitialized"
    and "read_data (ce_counter e) (accounts' ! 0) =
      Ok \<lparr> ct_authority = a_key (accounts ! 1), ct_count = 0, ct_is_initialized = True \<rparr>"
proof -
  obtain b where b: "encode (ce_counter e) \<lparr> ct_authority = a_key (accounts ! 1), ct_count = 0, ct_is_initialized = True \<rparr> = Some b"
    and new: "accounts' = accounts[0 := (accounts ! 0)\<lparr>a_data := b\<rparr>]"
    using assms(2) by (auto simp: counter_initialize_def monad_iffs split: if_splits)
  have "accounts' ! 0 = (accounts ! 0)\<lparr>a_data := b\<rparr>" "length accounts' = length accounts"
    using new assms(3) by (cases accounts; auto)+
  then show "read_data (ce_counter e) (accounts' ! 0) =
      Ok \<lparr> ct_authority = a_key (accounts ! 1), ct_count = 0, ct_is_initialized = True \<rparr>"
    "counter_initialize e accounts' = Err AlreadyInitialized"
    using codec_okD [OF assms(1) b] assms(3) by (simp_all add: counter_initialize_def read_data_def)
qed

end
