(* ===== verification/Key_Text.thy ===== *)
theory Key_Text
  imports Transaction Text
begin

text \<open>
  Keys, signatures and outputs as text and as curve objects: \<open>src/himsha-runtime/src/pubkey.rs\<close>,
  \<open>signature.rs\<close> and \<open>utxo.rs\<close>. Base58 and hexadecimal come from third-party crates, records of an
  encoder and a decoder; so does secp256k1, the record \<open>secp\<close>: the parsers of signatures and keys,
  verification, and the signing key of type \<open>'k\<close>.
\<close>

section \<open>Text forms\<close>

record text_codec =
  tc_encode :: "bytes \<Rightarrow> bytes"
  tc_decode :: "bytes \<Rightarrow> bytes option"

datatype text_error = Undecodable | WrongSize

text \<open>
  The documented laws: what was encoded decodes; and, in base58, a text is the only one for what it
  decodes to (hexadecimal reads both cases).
\<close>

definition text_codec_ok :: "text_codec \<Rightarrow> bool" where
  "text_codec_ok c \<longleftrightarrow> (\<forall>b. tc_decode c (tc_encode c b) = Some b)"

definition text_canonical :: "text_codec \<Rightarrow> bool" where
  "text_canonical c \<longleftrightarrow> (\<forall>s b. tc_decode c s = Some b \<longrightarrow> s = tc_encode c b)"

definition to_base58 :: "text_codec \<Rightarrow> Pubkey \<Rightarrow> bytes" where
  "to_base58 c p = tc_encode c (be_bytes p)"

definition from_base58 :: "text_codec \<Rightarrow> bytes \<Rightarrow> (text_error, Pubkey) result" where
  "from_base58 c s =
     rbind (ok_or (tc_decode c s) Undecodable) (\<lambda>v.
     if length v = 32 then Ok (bytes_to_word v) else Err WrongSize)"

definition sig_bytes :: "Signature \<Rightarrow> bytes" where
  "sig_bytes w = map (\<lambda>i. ucast (drop_bit (8 * (63 - i)) w)) [0..<64]"

definition sig_of_bytes :: "bytes \<Rightarrow> Signature" where
  "sig_of_bytes b = word_of_int (horner_sum uint 256 (rev b))"

definition signature_serialize :: "text_codec \<Rightarrow> Signature \<Rightarrow> bytes" where
  "signature_serialize c sig = tc_encode c (sig_bytes sig)"

definition signature_deserialize :: "text_codec \<Rightarrow> bytes \<Rightarrow> (text_error, Signature) result" where
  "signature_deserialize c s =
     rbind (ok_or (tc_decode c s) Undecodable) (\<lambda>v.
     if length v \<noteq> 64 then Err WrongSize else Ok (sig_of_bytes v))"

definition zeroed :: Signature where
  "zeroed = 0"

definition txid_hex :: "text_codec \<Rightarrow> UtxoMeta \<Rightarrow> bytes" where
  "txid_hex c u = tc_encode c (be_bytes (u_txid u))"

definition utxo_display :: "text_codec \<Rightarrow> UtxoMeta \<Rightarrow> bytes" where
  "utxo_display c u = txid_hex c u @ ascii '':'' @ decimal (unat (u_vout u))"

section \<open>Signing keys\<close>

record 'k secp =
  sp_parse_sig :: "bytes \<Rightarrow> bytes option"
  sp_parse_xonly :: "bytes \<Rightarrow> bytes option"
  sp_verify :: "bytes \<Rightarrow> bytes32 \<Rightarrow> bytes \<Rightarrow> bool"
  sp_generate :: "nat \<Rightarrow> 'k \<times> nat"
  sp_from_secret :: "bytes \<Rightarrow> 'k option"
  sp_xonly :: "'k \<Rightarrow> bytes"
  sp_sign :: "'k \<Rightarrow> bytes32 \<Rightarrow> bytes"

definition signature_verify :: "('k, 'z) secp_scheme \<Rightarrow> Signature \<Rightarrow> bytes32 \<Rightarrow> Pubkey \<Rightarrow> bool" where
  "signature_verify sp sig msg_hash pubkey \<longleftrightarrow>
     (case sp_parse_sig sp (sig_bytes sig) of
        None \<Rightarrow> False
      | Some s \<Rightarrow>
          (case sp_parse_xonly sp (be_bytes pubkey) of
             None \<Rightarrow> False
           | Some xonly \<Rightarrow> sp_verify sp s msg_hash xonly))"

definition keypair_generate :: "('k, 'z) secp_scheme \<Rightarrow> nat \<Rightarrow> 'k \<times> nat" where
  "keypair_generate sp rng = sp_generate sp rng"

definition from_secret_bytes :: "('k, 'z) secp_scheme \<Rightarrow> bytes32 \<Rightarrow> (text_error, 'k) result" where
  "from_secret_bytes sp secret = ok_or (sp_from_secret sp (be_bytes secret)) Undecodable"

definition keypair_pubkey :: "('k, 'z) secp_scheme \<Rightarrow> 'k \<Rightarrow> Pubkey" where
  "keypair_pubkey sp k = bytes_to_word (sp_xonly sp k)"

text \<open>\<open>copy_from_slice\<close>: the library's signature has 64 bytes.\<close>

definition keypair_sign :: "('k, 'z) secp_scheme \<Rightarrow> 'k \<Rightarrow> bytes32 \<Rightarrow> Signature" where
  "keypair_sign sp k msg_hash = sig_of_bytes (sp_sign sp k msg_hash)"

text \<open>The environment of transactions with these functions in it.\<close>

definition secp_tx_env :: "sha256 \<Rightarrow> Message codec \<Rightarrow> ('k, 'z) secp_scheme \<Rightarrow> 'k tx_env" where
  "secp_tx_env sha c sp =
     \<lparr> tx_sha = sha, tx_codec = c, tx_verify = signature_verify sp, tx_sign = keypair_sign sp,
       tx_pubkey = keypair_pubkey sp \<rparr>"

section \<open>Round trips\<close>

lemma length_sig_bytes [simp]: "length (sig_bytes w) = 64"
  by (simp add: sig_bytes_def)

lemma sig_bytes_of_bytes: "length b = 64 \<Longrightarrow> sig_bytes (sig_of_bytes b) = b"
  by (intro bytes_eqI)
    (auto simp: sig_bytes_def sig_of_bytes_def bit_ucast_iff bit_drop_bit_eq bit_horner_bytes rev_nth simp del: upt_rec_numeral)

lemma sig_of_bytes_sig_bytes [simp]: "sig_of_bytes (sig_bytes w) = w"
proof (intro bit_word_eqI)
  fix k assume "k < LENGTH(512)"
  then have k: "k div 8 < 64" "8 * (k div 8) + k mod 8 = k" "k < 512"
    by (simp_all add: less_mult_imp_div_less)
  then have "63 - (63 - k div 8) = k div 8" "[0..<64] ! (63 - k div 8) = 63 - k div 8"
    by (simp_all del: upt_rec_numeral)
  then have "sig_bytes w ! (63 - k div 8) = ucast (drop_bit (8 * (k div 8)) w)"
    by (simp add: sig_bytes_def del: upt_rec_numeral diff_diff_cancel)
  then show "bit (sig_of_bytes (sig_bytes w)) k = bit w k"
    using k(1,3) unfolding sig_of_bytes_def bit_horner_bytes
    by (simp add: rev_nth bit_ucast_iff bit_drop_bit_eq)
qed

text \<open>
  The text of a key stands for it alone: reading a text gives a key exactly when it is the text of that
  key. A signature written as text reads back, and a text of any other number of bytes is refused.
\<close>

theorem key_text_roundtrip:
  assumes "text_codec_ok b58" "text_canonical b58" "text_codec_ok hex"
  shows "(from_base58 b58 s = Ok p \<longleftrightarrow> s = to_base58 b58 p)
    \<and> signature_deserialize hex (signature_serialize hex sig) = Ok sig
    \<and> (length b \<noteq> 64 \<longrightarrow> signature_deserialize hex (tc_encode hex b) = Err WrongSize)"
proof -
  have dec: "tc_decode b58 (tc_encode b58 b) = Some b" "tc_decode hex (tc_encode hex b) = Some b"
    and canonical: "tc_decode b58 s = Some b \<Longrightarrow> s = tc_encode b58 b" for b
    using assms by (auto simp: text_codec_ok_def text_canonical_def)
  have "from_base58 b58 s = Ok p \<longleftrightarrow> s = to_base58 b58 p"
    using dec(1) canonical
    by (auto simp: from_base58_def to_base58_def monad_iffs be_bytes_bytes_to_word split: if_splits)
  then show ?thesis
    using dec(2) by (simp add: signature_deserialize_def signature_serialize_def)
qed

definition rev_codec :: text_codec where
  "rev_codec = \<lparr> tc_encode = rev, tc_decode = (\<lambda>s. Some (rev s)) \<rparr>"

theorem key_text_roundtrip_witness:
  "from_base58 rev_codec (to_base58 rev_codec 7) = Ok 7 \<and> signature_deserialize rev_codec [] = Err WrongSize"
proof -
  have "text_codec_ok rev_codec" "text_canonical rev_codec"
    by (auto simp: text_codec_ok_def text_canonical_def rev_codec_def)
  then show ?thesis
    using key_text_roundtrip [of rev_codec rev_codec "to_base58 rev_codec 7" 7 0 "[]"] by (simp add: rev_codec_def)
qed

text \<open>Two outputs with the same text are the same output, when texts of ids have one length.\<close>

lemma utxo_display_inj:
  assumes "text_codec_ok c" "\<And>a b. length a = length b \<Longrightarrow> length (tc_encode c a) = length (tc_encode c b)"
    and "utxo_display c u = utxo_display c v"
  shows "u = v"
proof -
  have "length (txid_hex c u) = length (txid_hex c v)"
    unfolding txid_hex_def by (rule assms(2)) simp
  then have "txid_hex c u = txid_hex c v" "decimal (unat (u_vout u)) = decimal (unat (u_vout v))"
    using assms(3) by (simp_all add: utxo_display_def)
  then have "be_bytes (u_txid u) = be_bytes (u_txid v)" "u_vout u = u_vout v"
    using assms(1) by (metis text_codec_ok_def txid_hex_def option.inject, simp add: dec.print_inj)
  then show ?thesis
    by simp
qed

text \<open>
  The documented behaviour of BIP-340 in the library, and that it gives what transactions need:
  what a key signs verifies under the key's own identifier.
\<close>

definition secp_signs :: "('k, 'z) secp_scheme \<Rightarrow> bool" where
  "secp_signs sp \<longleftrightarrow> (\<forall>k h. length (sp_sign sp k h) = 64 \<and> length (sp_xonly sp k) = 32
     \<and> (\<exists>s x. sp_parse_sig sp (sp_sign sp k h) = Some s \<and> sp_parse_xonly sp (sp_xonly sp k) = Some x \<and> sp_verify sp s h x))"

lemma keypair_sign_verifies:
  assumes "secp_signs sp"
  shows "signature_verify sp (keypair_sign sp k h) h (keypair_pubkey sp k)"
proof -
  obtain s x where "length (sp_sign sp k h) = 64" "length (sp_xonly sp k) = 32"
    "sp_parse_sig sp (sp_sign sp k h) = Some s" "sp_parse_xonly sp (sp_xonly sp k) = Some x" "sp_verify sp s h x"
    using assms unfolding secp_signs_def by blast
  then show ?thesis
    by (simp add: signature_verify_def keypair_sign_def keypair_pubkey_def sig_bytes_of_bytes be_bytes_bytes_to_word)
qed

text \<open>An identifier that is no point of the curve signs nothing.\<close>

lemma no_point_no_signature: "sp_parse_xonly sp (be_bytes pubkey) = None \<Longrightarrow> \<not> signature_verify sp sig h pubkey"
  by (simp add: signature_verify_def split: option.splits)

end
