(* ===== verification/Node_Services.thy ===== *)
theory Node_Services
  imports Rpc Bitcoin_Indexer Lightning Key_Text
begin

text \<open>
  The rest of \<open>src/himsha-node/src/main.rs\<close>: the handlers that reach Bitcoin, Lightning and the
  settlement committee, the ones that report on the node, and the start of the node, which reads its
  configuration and decides whether it produces blocks or follows. The environment variables are the
  function \<open>env\<close>; a registry is enumerated in the order \<open>order\<close>.
\<close>

section \<open>Configuration\<close>

type_synonym environ = "string \<Rightarrow> bytes option"

definition env_number :: "nat \<Rightarrow> environ \<Rightarrow> string \<Rightarrow> nat option" where
  "env_number limit env name = Option.bind (env name) (parse_uint limit)"

definition env_u64 :: "environ \<Rightarrow> string \<Rightarrow> u64 \<Rightarrow> u64" where
  "env_u64 env name default_value = (case env_number (2 ^ 64) env name of Some n \<Rightarrow> word_of_nat n | None \<Rightarrow> default_value)"

text \<open>\<open>s.split(',')\<close>, each part trimmed, the empty ones dropped.\<close>

fun split_on :: "u8 \<Rightarrow> bytes \<Rightarrow> bytes list" where
  "split_on sep [] = [[]]"
| "split_on sep (c # cs) =
     (if c = sep then [] # split_on sep cs else (c # hd (split_on sep cs)) # tl (split_on sep cs))"

definition env_list :: "environ \<Rightarrow> string \<Rightarrow> bytes list" where
  "env_list env name =
     (case env name of Some s \<Rightarrow> filter (\<lambda>p. p \<noteq> []) (map trim (split_on 44 s)) | None \<Rightarrow> [])"

text \<open>\<open>bitcoin_network\<close>, from a variable of its own.\<close>

definition bitcoin_network :: "environ \<Rightarrow> Network" where
  "bitcoin_network env = network_of_name (env ''HIMSHA_NETWORK'')"

definition faucet_from_env :: "environ \<Rightarrow> u64 option" where
  "faucet_from_env env =
     (if env ''HIMSHA_FAUCET'' \<noteq> Some (ascii ''1'') then None
      else Some (env_u64 env ''HIMSHA_FAUCET_MAX'' 1000000000))"

section \<open>Handlers\<close>

datatype service_reason =
    IndexerFailed index_error
  | LightningFailed lnd_error
  | LightningNotConfigured
  | BadKeyText text_error
  | NoCurvePoint
  | NoAddressForScript
  | CustodyAddress settle_error

record service_error =
  sv_code :: int
  sv_reason :: service_reason

definition service_err :: "int \<Rightarrow> ('e \<Rightarrow> service_reason) \<Rightarrow> 'e \<Rightarrow> service_error" where
  "service_err code f e = \<lparr> sv_code = code, sv_reason = f e \<rparr>"

definition rpc_get_utxo ::
  "'b index_lib_scheme \<Rightarrow> 'w BitcoinIndexer option \<Rightarrow> bytes \<Rightarrow> u32 \<Rightarrow> ('w, service_error, UtxoInfo option) exec" where
  "rpc_get_utxo b indexer txid vout =
     (case indexer of
        Some ix \<Rightarrow> xmap_err (service_err (- 32011) IndexerFailed) (get_utxo b ix txid vout)
      | None \<Rightarrow> xret None)"

text \<open>\<open>bl_p2tr\<close> is the script of a key that is taken as tweaked already.\<close>

definition get_account_address ::
  "'b index_lib_scheme \<Rightarrow> text_codec \<Rightarrow> environ \<Rightarrow> bytes \<Rightarrow> (service_error, bytes) result" where
  "get_account_address b b58 env pubkey =
     rbind (map_err (service_err (- 32030) BadKeyText) (from_base58 b58 pubkey)) (\<lambda>key.
     rbind (ok_or (bl_p2tr b (be_bytes key)) (service_err (- 32031) (\<lambda>_. NoCurvePoint) ())) (\<lambda>spk.
     rbind (ok_or (bl_address_of b spk (bitcoin_network env)) (service_err (- 32032) (\<lambda>_. NoAddressForScript) ())) (\<lambda>addr.
     Ok (xl_address_text b addr))))"

record CustodyInfo =
  ci_threshold :: u16
  ci_total :: u16
  ci_group_key :: bytes
  ci_address :: bytes

definition get_custody_info ::
  "'b index_lib_scheme \<Rightarrow> 'x frost \<Rightarrow> environ \<Rightarrow> 'x Custody option \<Rightarrow> (service_error, CustodyInfo option) result" where
  "get_custody_info b tr env custody =
     (case custody of
        None \<Rightarrow> Ok None
      | Some cu \<Rightarrow>
          let group_key = custody_group_xonly tr cu in
          rbind (map_err (service_err (- 32055) CustodyAddress)
            (committee_address (btc_lib.truncate b) group_key (bitcoin_network env))) (\<lambda>address.
          Ok (Some \<lparr> ci_threshold = cu_threshold cu, ci_total = cu_total cu, ci_group_key = xl_hex b group_key,
                     ci_address = xl_address_text b address \<rparr>)))"

definition lightning_or_err :: "bool \<Rightarrow> environ \<Rightarrow> (service_error, LightningClient) result" where
  "lightning_or_err built env =
     ok_or (lightning_from_env built env) (service_err (- 32040) (\<lambda>_. LightningNotConfigured) ())"

definition rpc_create_invoice ::
  "'w exchange \<Rightarrow> bool \<Rightarrow> environ \<Rightarrow> u64 \<Rightarrow> bytes \<Rightarrow> ('w, service_error, bytes) exec" where
  "rpc_create_invoice exchange built env amount_sat memo =
     xbind (xlift (lightning_or_err built env)) (\<lambda>ln.
     xmap_err (service_err (- 32041) LightningFailed) (create_invoice exchange ln amount_sat memo))"

definition rpc_pay_invoice :: "'w exchange \<Rightarrow> bool \<Rightarrow> environ \<Rightarrow> bytes \<Rightarrow> ('w, service_error, bytes) exec" where
  "rpc_pay_invoice exchange built env bolt11 =
     xbind (xlift (lightning_or_err built env)) (\<lambda>ln.
     xmap_err (service_err (- 32042) LightningFailed) (pay_invoice exchange ln bolt11))"

definition lightning_balance :: "'w exchange \<Rightarrow> bool \<Rightarrow> environ \<Rightarrow> ('w, service_error, u64) exec" where
  "lightning_balance exchange built env =
     xbind (xlift (lightning_or_err built env)) (\<lambda>ln.
     xmap_err (service_err (- 32043) LightningFailed) (channel_balance_sat exchange ln))"

definition registry_list :: "(ProgramRegistry \<Rightarrow> bytes32 list) \<Rightarrow> ProgramRegistry \<Rightarrow> Pubkey list" where
  "registry_list order reg = map rp_program_id (List.map_filter reg (order reg))"

definition list_programs :: "(ProgramRegistry \<Rightarrow> bytes32 list) \<Rightarrow> text_codec \<Rightarrow> HimshaNode \<Rightarrow> bytes list" where
  "list_programs order b58 h = map (to_base58 b58) (registry_list order (hn_registry h))"

record NodeStats =
  nst_accounts :: u64
  nst_transactions :: u64
  nst_tip_slot :: u64
  nst_programs :: u64

definition get_stats :: "(ProgramRegistry \<Rightarrow> bytes32 list) \<Rightarrow> HimshaNode \<Rightarrow> NodeStats" where
  "get_stats order h =
     (case stats (hn_state h) of (accounts, transactions, tip_slot) \<Rightarrow>
       \<lparr> nst_accounts = accounts, nst_transactions = transactions, nst_tip_slot = tip_slot,
         nst_programs = word_of_nat (length (registry_list order (hn_registry h))) \<rparr>)"

definition is_node_ready :: bool where
  "is_node_ready = True"

definition get_peers :: "environ \<Rightarrow> bytes list" where
  "get_peers env = (case env ''HIMSHA_FOLLOW'' of Some p \<Rightarrow> [p] | None \<Rightarrow> [])"

definition get_network_pubkey :: "environ \<Rightarrow> bytes" where
  "get_network_pubkey env = (case env ''HIMSHA_NETWORK_PUBKEY'' of Some k \<Rightarrow> k | None \<Rightarrow> [])"

section \<open>The block producer's configuration\<close>

record 'w producer_config =
  pc_anchor_interval :: u64
  pc_indexer :: "'w BitcoinIndexer option"

definition producer_new ::
  "(bytes \<Rightarrow> bytes \<Rightarrow> bytes \<Rightarrow> 'w core_rpc option) \<Rightarrow> environ \<Rightarrow> 'w producer_config" where
  "producer_new connect env =
     (let anchor_interval = env_u64 env ''HIMSHA_ANCHOR_INTERVAL'' 0
      in \<lparr> pc_anchor_interval = anchor_interval,
           pc_indexer = (if 0 < anchor_interval then indexer_from_env connect env else None) \<rparr>)"

section \<open>Start\<close>

record follow_config =
  fc_primary :: bytes
  fc_interval_secs :: u64
  fc_max_misses :: "u32 option"
  fc_higher_peers :: "bytes list"
  fc_members :: "bytes list"

datatype role = Producer | Follow follow_config

definition node_role :: "environ \<Rightarrow> role" where
  "node_role env =
     (case env ''HIMSHA_FOLLOW'' of
        Some primary_url \<Rightarrow>
          if primary_url \<noteq> [] then
            Follow \<lparr> fc_primary = primary_url, fc_interval_secs = env_u64 env ''HIMSHA_FOLLOW_INTERVAL_SECS'' 2,
              fc_max_misses = map_option word_of_nat (env_number (2 ^ 32) env ''HIMSHA_FAILOVER_MISSES''),
              fc_higher_peers = env_list env ''HIMSHA_STANDBY_PEERS'',
              fc_members = env_list env ''HIMSHA_ELECTION_MEMBERS'' \<rparr>
          else Producer
      | None \<Rightarrow> Producer)"

definition text_of :: "bytes \<Rightarrow> node_id" where
  "text_of b = map (\<lambda>w. char_of (unat w)) b"

definition self_id_of :: "environ \<Rightarrow> bytes \<Rightarrow> bytes" where
  "self_id_of env bind_addr =
     (case env ''HIMSHA_SELF'' of Some s \<Rightarrow> s | None \<Rightarrow> ascii ''http://'' @ bind_addr)"

text \<open>
  \<open>main\<close> up to the point where the tasks run: the node on an opened database, and its role. The chain
  id (\<open>chain_id_for_network\<close>) and the committee (\<open>custody_from_env\<close>) are read once and do not change:
  they are arguments of the handlers that use them.
\<close>

definition start_node :: "node_env \<Rightarrow> environ \<Rightarrow> bytes \<Rightarrow> NodeState \<Rightarrow> (HimshaNode \<times> role) sresult" where
  "start_node e env bind_addr state =
     rbind (seed_genesis e state) (\<lambda>state.
     let role = node_role env;
         election = (case role of
             Producer \<Rightarrow> become_leader (text_of (self_id_of env bind_addr)) default_election
           | Follow _ \<Rightarrow> default_election)
     in Ok (\<lparr> hn_state = state, hn_registry = register_native (vm_sha (ne_vm e)), hn_pending = [],
              hn_election = election \<rparr>, role))"

section \<open>Properties of the start\<close>

lemma split_on_nonempty: "split_on sep s \<noteq> []"
  by (cases s) auto

text \<open>A list of parts without the separator reads back, however many there are.\<close>

fun join_on :: "u8 \<Rightarrow> bytes list \<Rightarrow> bytes" where
  "join_on sep [] = []"
| "join_on sep [p] = p"
| "join_on sep (p # q # ps) = p @ sep # join_on sep (q # ps)"

lemma split_on_append: "sep \<notin> set p \<Longrightarrow> split_on sep (p @ sep # s) = p # split_on sep s"
  by (induction p) auto

lemma split_on_part: "sep \<notin> set p \<Longrightarrow> split_on sep p = [p]"
  by (induction p) auto

lemma split_on_join: "ps \<noteq> [] \<Longrightarrow> (\<And>p. p \<in> set ps \<Longrightarrow> sep \<notin> set p) \<Longrightarrow> split_on sep (join_on sep ps) = ps"
  by (induction sep ps rule: join_on.induct) (auto simp: split_on_append split_on_part)

text \<open>A node leads from its start exactly when it is not told to follow another.\<close>

lemma start_node_leads:
  assumes "start_node e env bind_addr state = Ok (h, role)"
  shows "is_leader (hn_election h) \<longleftrightarrow> role = Producer"
    and "role = Producer \<longleftrightarrow> env ''HIMSHA_FOLLOW'' \<in> {None, Some []}"
    and "hn_registry h = register_native (vm_sha (ne_vm e))"
proof -
  have role: "role = node_role env" and el: "hn_election h = (case role of
      Producer \<Rightarrow> become_leader (text_of (self_id_of env bind_addr)) default_election | Follow _ \<Rightarrow> default_election)"
    and reg: "hn_registry h = register_native (vm_sha (ne_vm e))"
    using assms by (auto simp: start_node_def monad_iffs Let_def)
  show "is_leader (hn_election h) \<longleftrightarrow> role = Producer"
    using el by (auto simp: become_leader_def default_election_def split: role.splits)
  show "role = Producer \<longleftrightarrow> env ''HIMSHA_FOLLOW'' \<in> {None, Some []}"
    unfolding role node_role_def by (auto split: option.splits)
  show "hn_registry h = register_native (vm_sha (ne_vm e))"
    by (fact reg)
qed

lemma registered_only: "fold (\<lambda>pid reg. register reg pid elf img) pids reg k = None \<longleftrightarrow> reg k = None \<and> k \<notin> set pids"
  by (induction pids arbitrary: reg) (auto simp: register_def)

text \<open>
  A deployed program does not survive a restart: its binary is in the database, and the registry of
  the node that starts on that database does not know it.
\<close>

theorem restart_forgets_program:
  assumes "deploy_program r elf_hex image_id_hex h = Ok (pid, h')" "pid \<notin> set (builtins (vm_sha (ne_vm e)))"
    and "seed_genesis e (hn_state h') = Ok (hn_state h')" "start_node e env bind_addr (hn_state h') = Ok (h2, role)"
  shows "registry_contains (hn_registry h') pid \<and> load_program_elf pid (hn_state h2) \<noteq> None
    \<and> \<not> registry_contains (hn_registry h2) pid"
proof -
  have "hn_state h2 = hn_state h'" "hn_registry h2 = register_native (vm_sha (ne_vm e))"
    using assms(3,4) by (auto simp: start_node_def monad_iffs Let_def)
  moreover have "load_program_elf pid (hn_state h') \<noteq> None" "registry_contains (hn_registry h') pid"
    using assms(1) by (auto simp: deploy_program_def monad_iffs Let_def load_program_elf_def deploy_program_state_def
        registry_contains_def register_def split: if_splits)
  ultimately show ?thesis
    using assms(2) by (simp add: registry_contains_def register_native_def registered_only)
qed

text \<open>
  The address to fund and the network of the settlement come from two variables: with only the
  indexer's set to mainnet, the address given out is one of the regression test network.
\<close>

lemma custody_address_network:
  assumes "env ''BITCOIN_NETWORK'' = Some (ascii ''mainnet'')" "env ''HIMSHA_NETWORK'' = None"
    and "indexer_from_env connect env = Some ix"
  shows "ix_network ix = Bitcoin \<and> bitcoin_network env = Regtest"
  using assms by (auto simp: indexer_from_env_def bitcoin_network_def network_of_name_def bind_eq_Some_conv)

text \<open>When both name the same network, what is funded at the address is what a settlement spends.\<close>

lemma custody_address_spent:
  assumes "get_custody_info b tr env (Some cu) = Ok (Some info)" "ix_network ix = bitcoin_network env"
    and "build_keyspend (btc_lib.truncate b) (custody_group_xonly tr cu) txid vout value recipient fee (ix_network ix) = Ok (tx, sighash)"
  shows "\<exists>spk addr. bl_p2tr b (custody_group_xonly tr cu) = Some spk \<and> bl_address_of b spk (ix_network ix) = Some addr
    \<and> ci_address info = xl_address_text b addr
    \<and> bl_sighash b tx \<lparr> out_value = value, out_script_pubkey = spk \<rparr> = Some sighash"
  using assms(1,3) unfolding build_keyspend_Ok_iff
  by (auto simp: get_custody_info_def committee_address_def committee_p2tr_def monad_iffs Let_def assms(2) btc_lib.truncate_def)

end
