(* ===== verification/Node_Run.thy ===== *)
theory Node_Run
  imports Node_Services
begin

text \<open>
  The running node, \<open>main\<close> of \<open>src/himsha-node/src/main.rs\<close> with the loops of
  \<open>block_producer.rs\<close> and \<open>follower.rs\<close> that it spawns: calls of clients interleave with the turns of
  the one task that produces blocks or follows a primary. A round of the producer is cut where other
  threads can come in: draining the queue, executing one transaction, forming the block.

  The registry of programs is behind a mutex that is held while a program runs. A program that panics
  poisons it, and every later \<open>lock().unwrap()\<close> panics; \<open>pr_poisoned\<close> records that.
\<close>

section \<open>The tasks\<close>

record replica =
  rc_follower :: follower
  rc_higher_peers :: "node_id list"
  rc_members :: "node_id list"
  rc_self_id :: node_id

definition follower_new :: "node_id \<Rightarrow> replica" where
  "follower_new primary_url =
     \<lparr> rc_follower = \<lparr> fo_primary = primary_url, fo_misses = 0, fo_election = None \<rparr>,
       rc_higher_peers = [], rc_members = [], rc_self_id = [] \<rparr>"

definition with_higher_peers :: "node_id list \<Rightarrow> replica \<Rightarrow> replica" where
  "with_higher_peers peers r = r\<lparr>rc_higher_peers := peers\<rparr>"

definition with_election :: "ElectionState \<Rightarrow> node_id list \<Rightarrow> node_id \<Rightarrow> replica \<Rightarrow> replica" where
  "with_election election members self_id r =
     r\<lparr>rc_follower := (rc_follower r)\<lparr>fo_election := Some election\<rparr>, rc_members := members, rc_self_id := self_id\<rparr>"

text \<open>\<open>Follower::run\<close>, the loop without failover, on the answers of the first turns.\<close>

definition follower_run :: "poll_answers list \<Rightarrow> replica \<Rightarrow> follower option" where
  "follower_run answers r =
     run_until_promote (rc_self_id r) (rc_members r) (rc_higher_peers r) None answers (rc_follower r)"

lemma poll_turn_no_failover: "\<not> fst (poll_turn self_id members peers None a f)"
  by (simp add: poll_turn_def should_promote_def Let_def case_prod_unfold)

lemma follower_run_never_returns: "follower_run answers r = None"
proof -
  have "run_until_promote self_id members peers None answers f = None" for self_id members peers f
  proof (induction answers arbitrary: f)
    case (Cons a answers)
    then show ?case
      using poll_turn_no_failover [of self_id members peers a f]
      by (cases "poll_turn self_id members peers None a f"; cases "fst (poll_turn self_id members peers None a f)") auto
  qed simp
  then show ?thesis
    by (simp add: follower_run_def)
qed

text \<open>
  What the spawned task is doing: the producer sleeps, or it is executing the transactions of a slot
  (the ones left, the ones included so far); a follower polls; or the task has panicked.
\<close>

datatype task =
    Waiting
  | Executing u64 "RuntimeTransaction list" "RuntimeTransaction list"
  | Following replica "u32 option"
  | Stopped

text \<open>\<open>pr_committed\<close> is a history variable: the transactions that the producer has committed.\<close>

record running =
  pr_node :: HimshaNode
  pr_poisoned :: bool
  pr_task :: task
  pr_committed :: "RuntimeTransaction list"

definition start_task :: "role \<Rightarrow> node_id \<Rightarrow> ElectionState \<Rightarrow> task" where
  "start_task role self_id election =
     (case role of
        Producer \<Rightarrow> Waiting
      | Follow cfg \<Rightarrow>
          Following
            (with_election election (map text_of (fc_members cfg)) self_id
              (with_higher_peers (map text_of (fc_higher_peers cfg))
                (follower_new (text_of (fc_primary cfg)))))
            (fc_max_misses cfg))"

definition start_process :: "node_env \<Rightarrow> environ \<Rightarrow> bytes \<Rightarrow> NodeState \<Rightarrow> running sresult" where
  "start_process e env bind_addr state =
     rbind (open_state (ne_state e) state) (\<lambda>state.
     rbind (start_node e env bind_addr state) (\<lambda>(h, role).
     Ok \<lparr> pr_node = h, pr_poisoned = False,
          pr_task = start_task role (text_of (self_id_of env bind_addr)) (hn_election h), pr_committed = [] \<rparr>))"

section \<open>Calls of clients\<close>

text \<open>
  \<open>Executor::apply\<close> when the lock may be poisoned: the guard against duplicates comes before the
  lock, and a transaction without instructions never takes it.
\<close>

definition locked_apply ::
  "bool \<Rightarrow> node_env \<Rightarrow> ProgramRegistry \<Rightarrow> RuntimeTransaction \<Rightarrow> Mode \<Rightarrow> unit wexec" where
  "locked_apply poisoned e reg tx mode = (\<lambda>(c, s).
     if \<not> poisoned then apply_tx e reg tx mode (c, s)
     else case msg_instructions (tx_message tx) of
         [] \<Rightarrow> apply_tx e reg tx mode (c, s)
       | instr # _ \<Rightarrow>
           (case reject_duplicate_writable
                   (map (materialize (ne_state e) s Map.empty (i_program_id instr)) (i_accounts instr)) of
              Err err \<Rightarrow> (Err (exec_error (- 32002) DuplicateAccount err), (c, s))
            | _ \<Rightarrow> (Panic, (c, s))))"

definition send_process ::
  "rpc_env \<Rightarrow> RuntimeTransaction \<Rightarrow> ctx \<Rightarrow> running \<Rightarrow> (rpc_error, bytes32) result \<times> running" where
  "send_process e tx c p =
     (let h = pr_node p in
      case admission_checks e tx h of
        Ok txid \<Rightarrow>
          (case locked_apply (pr_poisoned p) (rp_node e) (hn_registry h) tx Preflight (c, hn_state h) of
             (Ok u, (c', s')) \<Rightarrow> (Ok txid, p\<lparr>pr_node := accept e tx txid (h\<lparr>hn_state := s'\<rparr>)\<rparr>)
           | (Err err, (c', s')) \<Rightarrow>
               (Err (rpc_err (ee_code err) (PreflightFailed (ee_reason err))), p\<lparr>pr_node := h\<lparr>hn_state := s'\<rparr>\<rparr>)
           | (Panic, (c', s')) \<Rightarrow> (Panic, p\<lparr>pr_node := h\<lparr>hn_state := s'\<rparr>, pr_poisoned := True\<rparr>))
      | Err err \<Rightarrow> (Err err, p)
      | Panic \<Rightarrow> (Panic, p))"

text \<open>The database is written before the registry is locked.\<close>

definition deploy_process :: "rpc_env \<Rightarrow> bytes \<Rightarrow> bytes \<Rightarrow> running \<Rightarrow> (rpc_error, Pubkey) result \<times> running" where
  "deploy_process e elf_hex image_id_hex p =
     (case deploy_program e elf_hex image_id_hex (pr_node p) of
        Ok (pid, h) \<Rightarrow>
          if pr_poisoned p then (Panic, p\<lparr>pr_node := (pr_node p)\<lparr>hn_state := hn_state h\<rparr>\<rparr>)
          else (Ok pid, p\<lparr>pr_node := h\<rparr>)
      | Err err \<Rightarrow> (Err err, p)
      | Panic \<Rightarrow> (Panic, p))"

section \<open>Turns of the task\<close>

text \<open>The queue is drained into the batch of a new slot; with an empty queue the producer sleeps on.\<close>

definition drain_queue :: "running \<Rightarrow> running" where
  "drain_queue p =
     (let h = pr_node p in
      if hn_pending h = [] then p
      else case advance_slot (hn_state h) of (slot, s) \<Rightarrow>
        p\<lparr>pr_node := h\<lparr>hn_state := s, hn_pending := []\<rparr>, pr_task := Executing slot (hn_pending h) []\<rparr>)"

text \<open>One turn of the loop over the batch.\<close>

definition execute_next ::
  "node_env \<Rightarrow> ctx \<Rightarrow> u64 \<Rightarrow> RuntimeTransaction \<Rightarrow> RuntimeTransaction list \<Rightarrow> RuntimeTransaction list \<Rightarrow> running \<Rightarrow> running" where
  "execute_next e c slot tx batch included p =
     (let h = pr_node p in
      case message_hash (ne_tx e) (tx_message tx) :: (exec_reason, bytes32) result of
        Ok txid \<Rightarrow>
          (case locked_apply (pr_poisoned p) e (hn_registry h) tx Commit (c, hn_state h) of
             (Ok u, (c', s')) \<Rightarrow>
               p\<lparr>pr_node := h\<lparr>hn_state := s'\<rparr>, pr_task := Executing slot batch (included @ [tx]),
                 pr_committed := pr_committed p @ [tx]\<rparr>
           | (Err err, (c', s')) \<Rightarrow>
               p\<lparr>pr_node := h\<lparr>hn_state := or_keep s' (rbind (mark_failed_unless_succeeded (ne_state e) txid slot
                       (ne_text e (ee_reason err)) s') (\<lambda>(_, t). Ok t))\<rparr>,
                 pr_task := Executing slot batch included\<rparr>
           | (Panic, (c', s')) \<Rightarrow> p\<lparr>pr_node := h\<lparr>hn_state := s'\<rparr>, pr_task := Stopped, pr_poisoned := True\<rparr>)
      | _ \<Rightarrow> p\<lparr>pr_task := Stopped\<rparr>)"

definition close_block :: "node_env \<Rightarrow> u64 \<Rightarrow> u64 \<Rightarrow> u64 \<Rightarrow> RuntimeTransaction list \<Rightarrow> running \<Rightarrow> running" where
  "close_block e anchor_interval ts slot included p =
     (case form_block e anchor_interval ts slot included (hn_state (pr_node p)) of
        Ok (block, s) \<Rightarrow> p\<lparr>pr_node := (pr_node p)\<lparr>hn_state := s\<rparr>, pr_task := Waiting\<rparr>
      | _ \<Rightarrow> p\<lparr>pr_task := Stopped\<rparr>)"

text \<open>
  One turn of a follower: it syncs, counts, and may promote itself, which starts the producer on the
  same queue. The election state is the node's, shared with the handlers of votes.
\<close>

definition follow_turn ::
  "node_env \<Rightarrow> ctx \<Rightarrow> u64 option \<Rightarrow> (u64 \<Rightarrow> Block option option) \<Rightarrow> poll_answers \<Rightarrow> replica \<Rightarrow> u32 option \<Rightarrow> running \<Rightarrow> running" where
  "follow_turn e c tip fetch answers r max_misses p =
     (let h = pr_node p in
      case sync_once e (hn_registry h) tip fetch (c, hn_state h) of
        (Panic, (c', s')) \<Rightarrow> p\<lparr>pr_node := h\<lparr>hn_state := s'\<rparr>, pr_task := Stopped, pr_poisoned := True\<rparr>
      | (q, (c', s')) \<Rightarrow>
          (case poll_turn (rc_self_id r) (rc_members r) (rc_higher_peers r) max_misses (answers\<lparr>pa_synced := (q = Ok ())\<rparr>)
                  ((rc_follower r)\<lparr>fo_election := Some (hn_election h)\<rparr>) of
             (promote, f) \<Rightarrow>
               p\<lparr>pr_node := h\<lparr>hn_state := s', hn_election := (case fo_election f of Some el \<Rightarrow> el | None \<Rightarrow> hn_election h)\<rparr>,
                 pr_task := (if promote then Waiting else Following (r\<lparr>rc_follower := f\<rparr>) max_misses)\<rparr>))"

text \<open>A block whose replay takes the lock.\<close>

definition runs_program :: "Block option option \<Rightarrow> bool" where
  "runs_program b \<longleftrightarrow>
     (case b of Some (Some block) \<Rightarrow> list_ex (\<lambda>tx. msg_instructions (tx_message tx) \<noteq> []) (b_transactions block) | _ \<Rightarrow> False)"

section \<open>Runs\<close>

text \<open>
  One step of the running node. The thread-locals \<open>c\<close> are those of whichever thread runs the step, and
  the clock, the answers of other nodes and the blocks of the primary are arbitrary. A call that only
  reads is no step; a list of transactions is sent one by one.
\<close>

inductive node_step :: "rpc_env \<Rightarrow> u64 \<Rightarrow> running \<Rightarrow> running \<Rightarrow> bool" for e n where
  st_send: "send_process e tx c p = (r, p') \<Longrightarrow> node_step e n p p'"
| st_airdrop: "request_airdrop e key amount (pr_node p) = Ok (v, h) \<Longrightarrow> node_step e n p (p\<lparr>pr_node := h\<rparr>)"
| st_create: "create_account_with_faucet e key amount space (pr_node p) = Ok (a, h) \<Longrightarrow> node_step e n p (p\<lparr>pr_node := h\<rparr>)"
| st_deploy: "deploy_process e elf_hex image_id_hex p = (r, p') \<Longrightarrow> node_step e n p p'"
| st_vote: "request_vote t candidate (pr_node p) = (reply, h) \<Longrightarrow> node_step e n p (p\<lparr>pr_node := h\<rparr>)"
| st_drain: "pr_task p = Waiting \<Longrightarrow> node_step e n p (drain_queue p)"
| st_execute: "pr_task p = Executing slot (tx # batch) included \<Longrightarrow>
    node_step e n p (execute_next (rp_node e) c slot tx batch included p)"
| st_close: "pr_task p = Executing slot [] included \<Longrightarrow>
    node_step e n p (close_block (rp_node e) n ts slot included p)"
| st_follow: "pr_task p = Following r max_misses \<Longrightarrow> \<not> pr_poisoned p \<or> (\<forall>slot. \<not> runs_program (fetch slot)) \<Longrightarrow>
    node_step e n p (follow_turn (rp_node e) c tip fetch answers r max_misses p)"
| st_lock: "pr_task p = Following r max_misses \<Longrightarrow> pr_poisoned p \<Longrightarrow> node_step e n p (p\<lparr>pr_task := Stopped\<rparr>)"

inductive node_run :: "rpc_env \<Rightarrow> u64 \<Rightarrow> running \<Rightarrow> running \<Rightarrow> bool" for e n where
  run_refl: "node_run e n p p"
| run_next: "node_run e n p q \<Longrightarrow> node_step e n q r \<Longrightarrow> node_run e n p r"

section \<open>What execution and replay write\<close>

text \<open>A computation on the node that relates the database before it to the database after it.\<close>

definition moves :: "(NodeState \<Rightarrow> NodeState \<Rightarrow> bool) \<Rightarrow> (world, 'e, 'a) exec \<Rightarrow> bool" where
  "moves R m \<longleftrightarrow> (\<forall>c s. R s (snd (snd (m (c, s)))))"

lemma movesD: "moves R m \<Longrightarrow> m (c, s) = (r, (c', s')) \<Longrightarrow> R s s'"
  unfolding moves_def by (metis snd_conv)

lemma moves_read: "(\<And>s0. moves R (m s0)) \<Longrightarrow> moves R (\<lambda>(c, s). m s (c, s))"
  by (simp add: moves_def)

text \<open>
  Executing and replaying transactions write accounts, settlements, blocks, the transaction index and
  the slot. A preorder that these six writes respect is respected by the executor and by a replica.
\<close>

locale replay_writes =
  fixes e :: node_env and R :: "NodeState \<Rightarrow> NodeState \<Rightarrow> bool"
  assumes same: "R s s" and join: "R s t \<Longrightarrow> R t u \<Longrightarrow> R s u"
    and saves: "save_account (ne_state e) k a s = Ok s' \<Longrightarrow> R s s'"
    and batches: "save_accounts_atomic (ne_state e) m s = Ok s' \<Longrightarrow> R s s'"
    and settles: "R s (index_btc_settlement btc txid s)"
    and blocks: "R s (save_block slot b s)"
    and indexes: "R s (index_transaction txid slot s)"
    and slots: "R s (snd (advance_slot s))"
begin

lemma pure_moves: "moves R (xret a)" "moves R (xlift r)" "moves R (on_ctx m')" "moves R m \<Longrightarrow> moves R (xmap_err f m)"
  by (simp_all add: moves_def same on_ctx_eq xmap_err_sel)

lemma bind_moves:
  assumes "moves R m" "\<And>a. moves R (f a)"
  shows "moves R (xbind m f)"
  unfolding moves_def
proof (intro allI)
  fix c s
  obtain q c1 s1 where m: "m (c, s) = (q, (c1, s1))"
    by (metis prod.collapse)
  then have "R s s1"
    using assms(1) by (rule movesD [rotated])
  then show "R s (snd (snd (xbind m f (c, s))))"
    using assms(2) m by (cases q) (auto simp: xbind_def moves_def intro: join)
qed

lemmas moves_intros = pure_moves bind_moves moves_read

lemma settle_queue_moves: "R s (fold (settle_one e txid) queue s)"
proof (induction queue arbitrary: s)
  case (Cons x queue)
  have "R s (settle_one e txid x s)"
    by (auto simp: settle_one_def same settles split: option.split)
  then show ?case
    using Cons.IH join by simp
qed (simp add: same)

lemma settle_lending_moves: "R s (snd (settle_lending e txid accounts s))"
  by (induction accounts arbitrary: s)
    (auto simp: Let_def case_prod_unfold same split: result.splits intro: join [OF settle_queue_moves])

lemma settle_step_moves: "moves R (settle_step e mode tx instr accounts)"
proof -
  have "moves R (\<lambda>(c, s). case settle_lending e txid accounts s of (accounts', s') \<Rightarrow> (Ok accounts', (c, s')))" for txid
    by (simp add: moves_def settle_lending_moves case_prod_unfold)
  then show ?thesis
    by (auto simp: settle_step_def intro!: moves_intros)
qed

lemma apply_instructions_moves: "moves R (apply_instructions e reg tx mode instrs overlay)"
  by (induction instrs arbitrary: overlay)
    (auto simp only: apply_instructions.simps intro!: moves_intros settle_step_moves)

lemma commit_overlay_moves: "moves R (commit_overlay e overlay)"
  by (auto simp: moves_def commit_overlay_def map_err_Ok_iff same split: result.split intro: batches)

lemma apply_tx_moves: "moves R (apply_tx e reg tx mode)"
  unfolding apply_tx_def
  by (cases "mode = Commit") (auto intro!: moves_intros apply_instructions_moves commit_overlay_moves)

lemma locked_apply_moves: "moves R (locked_apply poisoned e reg tx mode)"
  using apply_tx_moves [of reg tx mode]
  by (auto simp: moves_def locked_apply_def same split: list.split result.split)

lemma save_all_moves: "moves R (save_all (ne_state e) accounts)"
  by (induction accounts) (auto simp: moves_def same split: result.split intro: join [OF saves])

lemma replay_moves: "moves R (replay_instructions e reg tx instrs)"
  by (induction instrs) (auto simp only: replay_instructions.simps intro!: moves_intros save_all_moves)

lemma replay_all_moves: "moves R (replay_all e reg txs)"
  by (induction txs) (auto simp only: replay_all.simps apply_transaction_def intro!: moves_intros replay_moves)

lemma index_all_moves: "index_all e slot txs s = (Ok s' :: (exec_reason, NodeState) result) \<Longrightarrow> R s s'"
  by (induction txs arbitrary: s) (auto simp: monad_iffs same intro: join [OF indexes])

lemma advance_to_moves: "R s (advance_to slot s)"
proof (induction slot s rule: advance_to.induct)
  case (1 slot s)
  then show ?case
    using slots [of s] by (subst advance_to.simps) (auto simp: same intro: join)
qed

lemma apply_block_moves: "moves R (apply_block e reg block)"
  unfolding apply_block_def
proof (intro moves_intros replay_all_moves)
  show "moves R (\<lambda>(c, s). let diverged = diverges (ne_state e) block s in
       case rbind (map_err StorageFailed (to_vec (sv_block (ne_state e)) block)) (\<lambda>bytes.
            index_all e (b_slot block) (b_transactions block) (save_block (b_slot block) bytes s)) of
         Ok s' \<Rightarrow> (Ok diverged, (c, advance_to (b_slot block) s'))
       | Err err \<Rightarrow> (Err err, (c, s)) | Panic \<Rightarrow> (Panic, (c, s)))" for a
    by (auto simp: moves_def Let_def monad_iffs same split: result.split
        intro: join [OF blocks join [OF index_all_moves advance_to_moves]])
qed

lemma sync_loop_moves: "moves R (sync_loop e reg fetch local target)"
proof (induction "unat target - unat local" arbitrary: local rule: less_induct)
  case less
  have "local < target \<Longrightarrow> moves R (sync_loop e reg fetch (local + 1) target)"
    by (rule less) (use word_less_nat_alt unat_bound [of target] in \<open>auto simp: word_less_nat_alt unat_add_lem [THEN iffD1]\<close>)
  then show ?case
    by (subst sync_loop.simps) (auto split: option.split intro!: moves_intros apply_block_moves)
qed

lemma sync_once_moves: "moves R (sync_once e reg tip fetch)"
  unfolding sync_once_def by (intro moves_intros sync_loop_moves)

end

section \<open>Every step writes the database through its operations\<close>

abbreviation db_steps :: "state_env \<Rightarrow> NodeState \<Rightarrow> NodeState \<Rightarrow> bool" where
  "db_steps e \<equiv> (db_step e)\<^sup>*\<^sup>*"

lemma db_steps_reach: "db_steps e s s' \<Longrightarrow> db_reach e s \<Longrightarrow> db_reach e s'"
  by (induction rule: rtranclp_induct) (auto intro: db_next)

lemma db_stepsI: "db_step e s s' \<Longrightarrow> db_steps e s s'"
  by (rule r_into_rtranclp)

lemmas db_one = db_step.intros [THEN db_stepsI]

lemma or_keep_steps: "(\<And>s'. r = Ok s' \<Longrightarrow> db_steps e s s') \<Longrightarrow> db_steps e s (or_keep s r)"
  by (cases r) auto

interpretation dbw: replay_writes e "db_steps (ne_state e)" for e
  by unfold_locales (auto intro: rtranclp_trans db_one db_slot [THEN db_stepsI, OF prod.collapse [symmetric]])

text \<open>Neither execution nor replay touches the status of a transaction.\<close>

interpretation stw: replay_writes e "\<lambda>s s'. ns_tx_status s' = ns_tx_status s" for e
  by unfold_locales (auto simp: save_account_def save_accounts_atomic_def index_btc_settlement_def save_block_def advance_slot_def
      monad_iffs Let_def store_def index_owner_def meta_put_def split: if_splits dest: save_each_status)

lemma mark_failed_steps:
  "db_steps e s (or_keep s (rbind (mark_failed_unless_succeeded e txid slot err s) (\<lambda>(_, t). Ok t)))"
  by (rule or_keep_steps) (auto simp: monad_iffs intro: db_one)

lemma finish_all_steps: "finish_all e slot txs s = (Ok s' :: (exec_reason, NodeState) result) \<Longrightarrow> db_steps (ne_state e) s s'"
proof (induction txs arbitrary: s)
  case (Cons tx txs)
  obtain txid where run: "finish_all e slot txs (or_keep (index_transaction txid slot s)
      (set_tx_status (ne_state e) txid (Succeeded slot) (index_transaction txid slot s))) = (Ok s' :: (exec_reason, NodeState) result)"
    using Cons.prems by (auto simp: monad_iffs Let_def)
  have "db_steps (ne_state e) s (index_transaction txid slot s)"
    "db_steps (ne_state e) (index_transaction txid slot s) (or_keep (index_transaction txid slot s)
      (set_tx_status (ne_state e) txid (Succeeded slot) (index_transaction txid slot s)))"
    by (auto intro: db_one or_keep_steps)
  then show ?case
    using Cons.IH [OF run] by (meson rtranclp_trans)
qed simp

lemma anchor_block_steps: "db_steps (ne_state e) s (anchor_block e n slot root s)"
  by (auto simp: anchor_block_def split: option.split intro: db_one or_keep_steps)

lemma form_block_steps: "form_block e n ts slot included s = Ok (block, s') \<Longrightarrow> db_steps (ne_state e) s s'"
  unfolding form_block_def Let_def
  by (auto simp: monad_iffs intro!: rtranclp_trans [OF db_stepsI [OF db_block] rtranclp_trans [OF finish_all_steps anchor_block_steps]])

text \<open>
  The running node refines the machine of the database: whatever a step does, the database moves by
  a sequence of the database's own operations.
\<close>

lemma save_faucet_steps:
  "request_airdrop e key amount h = Ok (v, h') \<Longrightarrow> db_steps (rp_state e) (hn_state h) (hn_state h')"
  "create_account_with_faucet e key amount space h = Ok (a, h') \<Longrightarrow> db_steps (rp_state e) (hn_state h) (hn_state h')"
  by (auto simp: request_airdrop_def create_account_with_faucet_def state_err_def map_err_iffs rbind_Ok_iff Let_def
      split: if_splits intro: db_one)

lemma send_process_steps:
  assumes "send_process e tx c p = (r, p')"
  shows "db_steps (rp_state e) (hn_state (pr_node p)) (hn_state (pr_node p'))"
proof (cases "admission_checks e tx (pr_node p)")
  case (Ok txid)
  obtain q c1 s1 where run: "locked_apply (pr_poisoned p) (rp_node e) (hn_registry (pr_node p)) tx Preflight (c, hn_state (pr_node p)) = (q, (c1, s1))"
    by (metis prod.collapse)
  have "db_steps (rp_state e) (hn_state (pr_node p)) s1"
    by (rule movesD [OF dbw.locked_apply_moves run])
  moreover have "db_steps (rp_state e) s1 (or_keep s1 (set_tx_status (rp_state e) txid Pending s1))"
    by (auto intro: db_one or_keep_steps)
  ultimately show ?thesis
    using assms Ok run by (cases q) (auto simp: send_process_def accept_def Let_def)
qed (use assms in \<open>auto simp: send_process_def Let_def\<close>)

lemma execute_next_steps:
  "db_steps (ne_state e) (hn_state (pr_node p)) (hn_state (pr_node (execute_next e c slot tx batch included p)))"
proof -
  obtain q c1 s1 where run: "locked_apply (pr_poisoned p) e (hn_registry (pr_node p)) tx Commit (c, hn_state (pr_node p)) = (q, (c1, s1))"
    by (metis prod.collapse)
  then have "db_steps (ne_state e) (hn_state (pr_node p)) s1"
    by (rule movesD [OF dbw.locked_apply_moves])
  then show ?thesis
    using run by (auto simp: execute_next_def Let_def split: result.split intro: rtranclp_trans [OF _ mark_failed_steps])
qed

lemma follow_turn_steps:
  "db_steps (ne_state e) (hn_state (pr_node p)) (hn_state (pr_node (follow_turn e c tip fetch answers r m p)))"
proof -
  obtain q c1 s1 where run: "sync_once e (hn_registry (pr_node p)) tip fetch (c, hn_state (pr_node p)) = (q, (c1, s1))"
    by (metis prod.collapse)
  then have "db_steps (ne_state e) (hn_state (pr_node p)) s1"
    by (rule movesD [OF dbw.sync_once_moves])
  then show ?thesis
    using run by (auto simp: follow_turn_def Let_def case_prod_unfold split: result.split)
qed

lemma node_step_db:
  assumes "node_step e n p p'"
  shows "db_steps (rp_state e) (hn_state (pr_node p)) (hn_state (pr_node p'))"
  using assms
proof cases
  case st_deploy
  then show ?thesis
    by (auto simp: deploy_process_def deploy_program_def rbind_Ok_iff Let_def split: result.splits if_splits intro: db_one)
next
  case st_drain
  then show ?thesis
    by (auto simp: drain_queue_def Let_def split: prod.splits intro: db_one)
next
  case st_close
  then show ?thesis
    by (auto simp: close_block_def split: result.splits intro: form_block_steps)
qed (auto simp: request_vote_def split: prod.splits
    intro: send_process_steps save_faucet_steps execute_next_steps follow_turn_steps)

section \<open>The life of a transaction\<close>

text \<open>
  The abstract view of a run: the status of each id, the ids included in the block that is being made,
  the ids still to be executed, in order, the ids committed so far, and whether the task is alive. An
  id on its way has the status \<open>Pending\<close>, and while the task is alive only such an id has it; an id
  that was committed is never to be executed again.
\<close>

definition tracked ::
  "(bytes32 \<Rightarrow> TxStatus option) \<Rightarrow> bytes32 list \<Rightarrow> bytes32 list \<Rightarrow> bytes32 list \<Rightarrow> bool \<Rightarrow> bool" where
  "tracked st included todo done_ids alive \<longleftrightarrow>
     distinct (included @ todo) \<and> (\<forall>x \<in> set (included @ todo). st x = Some Pending)
     \<and> (alive \<longrightarrow> (\<forall>x. st x = Some Pending \<longrightarrow> x \<in> set (included @ todo)))
     \<and> distinct done_ids \<and> set done_ids \<inter> set todo = {}
     \<and> (\<forall>x \<in> set done_ids. st x = Some Pending \<or> is_succeeded (st x))"

lemma tracked_accept:
  "tracked st included todo done_ids alive \<Longrightarrow> st x \<noteq> Some Pending \<Longrightarrow> \<not> is_succeeded (st x) \<Longrightarrow>
   tracked (st(x \<mapsto> Pending)) included (todo @ [x]) done_ids alive"
proof -
  assume t: "tracked st included todo done_ids alive" and x: "st x \<noteq> Some Pending" "\<not> is_succeeded (st x)"
  then have "x \<notin> set (included @ todo)" "x \<notin> set done_ids"
    unfolding tracked_def by blast+
  then show ?thesis
    using t by (simp add: tracked_def)
qed

lemma tracked_commit:
  "tracked st included (x # todo) done_ids alive \<Longrightarrow> tracked st (included @ [x]) todo (done_ids @ [x]) alive"
  unfolding tracked_def by auto

lemma tracked_fail:
  "tracked st included (x # todo) done_ids alive \<Longrightarrow> tracked (st(x \<mapsto> Failed slot err)) included todo done_ids alive"
  unfolding tracked_def by auto

lemma tracked_close:
  "tracked st included todo done_ids alive \<Longrightarrow>
   tracked (\<lambda>x. if x \<in> set included then Some (Succeeded slot) else st x) [] todo done_ids alive"
  unfolding tracked_def by auto

lemma tracked_stop:
  "tracked st included (batch @ todo) done_ids alive \<Longrightarrow> tracked st [] todo done_ids False"
  unfolding tracked_def by auto

text \<open>The view of a running node.\<close>

definition included_of :: "running \<Rightarrow> RuntimeTransaction list" where
  "included_of p = (case pr_task p of Executing slot batch included \<Rightarrow> included | _ \<Rightarrow> [])"

definition todo_of :: "running \<Rightarrow> RuntimeTransaction list" where
  "todo_of p = (case pr_task p of Executing slot batch included \<Rightarrow> batch | _ \<Rightarrow> []) @ hn_pending (pr_node p)"

definition status_in :: "rpc_env \<Rightarrow> running \<Rightarrow> bytes32 \<Rightarrow> TxStatus option" where
  "status_in e p = status_of (rp_state e) (hn_state (pr_node p))"

definition authentic :: "rpc_env \<Rightarrow> RuntimeTransaction \<Rightarrow> bool" where
  "authentic e tx \<longleftrightarrow>
     verify_signatures (ne_tx (rp_node e)) tx = (Ok True :: (rpc_error, bool) result)
     \<and> msg_chain_id (tx_message tx) = rp_chain_id e"

definition run_inv :: "rpc_env \<Rightarrow> running \<Rightarrow> bool" where
  "run_inv e p \<longleftrightarrow>
     statuses_ok (rp_state e) (hn_state (pr_node p))
     \<and> tracked (status_in e p) (map (txid_of (rp_node e)) (included_of p)) (map (txid_of (rp_node e)) (todo_of p))
         (map (txid_of (rp_node e)) (pr_committed p)) (pr_task p \<noteq> Stopped)
     \<and> (\<forall>tx \<in> set (included_of p) \<union> set (todo_of p) \<union> set (pr_committed p). authentic e tx)"

lemma mark_failed_status:
  assumes "codec_ok (sv_status e)" "codec_total (sv_status e)" "statuses_ok e s" "\<not> is_succeeded (status_of e s txid)"
    and "s' = or_keep s (rbind (mark_failed_unless_succeeded e txid slot err s) (\<lambda>(_, t). Ok t))"
  shows "statuses_ok e s'" "status_of e s' = (status_of e s)(txid \<mapsto> Failed slot err)"
proof -
  have "s' = or_keep s (set_tx_status e txid (Failed slot err) s)"
    using assms(3-5) by (cases "set_tx_status e txid (Failed slot err) s")
      (simp_all add: mark_failed_unless_succeeded_def get_tx_status_of)
  then show "statuses_ok e s'" "status_of e s' = (status_of e s)(txid \<mapsto> Failed slot err)"
    using set_status_outcome [OF assms(1-3)] by (auto simp: fun_eq_iff)
qed

lemma locked_preflight: "locked_apply poisoned e reg tx Preflight (c, s) = (r, (c', s')) \<Longrightarrow> s' = s"
  by (auto simp: locked_apply_def split: if_splits list.splits result.splits dest: preflight_frame)

lemma send_process_cases:
  assumes "send_process e tx c p = (r, p')"
  obtains (accepted) txid where "r = Ok txid" "admission_checks e tx (pr_node p) = Ok txid"
      "p' = p\<lparr>pr_node := accept e tx txid (pr_node p)\<rparr>"
    | (rejected) "\<nexists>txid. r = Ok txid" "p' \<in> {p, p\<lparr>pr_poisoned := True\<rparr>}"
proof (cases "admission_checks e tx (pr_node p)")
  case (Ok txid)
  obtain q c1 where run: "locked_apply (pr_poisoned p) (rp_node e) (hn_registry (pr_node p)) tx Preflight (c, hn_state (pr_node p))
      = (q, (c1, hn_state (pr_node p)))"
    by (metis locked_preflight prod.collapse)
  note sent = assms [unfolded send_process_def Let_def Ok run result.case prod.case]
  show ?thesis
  proof (cases q)
    case (Ok u)
    then show ?thesis
      using sent \<open>admission_checks e tx (pr_node p) = Ok txid\<close> that(1) [of txid] by simp
  qed (rule that(2); use sent in auto)+
next
  case (Err err)
  show ?thesis
    by (rule that(2)) (use assms Err in \<open>auto simp: send_process_def\<close>)
next
  case Panic
  show ?thesis
    by (rule that(2)) (use assms Panic in \<open>auto simp: send_process_def\<close>)
qed

lemma form_block_status:
  assumes "codec_ok (sv_status (ne_state e))" "codec_total (sv_status (ne_state e))" "statuses_ok (ne_state e) s"
    and "form_block e n ts slot included s = Ok (block, s')"
  shows "statuses_ok (ne_state e) s'"
    "status_of (ne_state e) s' = (\<lambda>x. if x \<in> txid_of e ` set included then Some (Succeeded slot) else status_of (ne_state e) s x)"
proof -
  obtain bytes s2 where fin: "finish_all e slot (b_transactions block) (save_block slot bytes s) = (Ok s2 :: (exec_reason, NodeState) result)"
    and new: "new_with_root (ne_tx e) slot (saturating_sub slot 1) included ts (compute_state_root (ne_state e) s) = (Ok block :: (exec_reason, Block) result)"
    and s': "s' = anchor_block e n slot (compute_state_root (ne_state e) s) s2"
    using assms(4) by (auto simp: form_block_def monad_iffs Let_def)
  have saved: "ns_tx_status (save_block slot bytes s) = ns_tx_status s" and "ns_tx_status s' = ns_tx_status s2"
    by (simp_all add: save_block_def s')
  note same = this [THEN status_of_same, of "ne_state e"]
  have "statuses_ok (ne_state e) (save_block slot bytes s)"
    using same(1) assms(3) by simp
  from finish_all_outcome [OF assms(1,2) this fin] show "statuses_ok (ne_state e) s'"
    "status_of (ne_state e) s' = (\<lambda>x. if x \<in> txid_of e ` set included then Some (Succeeded slot) else status_of (ne_state e) s x)"
    using new_with_root_Ok [OF new] same by (auto simp: outcomes_kept_def fun_eq_iff)
qed

section \<open>Every step keeps track\<close>

lemma run_invD:
  assumes "run_inv e p"
  shows "statuses_ok (rp_state e) (hn_state (pr_node p))"
    "tracked (status_in e p) (map (txid_of (rp_node e)) (included_of p)) (map (txid_of (rp_node e)) (todo_of p))
      (map (txid_of (rp_node e)) (pr_committed p)) (pr_task p \<noteq> Stopped)"
    "tx \<in> set (included_of p) \<union> set (todo_of p) \<union> set (pr_committed p) \<Longrightarrow> authentic e tx"
  using assms by (simp_all add: run_inv_def)

text \<open>What every step keeps: the invariant, that an id has a status, and that an id has succeeded.\<close>

definition track_step :: "rpc_env \<Rightarrow> running \<Rightarrow> running \<Rightarrow> bool" where
  "track_step e p p' \<longleftrightarrow> run_inv e p' \<and>
     (\<forall>x. (status_in e p x \<noteq> None \<longrightarrow> status_in e p' x \<noteq> None)
        \<and> (is_succeeded (status_in e p x) \<longrightarrow> is_succeeded (status_in e p' x)))"

lemma track_step_trans: "track_step e p q \<Longrightarrow> track_step e q r \<Longrightarrow> track_step e p r"
  by (simp add: track_step_def)

text \<open>A step that touches neither the statuses nor the transactions on their way.\<close>

lemma track_frame:
  assumes "run_inv e p" "ns_tx_status (hn_state (pr_node p')) = ns_tx_status (hn_state (pr_node p))"
    and "included_of p' = included_of p" "todo_of p' = todo_of p" "pr_committed p' = pr_committed p"
    and "pr_task p' = Stopped \<longleftrightarrow> pr_task p = Stopped"
  shows "track_step e p p'"
  using assms(1,3-6) status_of_same [OF assms(2), of "rp_state e"] by (simp add: track_step_def run_inv_def status_in_def)

text \<open>A task that panics loses its batch.\<close>

lemma track_stop:
  assumes "run_inv e p" "ns_tx_status (hn_state (pr_node p')) = ns_tx_status (hn_state (pr_node p))"
    and "hn_pending (pr_node p') = hn_pending (pr_node p)" "pr_committed p' = pr_committed p" "pr_task p' = Stopped"
  shows "track_step e p p'"
proof -
  obtain batch where todo: "todo_of p = batch @ hn_pending (pr_node p)" "todo_of p' = hn_pending (pr_node p)" "included_of p' = []"
    using assms(3,5) by (simp add: todo_of_def included_of_def)
  note inv = run_invD [OF assms(1)]
  show ?thesis
    unfolding track_step_def run_inv_def using status_of_same [OF assms(2), of "rp_state e"] inv(1,3) todo assms(4,5)
      tracked_stop [OF inv(2) [unfolded todo map_append]]
    by (auto simp: status_in_def)
qed

abbreviation statuses_encode :: "rpc_env \<Rightarrow> bool" where
  "statuses_encode e \<equiv> codec_ok (sv_status (rp_state e)) \<and> codec_total (sv_status (rp_state e))"

lemma in_flight_status:
  "statuses_ok e s \<Longrightarrow> in_flight (get_tx_status e txid s) \<longleftrightarrow> status_of e s txid = Some Pending \<or> is_succeeded (status_of e s txid)"
  unfolding get_tx_status_of by (cases "Ok (status_of e s txid) :: TxStatus option sresult" rule: in_flight.cases) auto

lemma admitted_fresh:
  assumes "run_inv e p" "admission_checks e tx (pr_node p) = Ok txid"
  shows "txid = txid_of (rp_node e) tx" "authentic e tx" "status_in e p txid \<noteq> Some Pending" "\<not> is_succeeded (status_in e p txid)"
  using assms(2) in_flight_status [OF run_invD(1) [OF assms(1)], of txid]
  by (auto simp: admission_checks_Ok_iff authentic_def status_in_def dest: message_hash_txid)

lemma send_tracks:
  assumes "statuses_encode e" "run_inv e p" "send_process e tx c p = (r, p')"
  shows "track_step e p p'"
  using assms(3)
proof (cases rule: send_process_cases)
  case (accepted txid)
  note fresh = admitted_fresh [OF assms(2) accepted(2)] and inv = run_invD [OF assms(2)]
  have view: "included_of p' = included_of p" "todo_of p' = todo_of p @ [tx]" "pr_committed p' = pr_committed p" "pr_task p' = pr_task p"
    by (simp_all add: accepted(3) accept_def included_of_def todo_of_def)
  have "statuses_ok (rp_state e) (hn_state (pr_node p'))" "status_in e p' = (status_in e p)(txid \<mapsto> Pending)"
    using set_status_outcome [of "rp_state e" "hn_state (pr_node p)" "hn_state (pr_node p')" txid Pending] assms(1) inv(1)
    by (auto simp: accepted(3) accept_def status_in_def fun_eq_iff)
  then show ?thesis
    unfolding track_step_def run_inv_def view using tracked_accept [OF inv(2) fresh(3,4)] inv(3) fresh by auto
next
  case rejected
  then show ?thesis
    using assms(2) by (auto intro: track_frame simp: included_of_def todo_of_def)
qed

lemma drain_tracks: "run_inv e p \<Longrightarrow> pr_task p = Waiting \<Longrightarrow> track_step e p (drain_queue p)"
  by (rule track_frame [of e p])
    (simp_all add: drain_queue_def advance_slot_def meta_put_def included_of_def todo_of_def Let_def)

text \<open>The three ways a transaction of the batch can go.\<close>

lemma execute_next_cases:
  assumes "p' = execute_next e c slot tx batch included p"
  obtains (commits) s where "ns_tx_status s = ns_tx_status (hn_state (pr_node p))"
      "p' = p\<lparr>pr_node := (pr_node p)\<lparr>hn_state := s\<rparr>, pr_task := Executing slot batch (included @ [tx]), pr_committed := pr_committed p @ [tx]\<rparr>"
    | (fails) s err where "ns_tx_status s = ns_tx_status (hn_state (pr_node p))"
      "p' = p\<lparr>pr_node := (pr_node p)\<lparr>hn_state := or_keep s (rbind (mark_failed_unless_succeeded (ne_state e) (txid_of e tx) slot err s)
         (\<lambda>(_, t). Ok t))\<rparr>, pr_task := Executing slot batch included\<rparr>"
    | (stops) "ns_tx_status (hn_state (pr_node p')) = ns_tx_status (hn_state (pr_node p))" "pr_task p' = Stopped"
      "hn_pending (pr_node p') = hn_pending (pr_node p)" "pr_committed p' = pr_committed p"
proof (cases "message_hash (ne_tx e) (tx_message tx) :: (exec_reason, bytes32) result")
  case (Ok txid)
  obtain q c1 s1 where run: "locked_apply (pr_poisoned p) e (hn_registry (pr_node p)) tx Commit (c, hn_state (pr_node p)) = (q, (c1, s1))"
    by (metis prod.collapse)
  then have status: "ns_tx_status s1 = ns_tx_status (hn_state (pr_node p))"
    by (rule movesD [OF stw.locked_apply_moves])
  note p' = assms [unfolded execute_next_def Let_def Ok run result.case prod.case message_hash_txid [OF Ok]]
  show ?thesis
  proof (cases q)
    case (Ok u)
    show ?thesis
      by (rule that(1) [OF status]) (simp add: p' Ok)
  next
    case (Err err)
    show ?thesis
      by (rule that(2) [OF status, of "ne_text e (ee_reason err)"]) (simp add: p' Err)
  next
    case Panic
    show ?thesis
      by (rule that(3)) (simp_all add: p' Panic status)
  qed
qed (rule that(3); simp add: assms execute_next_def)+

lemma execute_tracks:
  assumes "statuses_encode e" "run_inv e p" "pr_task p = Executing slot (tx # batch) included"
  shows "track_step e p (execute_next (rp_node e) c slot tx batch included p)" (is "track_step e p ?p")
proof -
  let ?id = "txid_of (rp_node e) tx"
  note inv = run_invD [OF assms(2)]
  have view: "included_of p = included" "todo_of p = tx # batch @ hn_pending (pr_node p)"
    using assms(3) by (simp_all add: included_of_def todo_of_def)
  have pend: "status_in e p ?id = Some Pending"
    using inv(2) by (simp add: view tracked_def)
  show ?thesis
    using refl [of ?p]
  proof (cases rule: execute_next_cases)
    case (commits s)
    show ?thesis
      using inv(1,3) status_of_same [OF commits(1), of "rp_state e"] tracked_commit [OF inv(2) [unfolded view list.map]]
      by (auto simp: commits(2) track_step_def run_inv_def status_in_def included_of_def todo_of_def view assms(3))
  next
    case (fails s err)
    note same = status_of_same [OF fails(1), of "rp_state e"]
    have "statuses_ok (rp_state e) s" "\<not> is_succeeded (status_of (rp_state e) s ?id)"
      using inv(1) same pend by (simp_all add: status_in_def)
    note marked = mark_failed_status [OF assms(1) [THEN conjunct1] assms(1) [THEN conjunct2] this refl, of slot err]
    show ?thesis
      using marked same inv(3) pend tracked_fail [OF inv(2) [unfolded view list.map], of slot err]
      by (auto simp: fails(2) track_step_def run_inv_def status_in_def included_of_def todo_of_def view assms(3))
  next
    case stops
    then show ?thesis
      by (intro track_stop [OF assms(2)])
  qed
qed

lemma close_tracks:
  assumes "statuses_encode e" "run_inv e p" "pr_task p = Executing slot [] included"
  shows "track_step e p (close_block (rp_node e) n ts slot included p)"
proof (cases "form_block (rp_node e) n ts slot included (hn_state (pr_node p))")
  case (Ok r)
  obtain block s where r: "r = (block, s)"
    by (cases r)
  note inv = run_invD [OF assms(2)]
  note status = form_block_status [OF assms(1) [THEN conjunct1] assms(1) [THEN conjunct2] inv(1) Ok [unfolded r]]
  have view: "included_of p = included" "todo_of p = hn_pending (pr_node p)"
    using assms(3) by (simp_all add: included_of_def todo_of_def)
  show ?thesis
    using status inv(3) tracked_close [OF inv(2) [unfolded view status_in_def], of slot]
    by (auto simp: close_block_def Ok r track_step_def run_inv_def status_in_def included_of_def todo_of_def view assms(3))
qed (rule track_stop [OF assms(2)]; simp add: close_block_def)+

lemma follow_tracks:
  assumes "run_inv e p" "pr_task p = Following r m"
  shows "track_step e p (follow_turn (rp_node e) c tip fetch answers r m p)" (is "track_step e p ?p")
proof -
  obtain q c1 s1 where run: "sync_once (rp_node e) (hn_registry (pr_node p)) tip fetch (c, hn_state (pr_node p)) = (q, (c1, s1))"
    by (metis prod.collapse)
  then have status: "ns_tx_status s1 = ns_tx_status (hn_state (pr_node p))"
    by (rule movesD [OF stw.sync_once_moves])
  show ?thesis
  proof (cases "q = Panic")
    case True
    show ?thesis
      by (rule track_stop [OF assms(1)]) (use run True status in \<open>simp_all add: follow_turn_def\<close>)
  next
    case False
    show ?thesis
      by (rule track_frame [OF assms(1)])
        (use run False status assms(2) in \<open>auto simp: follow_turn_def Let_def case_prod_unfold included_of_def todo_of_def split: result.splits\<close>)
  qed
qed

lemma faucet_frame:
  "request_airdrop e key amount h = Ok (v, h') \<Longrightarrow> hn_pending h' = hn_pending h \<and> ns_tx_status (hn_state h') = ns_tx_status (hn_state h)"
  "create_account_with_faucet e key amount space h = Ok (a, h') \<Longrightarrow> hn_pending h' = hn_pending h \<and> ns_tx_status (hn_state h') = ns_tx_status (hn_state h)"
  by (auto simp: request_airdrop_def create_account_with_faucet_def state_err_def map_err_iffs rbind_Ok_iff Let_def
      split: if_splits dest: stw.saves)

lemma deploy_frame:
  "deploy_process e elf_hex image_id_hex p = (r, p') \<Longrightarrow>
   hn_pending (pr_node p') = hn_pending (pr_node p) \<and> ns_tx_status (hn_state (pr_node p')) = ns_tx_status (hn_state (pr_node p))
   \<and> pr_task p' = pr_task p \<and> pr_committed p' = pr_committed p"
  by (auto simp: deploy_process_def deploy_program_def deploy_program_state_def rbind_Ok_iff Let_def split: result.splits if_splits)

lemma node_step_tracks:
  assumes "node_step e n p p'" "statuses_encode e" "run_inv e p"
  shows "track_step e p p'"
  using assms(1)
proof cases
  case st_airdrop
  then show ?thesis
    using assms(3) faucet_frame(1) by (auto intro!: track_frame [OF assms(3)] simp: included_of_def todo_of_def)
next
  case st_create
  then show ?thesis
    using assms(3) faucet_frame(2) by (auto intro!: track_frame [OF assms(3)] simp: included_of_def todo_of_def)
next
  case st_deploy
  then show ?thesis
    using deploy_frame by (intro track_frame [OF assms(3)]) (auto simp: included_of_def todo_of_def)
next
  case st_vote
  then show ?thesis
    by (auto intro!: track_frame [OF assms(3)] simp: included_of_def todo_of_def request_vote_def split: prod.splits)
next
  case st_lock
  then show ?thesis
    by (intro track_stop [OF assms(3)]) simp_all
qed (use assms(2,3) in \<open>auto intro: send_tracks drain_tracks execute_tracks close_tracks follow_tracks\<close>)

lemma node_run_tracks: "node_run e n p p' \<Longrightarrow> statuses_encode e \<Longrightarrow> run_inv e p \<Longrightarrow> track_step e p p'"
proof (induction rule: node_run.induct)
  case (run_next p q r)
  then have "track_step e p q"
    by blast
  moreover from this have "track_step e q r"
    using node_step_tracks [OF run_next.hyps(2) run_next.prems(1)] by (simp add: track_step_def)
  ultimately show ?case
    by (rule track_step_trans)
qed (simp add: track_step_def)

lemma node_run_db: "node_run e n p p' \<Longrightarrow> db_steps (rp_state e) (hn_state (pr_node p)) (hn_state (pr_node p'))"
  by (induction rule: node_run.induct) (auto intro: rtranclp_trans node_step_db)

lemma node_run_trans: "node_run e n q r \<Longrightarrow> node_run e n p q \<Longrightarrow> node_run e n p r"
  by (induction rule: node_run.induct) (auto intro: run_next)

text \<open>A node that starts on a database in which nothing is on its way.\<close>

definition ready :: "state_env \<Rightarrow> NodeState \<Rightarrow> bool" where
  "ready e s \<longleftrightarrow> statuses_ok e s \<and> (\<forall>txid. status_of e s txid \<noteq> Some Pending)"

lemma seed_genesis_frame: "seed_genesis e s = Ok s' \<Longrightarrow> ns_tx_status s' = ns_tx_status s \<and> db_steps (ne_state e) s s'"
  by (auto simp: seed_genesis_def save_block_def rbind_Ok_iff split: option.splits intro: db_one [unfolded save_block_def])

lemma start_process_view:
  assumes "start_process (rp_node e) env addr s = Ok p"
  shows "ns_tx_status (hn_state (pr_node p)) = ns_tx_status s" "db_steps (rp_state e) s (hn_state (pr_node p))"
    "included_of p = []" "todo_of p = []" "pr_task p \<noteq> Stopped" "pr_committed p = []"
proof -
  obtain s1 h role where opened: "open_state (rp_state e) s = Ok s1"
    and start: "start_node (rp_node e) env addr s1 = Ok (h, role)"
    and p: "p = \<lparr> pr_node = h, pr_poisoned = False,
      pr_task = start_task role (text_of (self_id_of env addr)) (hn_election h), pr_committed = [] \<rparr>"
    using assms by (auto simp: start_process_def rbind_Ok_iff)
  have seeded: "seed_genesis (rp_node e) s1 = Ok (hn_state h)" "hn_pending h = []"
    using start by (auto simp: start_node_def rbind_Ok_iff Let_def)
  show "ns_tx_status (hn_state (pr_node p)) = ns_tx_status s"
    using seed_genesis_frame [OF seeded(1)] opened
    by (auto simp: p open_state_def backfill_owner_index_def rbind_Ok_iff meta_put_def split: if_splits)
  show "db_steps (rp_state e) s (hn_state (pr_node p))"
    using seed_genesis_frame [OF seeded(1)] db_open [OF opened, THEN db_stepsI] by (auto simp: p intro: rtranclp_trans)
  show "included_of p = []" "todo_of p = []" "pr_task p \<noteq> Stopped" "pr_committed p = []"
    by (auto simp: p included_of_def todo_of_def start_task_def seeded(2) split: role.split)
qed

lemma start_process_inv:
  assumes "start_process (rp_node e) env addr s = Ok p" "ready (rp_state e) s"
  shows "run_inv e p"
  using assms(2) status_of_same [OF start_process_view(1) [OF assms(1)], of "rp_state e"] start_process_view(3-) [OF assms(1)]
  by (simp add: run_inv_def tracked_def status_in_def ready_def)

section \<open>What a running node keeps\<close>

lemma pending_on_its_way:
  assumes "run_inv e p" "pr_task p \<noteq> Stopped" "status_in e p txid = Some Pending"
  obtains tx where "tx \<in> set (included_of p @ todo_of p)" "txid_of (rp_node e) tx = txid" "authentic e tx"
proof -
  have "txid \<in> txid_of (rp_node e) ` set (included_of p @ todo_of p)"
    using run_invD(2) [OF assms(1)] assms(2,3) by (simp add: tracked_def image_Un)
  then show thesis
    using that run_invD(3) [OF assms(1)] by auto
qed

lemma on_its_way_pending:
  assumes "run_inv e p" "tx \<in> set (included_of p @ todo_of p)"
  shows "status_in e p (txid_of (rp_node e) tx) = Some Pending"
proof -
  have "\<forall>x \<in> txid_of (rp_node e) ` set (included_of p @ todo_of p). status_in e p x = Some Pending"
    using run_invD(2) [OF assms(1)] by (simp add: tracked_def image_Un)
  then show ?thesis
    using assms(2) by blast
qed

lemma committed_over:
  assumes "run_inv e p" "tx \<in> set (pr_committed p)"
  shows "status_in e p (txid_of (rp_node e) tx) = Some Pending \<or> is_succeeded (status_in e p (txid_of (rp_node e) tx))"
    "txid_of (rp_node e) tx \<notin> txid_of (rp_node e) ` set (todo_of p)"
proof -
  have "(\<forall>x \<in> txid_of (rp_node e) ` set (pr_committed p). status_in e p x = Some Pending \<or> is_succeeded (status_in e p x))
    \<and> txid_of (rp_node e) ` set (pr_committed p) \<inter> txid_of (rp_node e) ` set (todo_of p) = {}"
    using run_invD(2) [OF assms(1)] by (simp add: tracked_def)
  then show "status_in e p (txid_of (rp_node e) tx) = Some Pending \<or> is_succeeded (status_in e p (txid_of (rp_node e) tx))"
    "txid_of (rp_node e) tx \<notin> txid_of (rp_node e) ` set (todo_of p)"
    using assms(2) by blast+
qed

lemma refuses_known:
  assumes "run_inv e p" "status_in e p (txid_of (rp_node e) tx) = Some Pending \<or> is_succeeded (status_in e p (txid_of (rp_node e) tx))"
  shows "fst (send_process e tx c p) \<noteq> Ok txid"
proof
  assume "fst (send_process e tx c p) = Ok txid"
  then have "send_process e tx c p = (Ok txid, snd (send_process e tx c p))"
    by (metis prod.collapse)
  then show False
    using admitted_fresh [OF assms(1)] assms(2) by (cases rule: send_process_cases) auto
qed

lemma reachable_inv:
  assumes "codec_ok (sv_status (rp_state e))" "codec_total (sv_status (rp_state e))"
    and "ready (rp_state e) s" "start_process (rp_node e) env addr s = Ok p" "node_run e n p q"
  shows "run_inv e q"
  using node_run_tracks [OF assms(5)] start_process_inv [OF assms(4,3)] assms(1,2) by (simp add: track_step_def)




text \<open>
  C3. A running node answers from a consistent database: from any database its own operations can
  build, and through any interleaving of calls, block production and replication, the accounts that
  \<open>getProgramAccounts\<close> lists through the owner index are the accounts of \<open>getAllAccounts\<close> with that
  owner, and the number of accounts in the statistics is the length of that list.
\<close>

theorem node_answers_match_scan:
  assumes "codec_ok (sv_stored (rp_state e))" "db_reach (rp_state e) s" "rp_key e text = Some owner"
    and "start_process (rp_node e) env addr s = Ok p" "node_run e n p q"
  shows "\<exists>all. get_all_accounts e 0 (pr_node q) = Ok all
    \<and> get_program_accounts e text (pr_node q) = Ok (filter (\<lambda>a. a_owner a = owner) all)
    \<and> nst_accounts (get_stats order (pr_node q)) = word_of_nat (length all)"
proof -
  have "db_reach (rp_state e) (hn_state (pr_node q))"
    using db_steps_reach [OF node_run_db [OF assms(5)] db_steps_reach [OF start_process_view(2) [OF assms(4)] assms(2)]] .
  from owner_index_scan [OF db_reach_index_ok [OF this assms(1)], of owner] show ?thesis
    using assms(3) by (auto simp: get_all_accounts_def get_program_accounts_def parse_key_def state_err_def get_stats_def case_prod_unfold)
qed

section \<open>An undisturbed round is a round of the producer\<close>

lemma execute_batch_runs:
  assumes "execute_batch (rp_node e) (hn_registry (pr_node p)) slot batch (c, hn_state (pr_node p)) = (Ok passed, (c', s'))"
    and "pr_task p = Executing slot batch included" "\<not> pr_poisoned p"
  shows "node_run e n p (p\<lparr>pr_node := (pr_node p)\<lparr>hn_state := s'\<rparr>, pr_task := Executing slot [] (included @ passed),
    pr_committed := pr_committed p @ passed\<rparr>)"
  using assms
proof (induction batch arbitrary: p c included passed)
  case Nil
  have "p\<lparr>pr_node := (pr_node p)\<lparr>hn_state := hn_state (pr_node p)\<rparr>, pr_task := Executing slot [] included, pr_committed := pr_committed p\<rparr> = p"
    using Nil(2) by simp
  then show ?case
    using Nil(1) run_refl [of e n p] by auto
next
  case (Cons tx batch)
  obtain txid where hash: "message_hash (ne_tx (rp_node e)) (tx_message tx) = (Ok txid :: (exec_reason, bytes32) result)"
    using Cons.prems(1) by (auto split: result.splits)
  obtain r c1 s1 where run: "apply_tx (rp_node e) (hn_registry (pr_node p)) tx Commit (c, hn_state (pr_node p)) = (r, (c1, s1))"
    by (metis prod.collapse)
  let ?p = "execute_next (rp_node e) c slot tx batch included p"
  have step: "node_run e n p ?p"
    by (rule run_next [OF run_refl st_execute]) (rule Cons.prems(2))
  show ?case
  proof (cases r)
    case (Ok u)
    then obtain rest where passed: "passed = tx # rest"
        "execute_batch (rp_node e) (hn_registry (pr_node p)) slot batch (c1, s1) = (Ok rest, (c', s'))"
      using Cons.prems(1) hash run by (auto simp: monad_iffs)
    have p: "?p = p\<lparr>pr_node := (pr_node p)\<lparr>hn_state := s1\<rparr>, pr_task := Executing slot batch (included @ [tx]), pr_committed := pr_committed p @ [tx]\<rparr>"
      using hash run Ok Cons.prems(3) by (simp add: execute_next_def locked_apply_def)
    show ?thesis
      using Cons.IH [of ?p c1 rest "included @ [tx]"] passed Cons.prems(3) node_run_trans [OF _ step] by (simp add: p)
  next
    case (Err err)
    let ?s = "or_keep s1 (rbind (mark_failed_unless_succeeded (rp_state e) txid slot (ne_text (rp_node e) (ee_reason err)) s1) (\<lambda>(_, t). Ok t))"
    have p: "?p = p\<lparr>pr_node := (pr_node p)\<lparr>hn_state := ?s\<rparr>, pr_task := Executing slot batch included\<rparr>"
      using hash run Err Cons.prems(3) by (simp add: execute_next_def locked_apply_def)
    show ?thesis
      using Cons.IH [of ?p c1 passed included] Cons.prems(1,3) hash run Err node_run_trans [OF _ step] by (simp add: p)
  qed (use Cons.prems(1) hash run in simp)
qed

text \<open>
  When nothing comes in between, the turns of the task compute the same as \<open>produce_block\<close> on the
  queue, so what is shown of a produced block holds of a running node.
\<close>

theorem round_runs_produce_block:
  assumes "produce_block (rp_node e) (hn_registry (pr_node p)) n ts (hn_pending (pr_node p)) (c, hn_state (pr_node p)) = (Ok (Some block), (c', s'))"
    and "pr_task p = Waiting" "\<not> pr_poisoned p"
  shows "node_run e n p (p\<lparr>pr_node := (pr_node p)\<lparr>hn_state := s', hn_pending := []\<rparr>, pr_task := Waiting,
    pr_committed := pr_committed p @ b_transactions block\<rparr>)"
proof -
  let ?h = "pr_node p"
  obtain slot s0 where slot: "advance_slot (hn_state ?h) = (slot, s0)"
    by (cases "advance_slot (hn_state ?h)")
  obtain included s1 where some: "hn_pending ?h \<noteq> []"
    and run: "execute_batch (rp_node e) (hn_registry ?h) slot (hn_pending ?h) (c, s0) = (Ok included, (c', s1))"
    and form: "form_block (rp_node e) n ts slot included s1 = Ok (block, s')"
    using assms(1) slot by (auto simp: produce_block_def monad_iffs committed_iff split: if_splits)
  have "new_with_root (ne_tx (rp_node e)) slot (saturating_sub slot 1) included ts (compute_state_root (rp_state e) s1)
      = (Ok block :: (exec_reason, Block) result)"
    using form by (auto simp: form_block_def monad_iffs Let_def)
  then have incl: "b_transactions block = included"
    by (rule new_with_root_Ok(3))
  define p1 where "p1 = drain_queue p"
  have p1: "p1 = p\<lparr>pr_node := ?h\<lparr>hn_state := s0, hn_pending := []\<rparr>, pr_task := Executing slot (hn_pending ?h) []\<rparr>"
    using some slot by (simp add: p1_def drain_queue_def Let_def)
  have "node_run e n p p1"
    unfolding p1_def by (rule run_next [OF run_refl st_drain [OF assms(2)]])
  moreover define p2 where "p2 = p1\<lparr>pr_node := (pr_node p1)\<lparr>hn_state := s1\<rparr>, pr_task := Executing slot [] included,
      pr_committed := pr_committed p1 @ included\<rparr>"
  have "node_run e n p1 p2"
    using execute_batch_runs [of e p1 slot "hn_pending ?h" c included c' s1 "[]" n] run assms(3) by (simp add: p1 p2_def)
  moreover have "node_step e n p2 (close_block (rp_node e) n ts slot included p2)"
    by (rule st_close) (simp add: p2_def)
  ultimately have "node_run e n p (close_block (rp_node e) n ts slot included p2)"
    by (meson node_run_trans run_next)
  moreover have "close_block (rp_node e) n ts slot included p2 = p\<lparr>pr_node := ?h\<lparr>hn_state := s', hn_pending := []\<rparr>,
      pr_task := Waiting, pr_committed := pr_committed p @ b_transactions block\<rparr>"
    using form incl by (simp add: close_block_def p2_def p1)
  ultimately show ?thesis
    by simp
qed

section \<open>Where acknowledgement is not enough\<close>

text \<open>
  A program that panics while a client's transaction is tried leaves the lock poisoned, and then the
  node accepts no transaction with an instruction any more, whoever sends it.
\<close>

lemma locked_apply_poisoned:
  "msg_instructions (tx_message tx) \<noteq> [] \<Longrightarrow> fst (locked_apply True e reg tx mode (c, s)) \<noteq> Ok ()"
  by (auto simp: locked_apply_def neq_Nil_conv split: result.splits)

text \<open>
  It takes one call of anybody: an instruction of the system program to create an account, with a
  single account that it flags as signer itself, makes the program index past its accounts.
\<close>

lemma create_without_target_panics:
  assumes "decode (be_system b) data = Some (Sys_CreateAccount 0 space owner)" "a_is_signer a"
  shows "fst (dispatch b (system_program (be_sha b)) ts [a] data c) = Panic"
proof -
  have "checked_sub (a_lamports a) 0 = Some (a_lamports a)"
    by (simp add: checked_sub_def)
  then have "system_process (be_system b) [a] data = Panic"
    using assms by (simp add: system_process_def sys_process_create_account_def ensure_signers_def deduct_lamports_def index_at_def)
  then show ?thesis
    by (simp add: dispatch_def run_builtin_def pure_program_def xbind_def xlift_def)
qed

theorem malformed_call_poisons:
  assumes "admission_checks e tx (pr_node p) = Ok txid" "\<not> pr_poisoned p"
    and "msg_instructions (tx_message tx) = \<lparr> i_program_id = system_program (vm_sha (ne_vm (rp_node e))), i_accounts = [meta], i_data = data \<rparr> # rest"
    and "am_is_signer meta" "decode (be_system (vm_builtins (ne_vm (rp_node e)))) data = Some (Sys_CreateAccount 0 space owner)"
  shows "send_process e tx c p = (Panic, p\<lparr>pr_poisoned := True\<rparr>)"
proof -
  let ?pid = "system_program (vm_sha (ne_vm (rp_node e)))"
  let ?a = "materialize (rp_state e) (hn_state (pr_node p)) Map.empty ?pid meta"
  have "fst (dispatch (vm_builtins (ne_vm (rp_node e))) ?pid (msg_timestamp (tx_message tx)) [?a] data c) = Panic"
    by (rule create_without_target_panics [OF assms(5)]) (simp add: materialize_def with_flags_def assms(4))
  moreover have "reject_duplicate_writable [?a] = Ok ()" "is_builtin (vm_sha (ne_vm (rp_node e))) ?pid"
    by (simp_all add: is_builtin_def builtins_def)
  ultimately have "fst (run_instruction (rp_node e) (hn_registry (pr_node p)) (msg_timestamp (tx_message tx))
      \<lparr> i_program_id = ?pid, i_accounts = [meta], i_data = data \<rparr> [?a] c) = Panic"
    by (simp add: run_instruction_def execute_program_def execute_native_def xbind_def xmap_err_def xlift_def case_prod_unfold split: result.split)
  then have "fst (apply_tx (rp_node e) (hn_registry (pr_node p)) tx Preflight (c, hn_state (pr_node p))) = Panic"
    by (simp add: apply_tx_def assms(3) xbind_def on_ctx_eq split: result.split)
  then obtain c' s' where run: "apply_tx (rp_node e) (hn_registry (pr_node p)) tx Preflight (c, hn_state (pr_node p)) = (Panic, (c', s'))"
    by (metis prod.collapse)
  then have "s' = hn_state (pr_node p)"
    by (rule preflight_frame)
  then show ?thesis
    using run assms(1,2) by (simp add: send_process_def locked_apply_def)
qed

lemma poisoned_stays: "node_step e n p p' \<Longrightarrow> pr_poisoned p \<Longrightarrow> pr_poisoned p'"
proof (induction rule: node_step.induct)
  case (st_send tx c p r p')
  then show ?case
    by (cases rule: send_process_cases) auto
qed (auto simp: deploy_process_def drain_queue_def execute_next_def close_block_def follow_turn_def Let_def case_prod_unfold
    split: result.splits if_splits prod.splits)

theorem poisoned_node_refuses:
  assumes "node_run e n p q" "pr_poisoned p" "msg_instructions (tx_message tx) \<noteq> []"
  shows "fst (send_process e tx c q) \<noteq> Ok txid \<and> snd (send_process e tx c q) = q"
proof -
  have q: "pr_poisoned q"
    using assms(1,2) by (induction rule: node_run.induct) (auto dest: poisoned_stays)
  obtain r c' s' where run: "locked_apply True (rp_node e) (hn_registry (pr_node q)) tx Preflight (c, hn_state (pr_node q)) = (r, (c', s'))"
    by (metis prod.collapse)
  then have "r \<noteq> Ok ()" "s' = hn_state (pr_node q)"
    using locked_apply_poisoned [OF assms(3), of "rp_node e" "hn_registry (pr_node q)" Preflight c "hn_state (pr_node q)"]
      locked_preflight [OF run] by simp_all
  then show ?thesis
    using run q by (cases r) (auto simp: send_process_def Let_def split: result.splits)
qed

text \<open>
  A replica without failover takes transactions and acknowledges them like any node, and nobody ever
  executes its queue: what was acknowledged stays pending for as long as the replica runs.
\<close>

lemma replica_step:
  assumes "node_step e n p p'" "(\<exists>r. pr_task p = Following r None) \<or> pr_task p = Stopped"
  shows "((\<exists>r'. pr_task p' = Following r' None) \<or> pr_task p' = Stopped)
    \<and> pr_committed p' = pr_committed p \<and> set (hn_pending (pr_node p)) \<subseteq> set (hn_pending (pr_node p'))"
  using assms
proof (induction rule: node_step.induct)
  case (st_send tx c p r' p')
  then show ?case
    by (cases rule: send_process_cases) (auto simp: accept_def)
next
  case (st_follow p r' m fetch c tip answers)
  moreover from this have "m = None"
    by simp
  ultimately show ?case
    by (auto simp: follow_turn_def poll_turn_def should_promote_def Let_def case_prod_unfold split: result.splits)
qed (auto simp: request_vote_def dest: faucet_frame deploy_frame split: prod.splits)

theorem replica_never_executes:
  assumes "codec_ok (sv_status (rp_state e))" "codec_total (sv_status (rp_state e))" "run_inv e p"
    and "node_run e n p q" "pr_task p = Following r None" "tx \<in> set (hn_pending (pr_node p))"
  shows "tx \<in> set (hn_pending (pr_node q)) \<and> pr_committed q = pr_committed p
    \<and> status_in e q (txid_of (rp_node e) tx) = Some Pending"
proof -
  have "((\<exists>r'. pr_task q = Following r' None) \<or> pr_task q = Stopped)
    \<and> pr_committed q = pr_committed p \<and> set (hn_pending (pr_node p)) \<subseteq> set (hn_pending (pr_node q))"
    using assms(4,5)
  proof (induction rule: node_run.induct)
    case (run_next p q q')
    note before = run_next.IH [OF run_next.prems]
    show ?case
      using before replica_step [OF run_next.hyps(2) before [THEN conjunct1]] by auto
  qed auto
  moreover have "run_inv e q"
    using node_run_tracks [OF assms(4) conjI [OF assms(1,2)] assms(3)] by (simp add: track_step_def)
  ultimately show ?thesis
    using assms(6) on_its_way_pending [of e q tx] by (auto simp: todo_of_def)
qed

text \<open>
  The queue lives in memory and the status in the database: a transaction that was pending when the
  node stopped is not on its way after the restart, and sending it again is refused.
\<close>

theorem restart_strands_pending:
  assumes "start_process (rp_node e) env addr s = Ok p" "statuses_ok (rp_state e) s" "status_of (rp_state e) s txid = Some Pending"
    and "txid_of (rp_node e) tx = txid"
  shows "included_of p = [] \<and> todo_of p = [] \<and> status_in e p txid = Some Pending \<and> fst (send_process e tx c p) \<noteq> Ok txid'"
proof -
  note view = start_process_view [OF assms(1)]
  note same = status_of_same [OF view(1), of "rp_state e"]
  have "fst (send_process e tx c p) \<noteq> Ok txid'"
  proof
    assume "fst (send_process e tx c p) = Ok txid'"
    then have "send_process e tx c p = (Ok txid', snd (send_process e tx c p))"
      by (metis prod.collapse)
    then have "admission_checks e tx (pr_node p) = Ok txid'"
      by (cases rule: send_process_cases) auto
    then have "txid' = txid" "\<not> in_flight (get_tx_status (rp_state e) txid' (hn_state (pr_node p)))"
      using assms(4) by (auto simp: admission_checks_Ok_iff dest: message_hash_txid)
    then show False
      using in_flight_status [of "rp_state e" "hn_state (pr_node p)" txid] same assms(2,3) by simp
  qed
  then show ?thesis
    using view same assms(3) by (simp add: status_in_def)
qed

text \<open>
  A promoted follower executes its queue as it is: whether a transaction is already in a block that it
  replicated is not looked at again. A transaction that was sent to the primary and to the follower is
  executed by both.
\<close>

lemma promoted_executes_again:
  assumes "pr_task p = Waiting" "\<not> pr_poisoned p" "hn_pending (pr_node p) = [tx]"
    and "message_hash (ne_tx (rp_node e)) (tx_message tx) = (Ok txid :: (exec_reason, bytes32) result)"
    and "tx_slot txid (hn_state (pr_node p)) = Some slot"
    and "apply_tx (rp_node e) (hn_registry (pr_node p)) tx Commit (c, snd (advance_slot (hn_state (pr_node p)))) = (Ok (), (c', s'))"
  shows "\<exists>q. node_run e n p q \<and> pr_committed q = pr_committed p @ [tx] \<and> hn_state (pr_node q) = s'"
proof -
  have two: "node_run e n p (execute_next (rp_node e) c slot' tx [] [] (drain_queue p))"
    if "pr_task (drain_queue p) = Executing slot' [tx] []" for slot'
    by (rule run_next [OF run_next [OF run_refl st_drain [OF assms(1)]] st_execute [OF that]])
  obtain slot' s0 where slot: "advance_slot (hn_state (pr_node p)) = (slot', s0)"
    by (cases "advance_slot (hn_state (pr_node p))")
  then have drained: "drain_queue p = p\<lparr>pr_node := (pr_node p)\<lparr>hn_state := s0, hn_pending := []\<rparr>, pr_task := Executing slot' [tx] []\<rparr>"
    using assms(3) by (simp add: drain_queue_def Let_def)
  let ?q = "execute_next (rp_node e) c slot' tx [] [] (drain_queue p)"
  have "pr_committed ?q = pr_committed p @ [tx]" "hn_state (pr_node ?q) = s'"
    using assms(2,4,6) slot by (simp_all add: execute_next_def drained locked_apply_def)
  then show ?thesis
    using two [of slot'] by (auto simp: drained)
qed

text \<open>
  \<open>send_transaction\<close> checks and accepts in separate steps. When two calls with the same transaction
  both pass the checks before either has marked it, the queue holds it twice.
\<close>

lemma interleaved_sends_queue_twice:
  assumes "admission_checks e tx h = Ok txid"
    and "fst (apply_tx (rp_node e) (hn_registry h) tx Preflight (c, hn_state h)) = Ok ()"
  shows "\<exists>c'. send_transaction e tx (c, h) = (Ok txid, (c', accept e tx txid h))
    \<and> hn_pending (accept e tx txid (accept e tx txid h)) = hn_pending h @ [tx, tx]"
proof -
  obtain c' s' where run: "apply_tx (rp_node e) (hn_registry h) tx Preflight (c, hn_state h) = (Ok (), (c', s'))"
    using assms(2) by (metis prod.collapse)
  moreover from this have "s' = hn_state h"
    by (rule preflight_frame)
  ultimately show ?thesis
    using assms(1) by (simp add: send_transaction_def accept_def)
qed

section \<open>A run\<close>

text \<open>A block with one transaction that does nothing, on any database.\<close>

lemma quiet_block:
  assumes env: "ne_tx e = sample_tx_env"
  shows "\<exists>block s'. produce_block e reg n ts [bare_tx] (c, s) = (Ok (Some block), (c, s'))
    \<and> b_transactions block = [bare_tx] \<and> ns_accounts s' = ns_accounts s"
proof -
  obtain slot s0 where slot: "advance_slot s = (slot, s0)" and acc: "ns_accounts s0 = ns_accounts s"
    by (simp add: advance_slot_def Let_def)
  have "apply_tx e reg bare_tx Commit (c, s0) = (Ok (), (c, s0))"
    by (simp add: apply_tx_def bare_tx_def tx_new_def message_new_def xbind_def xret_def commit_overlay_def save_accounts_atomic_def)
  then have run: "execute_batch e reg slot [bare_tx] (c, s0) = (Ok [bare_tx], (c, s0))"
    by (simp add: env bare_hash xbind_def xret_def)
  obtain block where block: "new_with_root sample_tx_env slot (saturating_sub slot 1) [bare_tx] ts
      (compute_state_root (ne_state e) s0) = (Ok block :: (exec_reason, Block) result)" "b_transactions block = [bare_tx]"
    by (simp add: new_with_root_def bare_hash)
  obtain s2 where fin: "finish_all e slot [bare_tx] (save_block slot
      (case encode (sv_block (ne_state e)) block of Some b \<Rightarrow> b | None \<Rightarrow> []) s0) = (Ok s2 :: (exec_reason, NodeState) result)"
    by (simp add: env bare_hash Let_def)
  have "produce_block e reg n ts [bare_tx] (c, s) =
      (Ok (Some block), (c, anchor_block e n slot (compute_state_root (ne_state e) s0) s2))"
    using run block fin by (simp add: produce_block_def form_block_def slot xbind_def env Let_def del: execute_batch.simps finish_all.simps)
  moreover have "ns_accounts s2 = ns_accounts s"
    using finish_all_accounts [OF fin] acc by (simp add: save_block_def)
  ultimately show ?thesis
    using block(2) by auto
qed

text \<open>A producer on a database with a genesis block, and what it does with one transaction.\<close>

definition run_rpc :: rpc_env where
  "run_rpc = sample_rpc\<lparr>rp_node := sample_node\<lparr>ne_tx := sample_tx_env\<rparr>, rp_key := (\<lambda>_. Some 5), rp_faucet := Some 1000\<rparr>"

definition genesis_db :: NodeState where
  "genesis_db = empty_state\<lparr>ns_blocks := [0 \<mapsto> []]\<rparr>"

definition run_start :: running where
  "run_start = \<lparr> pr_node = \<lparr> hn_state = genesis_db, hn_registry = register_native (vm_sha (ne_vm sample_node)),
     hn_pending = [], hn_election = become_leader (text_of (ascii ''http://'')) default_election \<rparr>,
     pr_poisoned = False, pr_task = Waiting, pr_committed = [] \<rparr>"

lemma run_env: "statuses_encode run_rpc" "ready (rp_state run_rpc) genesis_db" "ne_tx (rp_node run_rpc) = sample_tx_env"
  by (simp_all add: run_rpc_def sample_rpc_def sample_node_def ready_def statuses_ok_def status_of_def genesis_db_def empty_state_def)

lemma run_started: "start_process (rp_node run_rpc) Map.empty [] genesis_db = Ok run_start"
  by (simp add: start_process_def open_state_def backfill_owner_index_def start_node_def seed_genesis_def load_block_def
      genesis_db_def empty_state_def node_role_def start_task_def self_id_of_def run_start_def run_rpc_def Let_def)

lemma run_admits: "admission_checks run_rpc bare_tx (pr_node run_start) = Ok 1"
proof -
  have "block_at (rp_state run_rpc) 0 genesis_db = Some sample_genesis" "current_slot genesis_db = 0"
    by (simp_all add: block_at_def load_block_def run_rpc_def sample_rpc_def sample_node_def genesis_db_def empty_state_def
        current_slot_def meta_get_def)
  then have "0 \<in> recent_blockhashes (rp_state run_rpc) MAX_BLOCKHASH_AGE genesis_db"
    by (auto simp: recent_blockhashes_iff sample_genesis_def intro!: exI [of _ 0])
  moreover have hash: "message_hash sample_tx_env (tx_message bare_tx) = (Ok 1 :: (rpc_error, bytes32) result)"
    by (rule bare_hash)
  moreover have "verify_signatures sample_tx_env bare_tx = (Ok True :: (rpc_error, bool) result)"
    unfolding verify_signatures_def hash by (simp add: bare_tx_def tx_new_def message_new_def)
  moreover have "msg_chain_id (tx_message bare_tx) = rp_chain_id run_rpc" "msg_recent_blockhash (tx_message bare_tx) = 0"
    "tx_slot 1 genesis_db = None" "\<not> in_flight (get_tx_status (rp_state run_rpc) 1 genesis_db)"
    by (simp_all add: bare_tx_def tx_new_def message_new_def run_rpc_def sample_rpc_def genesis_db_def empty_state_def
        tx_slot_def get_tx_status_def)
  ultimately show ?thesis
    by (simp add: admission_checks_Ok_iff run_env(3) run_start_def)
qed

lemma run_sends:
  "send_process run_rpc bare_tx c run_start = (Ok 1, run_start\<lparr>pr_node := accept run_rpc bare_tx 1 (pr_node run_start)\<rparr>)"
proof -
  have "locked_apply False e reg bare_tx Preflight (c, s) = (Ok (), (c, s))" for e reg s
    by (simp add: locked_apply_def apply_tx_def bare_tx_def tx_new_def message_new_def xbind_def xret_def)
  then show ?thesis
    using run_admits by (simp add: send_process_def run_start_def)
qed

lemma run_produces:
  obtains q where "node_run run_rpc 0 (run_start\<lparr>pr_node := accept run_rpc bare_tx 1 (pr_node run_start)\<rparr>) q"
    "pr_committed q = [bare_tx]" "pr_task q = Waiting"
proof -
  let ?p = "run_start\<lparr>pr_node := accept run_rpc bare_tx 1 (pr_node run_start)\<rparr>"
  obtain block s' where block: "produce_block (rp_node run_rpc) (hn_registry (pr_node ?p)) 0 9 [bare_tx] (fresh_ctx, hn_state (pr_node ?p))
      = (Ok (Some block), (fresh_ctx, s'))" "b_transactions block = [bare_tx]"
    using quiet_block [OF run_env(3)] by blast
  have p: "hn_pending (pr_node ?p) = [bare_tx]" "pr_task ?p = Waiting" "\<not> pr_poisoned ?p"
    by (simp_all add: accept_def run_start_def)
  note run = round_runs_produce_block [of run_rpc ?p 0 9 fresh_ctx block fresh_ctx s', unfolded p(1), OF block(1) p(2,3)]
  show thesis
    using that [OF run] block(2) by (simp add: run_start_def)
qed




theorem node_answers_match_scan_witness:
  "\<exists>q all. node_run run_rpc 0 run_start q \<and> all \<noteq> [] \<and> get_all_accounts run_rpc 0 (pr_node q) = Ok all
    \<and> get_program_accounts run_rpc [] (pr_node q) = Ok (filter (\<lambda>a. a_owner a = 5) all)"
proof -
  have codec: "codec_ok (sv_stored (rp_state run_rpc))"
    by (simp add: run_rpc_def sample_rpc_def sample_node_def)
  have "save_block 0 [] empty_state = genesis_db"
    by (simp add: save_block_def genesis_db_def empty_state_def)
  then have reach: "db_reach (rp_state run_rpc) genesis_db"
    by (metis db_new db_next db_block)
  obtain v h where drop: "request_airdrop run_rpc [] 7 (pr_node run_start) = Ok (v, h)" and acc: "fst (stats (hn_state h)) = 1"
    by (simp add: stats_def meta_put_def meta_get_def request_airdrop_def faucet_guard_def parse_key_def run_rpc_def sample_rpc_def sample_node_def run_start_def genesis_db_def empty_state_def
        load_account_def state_err_def save_account_def to_vec_def plain_codec_def store_def index_owner_def prior_owner_def Let_def)
  have run: "node_run run_rpc 0 run_start (run_start\<lparr>pr_node := h\<rparr>)" (is "node_run _ _ _ ?q")
    by (rule run_next [OF run_refl st_airdrop [OF drop]])
  have "rp_key run_rpc [] = Some 5"
    by (simp add: run_rpc_def)
  from node_answers_match_scan [OF codec reach this run_started run] obtain all where
    "get_all_accounts run_rpc 0 (pr_node ?q) = Ok all" "get_program_accounts run_rpc [] (pr_node ?q) = Ok (filter (\<lambda>a. a_owner a = 5) all)"
    and "nst_accounts (get_stats (\<lambda>_. []) (pr_node ?q)) = word_of_nat (length all)"
    by blast
  moreover from this(3) have "all \<noteq> []"
    using acc by (auto simp: get_stats_def case_prod_unfold)
  ultimately show ?thesis
    using run by blast
qed

end
