(* ===== verification/Spec2Isabelle.thy ===== *)
theory Spec2Isabelle
  imports Merkle System_Program Token_Program Ata_Program Swap_Program Oracle_Program Nft_Program
    Runes_Program Lending_Program Money_Market Vault_Program Transaction Vm
    Tables Node_State Node_Exec Follower Duplicate_Accounts Block_Producer Election Rpc
    Text Threshold Custody Settlement_Tx Bitcoin_Indexer Json Lightning Cli Key_Text Node_Services Node_Run
begin

text \<open>
  Verification of the HIMSHA network, a programmable ledger that settles on Bitcoin (the Rust crates
  under \<open>src/himsha-*\<close>). This theory imports the whole development, says what it models and what
  it shows, and holds the properties that span components.

  \<^bold>\<open>The program.\<close> Clients send signed transactions to a node. A transaction is a list of
  instructions, each for one program and a window of accounts. The node checks and preflights it and
  queues it; the block producer executes the queue in order, commits each transaction's accounts in
  one write, forms a block with the Merkle root of all accounts, and anchors roots on Bitcoin from
  time to time. Followers fetch blocks, execute them again, compare the root, and can elect one of
  themselves when the leader is gone. Programs are built in (system, token, associated accounts,
  swap, oracle, NFT metadata, runes, lending, money market, vault) or deployed binaries that run in a
  zkVM; an owner gate confines what either may write. Lending queues payments that the executor makes
  with Bitcoin, from a wallet or from a threshold-signing committee, or over Lightning. A command
  line client calls the node and scaffolds new programs.

  \<^bold>\<open>How code becomes definitions.\<close> A struct is a record, an enum a datatype, an integer of \<open>w\<close>
  bits a word of that width, an array of 32 bytes a word of 256 bits, a string its UTF-8 bytes.
  A function that returns a \<open>Result\<close> has values \<open>Ok\<close>, \<open>Err\<close> and \<open>Panic\<close> (indexing out of
  range, division by zero, \<open>expect\<close>); plain arithmetic wraps as in the release profile. Code over
  thread-local or shared state is a function from the state to a result and the state it leaves, on
  every path (\<open>exec\<close>, \<open>xbind\<close> in \<open>Prelude\<close>). Every definition has the name of the function it
  models, with the program's prefix where two programs share a name (\<open>mm_\<close>, \<open>vt_\<close>, \<open>ln_\<close>,
  \<open>rn_\<close>, \<open>orc_\<close>, \<open>sys_\<close>).

  \<^bold>\<open>Theories and sources.\<close>
  \<^item> \<open>Prelude\<close>: words with checked and saturating arithmetic, results, computations over a state, the
    collections \<open>arith_iffs\<close> and \<open>monad_iffs\<close> that open them. \<open>Text\<close>: Rust's operations on text,
    decimal numbers, words as bytes; the locales \<open>byte_form\<close> and \<open>exact_form\<close> of printed forms,
    interpreted for words, decimal numbers and anchors. \<open>Json\<close>: JSON values and the two JSON-RPC
    clients (\<open>himsha-node/src/follower.rs\<close>, \<open>himsha-cli/src/main.rs\<close>).
  \<^item> \<open>Pubkeys\<close>, \<open>Key_Text\<close>, \<open>Account\<close>, \<open>Owner\<close>, \<open>Cpi\<close>, \<open>Merkle\<close>, \<open>Transaction\<close>:
    \<open>himsha-runtime/src\<close>, one theory per file or two. \<open>Cpi\<close> has the locale \<open>himsha_program\<close>, the
    contract of everything that processes accounts (keys, flags and the number of accounts stay),
    interpreted for each of the ten programs and for the dispatcher.
  \<^item> \<open>System_Program\<close>, \<open>Token_Program\<close>, \<open>Ata_Program\<close>, \<open>Swap_Program\<close>, \<open>Oracle_Program\<close>,
    \<open>Nft_Program\<close>, \<open>Runes_Program\<close>, \<open>Lending_Program\<close>, \<open>Market_State\<close> with \<open>Money_Market\<close>,
    \<open>Vault_Program\<close>: \<open>himsha-programs/*/src/lib.rs\<close>, every instruction and builder.
  \<^item> \<open>Vm\<close>: \<open>himsha-vm/src\<close> and the guest of \<open>himsha-methods\<close>: dispatch, registry, native and proven
    execution, the owner gate.
  \<^item> \<open>Tables\<close>, \<open>Node_State\<close>: \<open>himsha-node/src/state.rs\<close> over an ordered key-value store, whose
    interface is the locale \<open>redb_table\<close>, interpreted on sorted association lists.
  \<^item> \<open>Node_Exec\<close>, \<open>Block_Producer\<close>, \<open>Follower\<close>, \<open>Election\<close>: \<open>execution.rs\<close>, \<open>settlement.rs\<close>,
    \<open>block_producer.rs\<close>, \<open>follower.rs\<close>, \<open>election.rs\<close>. \<open>Election\<close> has the locale
    \<open>quorum_system\<close>, interpreted for the code's majority. \<open>Rpc\<close>, \<open>Node_Services\<close>: \<open>main.rs\<close>, the
    handlers, the configuration and the start of a node. \<open>Node_Run\<close>: the running node, the tasks that
    \<open>main\<close> spawns interleaved with the handlers as a step relation, with the poisoning of the registry's
    mutex; the locale \<open>replay_writes\<close>, the six writes that execution and replay are made of,
    interpreted for the steps of the database and for the table of statuses.
  \<^item> \<open>Threshold\<close>, \<open>Custody\<close>, \<open>Settlement_Tx\<close>, \<open>Bitcoin_Indexer\<close>, \<open>Lightning\<close>:
    \<open>himsha-threshold/src\<close>, \<open>custody.rs\<close>, \<open>settlement_tx.rs\<close>, \<open>bitcoin_indexer.rs\<close>,
    \<open>lightning.rs\<close>. \<open>Cli\<close>: \<open>himsha-cli/src/main.rs\<close> with the program that it generates.
  \<^item> \<open>Duplicate_Accounts\<close>: one account listed twice in an instruction.

  \<^bold>\<open>What is shown.\<close>
  \<^item> State commitments: Merkle proofs verify exactly for what the tree holds, equal roots mean equal
    tables, block hashes bind their contents, anchors read back, and an anchored root proves accounts.
  \<^item> The database: in every reachable state the owner index and the counters agree with a full scan
    (a refinement by rule induction over all writes); a batch is the same as its saves one by one.
  \<^item> Execution: preflights write nothing, failed commits change no account, deployed programs cannot
    touch in-use accounts of others beyond credits, the guest computes what native dispatch does, and
    the error codes tell which check refused a transaction.
  \<^item> Blocks and replicas: every queued transaction gets a final status, success is never downgraded, an
    included transaction is found by its id, a replica that replays any sequence of produced blocks
    ends with the producer's accounts and roots.
  \<^item> The running node, over all interleavings of its handlers and its task: every answer comes from a
    database that its operations built, a transaction on its way has the status pending and no other
    has, none is executed twice, none that was acknowledged is forgotten. Also what breaks this: a
    restart, a replica without failover, and a panic inside a program.
  \<^item> Elections: over a step relation with lost and late replies at most one node wins a term; a follower promotes itself only with a majority.
  \<^item> Programs: conservation of lamports, tokens and runes, exact effects of swaps, loans, liquidations and
    vault operations with their rounding, invariants of feeds, markets and vaults, bounds that hold
    without overflow, a square root that ends and is exact for every input.
  \<^item> Bitcoin: key generation and robust signing end with what they promise under the documented
    contract of the signature library; a settlement pays the recipient and nobody else; mempool
    events refine the snapshots they come from.
  \<^item> The command line: a scaffold touches nothing that existed and stays below its directory.

  \<^bold>\<open>Parameters.\<close> Third-party code is an argument of the definitions that use it: SHA-256
  (\<open>sha256\<close>), Borsh and serde codecs (\<open>codec\<close>), Schnorr signatures and curve points (\<open>tx_env\<close>,
  \<open>secp\<close>), base58 and hexadecimal (\<open>text_codec\<close>), the zkVM prover and its receipts (\<open>vm_env\<close>),
  FROST (\<open>frost\<close>), the bitcoin crate (\<open>btc_lib\<close>, \<open>index_lib\<close>), Bitcoin Core (\<open>core_rpc\<close>), LND
  and HTTP (\<open>exchange\<close>, \<open>transport\<close>), the enumeration of hash maps and sets. What a property needs
  of them is a hypothesis with a name (\<open>codec_ok\<close>, \<open>frost_signs\<close>, \<open>frost_aggregates\<close>,
  \<open>frost_blames\<close>, \<open>dkg_library\<close>, \<open>enumerates\<close>) or the absence of collisions on the inputs at hand,
  and each is discharged for a concrete instance where the property is applied.

  \<^bold>\<open>Loops and bounds.\<close> Loops are structural or have a measure (slots left to fetch, the distance to
  a square root, transactions left to collect). Three may run for ever: robust signing is a partial
  function whose termination is proved; the failover loop of a follower and the poll of the indexer
  are described for any number of turns. Tables are limited to \<open>2 ^ 64\<close> entries where an index is a
  machine word, which is the width of the code's own counter.

  A handler is one step of the running node and a round of the producer three kinds of steps; reads and
  writes of two handlers inside one another are looked at in single lemmas only.

  \<^bold>\<open>Not modelled.\<close> I/O errors of the database, timers, thread scheduling beyond the
  interleavings of the election and of the running node, the capacity of channels, binding and serving of HTTP, logging, the
  parsing of command line arguments, random keys, the debug texts, the build script of the zkVM
  methods, and the parts of the repository in other languages (SDKs, web pages, documents).
\<close>

section \<open>Anchored roots\<close>

text \<open>After a block the accounts are those its state root was computed from.\<close>

lemma produced_root:
  assumes "produce_block e reg n ts batch (c, s) = (Ok (Some block), (c', s'))"
  shows "b_state_root block = compute_state_root (ne_state e) s'"
proof -
  obtain s1 s2 where root: "b_state_root block = compute_state_root (ne_state e) s1"
    and fin: "finish_all e (b_slot block) (b_transactions block) (save_block (b_slot block)
       (case encode (sv_block (ne_state e)) block of Some b \<Rightarrow> b | None \<Rightarrow> []) s1) = (Ok s2 :: (exec_reason, NodeState) result)"
    and s': "s' = anchor_block e n (b_slot block) (b_state_root block) s2"
    using assms by (rule produce_block_cases)
  have "ns_accounts s' = ns_accounts s1"
    using finish_all_accounts [OF fin] by (simp add: s' save_block_def)
  then show ?thesis
    by (simp add: root compute_state_root_def state_leaves_def)
qed


text \<open>A client that accepts every call.\<close>

definition willing_indexer :: "recorded BitcoinIndexer" where
  "willing_indexer = recorded_indexer\<lparr>ix_rpc := recorded_core\<lparr>cr_fund_raw := xret, cr_sign_wallet := (\<lambda>raw. xret (raw, True)),
     cr_send_raw := (\<lambda>_. xret 5)\<rparr>\<rparr>"


end
